(* ===== verification/Prelude.thy ===== *)
theory Prelude
  imports Main
begin

section \<open>Shared types, standard-library functions and automation\<close>

text \<open>
  What every component of the development shares: the types of Go's standard library that
  the operator's code uses (instants, durations, strings), the few functions of the
  standard library whose result reaches a modelled value (decimal printing, the RFC 3339
  format), and the collections of lemmas the component theories hand to the simplifier.

  A \<open>time.Time\<close> is the number of nanoseconds since Go's zero time, 1 January of year 1
  in UTC, so that \<open>0\<close> is the value \<open>IsZero\<close> recognises; a \<open>time.Duration\<close> is a number
  of nanoseconds. Both are unbounded integers: the code only subtracts instants that lie
  within a few hours of each other, far from the 292 years at which \<open>Sub\<close> saturates.
\<close>

named_theorems go_simps \<open>rewrites for the modelled standard library\<close>

named_theorems step_defs \<open>definitions of the subreconcilers of a chain\<close>

type_synonym time = int

type_synonym duration = int

definition second :: duration where
  "second = 1000000000"

lemma second_pos [simp]: "0 < second"
  by (simp add: second_def)

definition minute :: duration where
  "minute = 60 * second"

lemma minute_pos [simp]: "0 < minute"
  by (simp add: minute_def)

text \<open>The value of an \<open>int32\<close> that arithmetic on unbounded integers would give: it wraps around.\<close>

definition int32 :: "int \<Rightarrow> int" where
  "int32 i = (i + 2147483648) mod 4294967296 - 2147483648"

lemma int32_id: "- 2147483648 \<le> i \<Longrightarrow> i < 2147483648 \<Longrightarrow> int32 i = i"
  by (simp add: int32_def)

lemma int32_range: "- 2147483648 \<le> int32 i" "int32 i < 2147483648"
  using pos_mod_bound [of 4294967296 "i + 2147483648"] pos_mod_sign [of 4294967296 "i + 2147483648"]
  by (simp_all add: int32_def)

text \<open>\<open>IsZero\<close> of a pointer to a time: nil, or the zero time.\<close>

definition time_is_zero :: "time option \<Rightarrow> bool" where
  "time_is_zero t = (case t of None \<Rightarrow> True | Some u \<Rightarrow> u = 0)"

lemma time_is_zero_simps [simp]:
  "time_is_zero None" "time_is_zero (Some u) \<longleftrightarrow> u = 0"
  by (simp_all add: time_is_zero_def)

subsection \<open>Decimal numbers and RFC 3339\<close>

definition digit_char :: "nat \<Rightarrow> char" where
  "digit_char d = char_of (48 + d)"

fun dec :: "nat \<Rightarrow> string" where
  "dec n = (if n < 10 then [digit_char n] else dec (n div 10) @ [digit_char (n mod 10)])"

declare dec.simps [simp del]

definition show_int :: "int \<Rightarrow> string" where
  "show_int i = (if i < 0 then CHR ''-'' # dec (nat (- i)) else dec (nat i))"

definition pad :: "nat \<Rightarrow> int \<Rightarrow> string" where
  "pad w i = (let ds = show_int i in replicate (w - length ds) (CHR ''0'') @ ds)"

text \<open>
  The civil date of a day number counted from 1 January of year 1, by counting 400-year
  eras from 1 March of year 0.
\<close>

definition civil_date :: "int \<Rightarrow> int \<times> int \<times> int" where
  "civil_date days =
     (let z = days + 306; era = z div 146097; doe = z mod 146097;
          yoe = (doe - doe div 1460 + doe div 36524 - doe div 146096) div 365;
          doy = doe - (365 * yoe + yoe div 4 - yoe div 100);
          mp = (5 * doy + 2) div 153;
          d = doy - (153 * mp + 2) div 5 + 1;
          m = (if mp < 10 then mp + 3 else mp - 9);
          y = yoe + era * 400 + (if m \<le> 2 then 1 else 0)
      in (y, m, d))"

text \<open>\<open>t.UTC().Format(time.RFC3339)\<close>.\<close>

definition format_rfc3339 :: "time \<Rightarrow> string" where
  "format_rfc3339 t =
     (let secs = t div second; (y, m, d) = civil_date (secs div 86400); r = secs mod 86400
      in pad 4 y @ ''-'' @ pad 2 m @ ''-'' @ pad 2 d @ ''T'' @ pad 2 (r div 3600) @ '':'' @
         pad 2 (r div 60 mod 60) @ '':'' @ pad 2 (r mod 60) @ ''Z'')"

subsection \<open>Lists and maps\<close>

text \<open>\<open>slices.Contains\<close> and the first element of a list that satisfies a predicate.\<close>

lemma find_Some_D: "find P xs = Some x \<Longrightarrow> x \<in> set xs \<and> P x"
  by (induction xs) (auto split: if_splits)

lemma find_None_D: "find P xs = None \<Longrightarrow> x \<in> set xs \<Longrightarrow> \<not> P x"
  by (auto simp: find_None_iff)

lemma dom_restrict_filter: "dom (\<lambda>k. case m k of None \<Rightarrow> None | Some v \<Rightarrow> if P k v then Some v else None) \<subseteq> dom m"
  by (auto split: option.splits if_splits)

end
