(* ===== verification/Reconcile.thy ===== *)
theory Reconcile
  imports Prelude
begin

section \<open>Results, subreconcilers and chains\<close>

text \<open>
  The package \<open>internal/reconcile\<close>: what a subreconciler asks of its chain (\<open>Result\<close>), how
  results fold together (\<open>Merge\<close>), the chain itself (\<open>Chain\<close>, \<open>Run\<close>) and \<open>Group\<close>.

  A subreconciler mutates the scope it is given and returns a result and an error. Here it
  is a function from the scope to the new scope, the result and the error. An error is
  the list of the errors it joins, so that nil is the empty list and \<open>errors.Join\<close> is
  concatenation.
\<close>

record Result =
  Stop :: bool
  RequeueAfter :: duration

definition no_result :: Result where
  "no_result = \<lparr>Stop = False, RequeueAfter = 0\<rparr>"

definition stop_result :: Result where
  "stop_result = \<lparr>Stop = True, RequeueAfter = 0\<rparr>"

definition requeue :: "duration \<Rightarrow> Result" where
  "requeue d = \<lparr>Stop = False, RequeueAfter = d\<rparr>"

lemma result_simps [simp]:
  "\<not> Stop no_result" "RequeueAfter no_result = 0"
  "Stop stop_result" "RequeueAfter stop_result = 0"
  "\<not> Stop (requeue d)" "RequeueAfter (requeue d) = d"
  by (simp_all add: no_result_def stop_result_def requeue_def)

definition Merge :: "Result \<Rightarrow> Result \<Rightarrow> Result" where
  "Merge r p =
     (let out = \<lparr>Stop = Stop r \<or> Stop p, RequeueAfter = RequeueAfter r\<rparr>
      in if RequeueAfter p > 0 \<and> (RequeueAfter out \<le> 0 \<or> RequeueAfter p < RequeueAfter out)
         then out\<lparr>RequeueAfter := RequeueAfter p\<rparr> else out)"

type_synonym ('s, 'e) SubReconciler = "'s \<Rightarrow> 's \<times> Result \<times> 'e list"

record ('s, 'e) Chain =
  Steps :: "('s, 'e) SubReconciler list"
  Finally :: "('s, 'e) SubReconciler list"

text \<open>The two loops of \<open>Chain.Run\<close>, with the result and the errors accumulated so far.\<close>

fun run_steps :: "('s, 'e) SubReconciler list \<Rightarrow> 's \<Rightarrow> Result \<Rightarrow> 's \<times> Result \<times> 'e list" where
  "run_steps [] s out = (s, out, [])"
| "run_steps (sub # subs) s out =
     (case sub s of (s', res, err) \<Rightarrow>
        let out' = Merge out res
        in if err \<noteq> [] then (s', out', err)
           else if Stop res then (s', out', [])
           else run_steps subs s' out')"

fun run_finally :: "('s, 'e) SubReconciler list \<Rightarrow> 's \<Rightarrow> Result \<Rightarrow> 'e list \<Rightarrow> 's \<times> Result \<times> 'e list" where
  "run_finally [] s out errs = (s, out, errs)"
| "run_finally (sub # subs) s out errs =
     (case sub s of (s', res, err) \<Rightarrow>
        run_finally subs s' (Merge out (res\<lparr>Stop := False\<rparr>)) (errs @ err))"

definition Run :: "('s, 'e) Chain \<Rightarrow> ('s, 'e) SubReconciler" where
  "Run c s =
     (case run_steps (Steps c) s no_result of (s', out, errs) \<Rightarrow> run_finally (Finally c) s' out errs)"

text \<open>\<open>Group\<close> runs a chain as one step of another and keeps its \<open>Stop\<close> to itself.\<close>

definition Group :: "('s, 'e) Chain \<Rightarrow> ('s, 'e) SubReconciler" where
  "Group c s = (case Run c s of (s', res, err) \<Rightarrow> (s', res\<lparr>Stop := False\<rparr>, err))"

subsection \<open>Merging results\<close>

text \<open>
  \<open>Merge\<close> keeps the shortest positive wait. \<open>positive_min\<close> is that, on the waits alone: a
  wait that is not positive asks for nothing.
\<close>

definition shorter :: "duration \<Rightarrow> duration \<Rightarrow> duration" where
  "shorter a b = (if b \<le> 0 then a else if a \<le> 0 then b else min a b)"

lemma Merge_simps [simp]:
  "Stop (Merge r p) \<longleftrightarrow> Stop r \<or> Stop p"
  "RequeueAfter (Merge r p) = shorter (RequeueAfter r) (RequeueAfter p)"
  by (auto simp: Merge_def shorter_def Let_def)

lemma shorter_pos_iff [simp]: "0 < shorter a b \<longleftrightarrow> 0 < a \<or> 0 < b"
  by (auto simp: shorter_def)

lemma shorter_assoc: "shorter (shorter a b) c = shorter a (shorter b c)"
  by (auto simp: shorter_def)

lemma shorter_0_right [simp]: "shorter a 0 = a"
  by (simp add: shorter_def)

lemma shorter_le: "0 < shorter a b \<Longrightarrow> (0 < a \<longrightarrow> shorter a b \<le> a) \<and> (0 < b \<longrightarrow> shorter a b \<le> b)"
  by (auto simp: shorter_def)

lemma Merge_assoc: "Merge (Merge a b) c = Merge a (Merge b c)"
  by (intro Result.equality) (simp_all add: shorter_assoc)

lemma Merge_no_result [simp]: "Merge r no_result = r"
  by (intro Result.equality) (simp_all add: shorter_def)

subsection \<open>Which subreconcilers run\<close>

text \<open>
  \<open>trace_steps\<close> is the sequence of results of the subreconcilers that \<open>run_steps\<close> really
  runs: up to and including the first that stops the chain or fails.
\<close>

fun trace_steps :: "('s, 'e) SubReconciler list \<Rightarrow> 's \<Rightarrow> Result list" where
  "trace_steps [] s = []"
| "trace_steps (sub # subs) s =
     (case sub s of (s', res, err) \<Rightarrow>
        res # (if err \<noteq> [] \<or> Stop res then [] else trace_steps subs s'))"

fun trace_finally :: "('s, 'e) SubReconciler list \<Rightarrow> 's \<Rightarrow> Result list" where
  "trace_finally [] s = []"
| "trace_finally (sub # subs) s =
     (case sub s of (s', res, err) \<Rightarrow> res\<lparr>Stop := False\<rparr> # trace_finally subs s')"

lemma run_steps_result:
  "fst (snd (run_steps subs s out)) = foldl Merge out (trace_steps subs s)"
  by (induction subs arbitrary: s out) (auto simp: Let_def split: prod.splits)

lemma run_finally_result:
  "fst (snd (run_finally subs s out errs)) = foldl Merge out (trace_finally subs s)"
  by (induction subs arbitrary: s out errs) (auto split: prod.splits)

lemma length_trace_finally [simp]: "length (trace_finally subs s) = length subs"
  by (induction subs arbitrary: s) (auto split: prod.splits)

lemma RequeueAfter_foldl_Merge:
  "RequeueAfter (foldl Merge out rs) = foldl shorter (RequeueAfter out) (map RequeueAfter rs)"
  by (induction rs arbitrary: out) auto

lemma Stop_foldl_Merge: "Stop (foldl Merge out rs) \<longleftrightarrow> Stop out \<or> (\<exists>r\<in>set rs. Stop r)"
  by (induction rs arbitrary: out) auto

lemma foldl_shorter_pos: "0 < foldl shorter a xs \<longleftrightarrow> 0 < a \<or> (\<exists>x\<in>set xs. 0 < x)"
  by (induction xs arbitrary: a) auto

lemma foldl_shorter_le: "0 < a \<Longrightarrow> foldl shorter a xs \<le> a"
proof (induction xs arbitrary: a)
  case Nil
  then show ?case by simp
next
  case (Cons x xs)
  then have "foldl shorter (shorter a x) xs \<le> shorter a x" by simp
  moreover have "shorter a x \<le> a" using Cons.prems by (auto simp: shorter_def)
  ultimately show ?case by simp
qed

lemma foldl_shorter_lower: "x \<in> set xs \<Longrightarrow> 0 < x \<Longrightarrow> foldl shorter a xs \<le> x"
proof (induction xs arbitrary: a)
  case Nil
  then show ?case by simp
next
  case (Cons y ys)
  show ?case
  proof (cases "x = y")
    case True
    have "foldl shorter (shorter a x) ys \<le> shorter a x"
      using Cons.prems by (intro foldl_shorter_le) simp
    also have "shorter a x \<le> x"
      using Cons.prems by (simp add: shorter_def)
    finally show ?thesis using True by simp
  next
    case False
    then show ?thesis using Cons by simp
  qed
qed

lemma foldl_shorter_mem: "foldl shorter a xs \<in> insert a (set xs)"
proof (induction xs arbitrary: a)
  case Nil
  then show ?case by simp
next
  case (Cons y ys)
  have "shorter a y \<in> {a, y}" by (auto simp: shorter_def min_def)
  then show ?case using Cons [of "shorter a y"] by auto
qed

lemma foldl_shorter_nonneg: "0 \<le> a \<Longrightarrow> 0 \<le> foldl shorter a xs"
  by (induction xs arbitrary: a) (auto simp: shorter_def)

text \<open>Folded from 0 the shortest positive wait is left, if there is one.\<close>

lemma foldl_shorter_Min:
  "foldl shorter 0 xs = (if {x \<in> set xs. 0 < x} = {} then 0 else Min {x \<in> set xs. 0 < x})"
proof (cases "{x \<in> set xs. 0 < x} = {}")
  case True
  then have "\<not> 0 < foldl shorter 0 xs" by (auto simp: foldl_shorter_pos)
  then show ?thesis using True foldl_shorter_nonneg [of 0 xs] by simp
next
  case False
  then have pos: "0 < foldl shorter 0 xs" by (auto simp: foldl_shorter_pos)
  then have "foldl shorter 0 xs \<in> {x \<in> set xs. 0 < x}" using foldl_shorter_mem [of 0 xs] by auto
  moreover have "\<forall>x\<in>{x \<in> set xs. 0 < x}. foldl shorter 0 xs \<le> x" by (auto intro: foldl_shorter_lower)
  ultimately have "Min {x \<in> set xs. 0 < x} = foldl shorter 0 xs" by (intro Min_eqI) auto
  then show ?thesis unfolding if_not_P [OF False] ..
qed

subsection \<open>Lifting a step property to a chain\<close>

text \<open>
  A relation between the scope before and after that is reflexive, transitive and kept by
  every subreconciler is kept by the chain. Every property of a controller's chain below
  is an instance: one lemma per subreconciler and this rule.
\<close>

definition keeps :: "('s \<Rightarrow> 's \<Rightarrow> bool) \<Rightarrow> ('s, 'e) SubReconciler \<Rightarrow> bool" where
  "keeps R f \<longleftrightarrow> (\<forall>s. R s (fst (f s)))"

lemma keepsD: "keeps R f \<Longrightarrow> f s = (s', res, err) \<Longrightarrow> R s s'"
  by (metis fst_conv keeps_def)

lemma run_steps_keeps:
  assumes "reflp R" and "transp R" and "\<forall>f\<in>set subs. keeps R f"
  shows "R s (fst (run_steps subs s out))"
  using assms(3)
proof (induction subs arbitrary: s out)
  case Nil
  then show ?case using assms(1) by (simp add: reflpD)
next
  case (Cons f fs)
  obtain s' res err where f: "f s = (s', res, err)" by (cases "f s")
  have "R s s'" using Cons.prems f by (auto dest: keepsD)
  moreover have "R s' (fst (run_steps fs s' (Merge out res)))"
    using Cons by simp
  ultimately show ?case
    using f assms(2) by (auto simp: Let_def dest: transpD)
qed

lemma run_finally_keeps:
  assumes "reflp R" and "transp R" and "\<forall>f\<in>set subs. keeps R f"
  shows "R s (fst (run_finally subs s out errs))"
  using assms(3)
proof (induction subs arbitrary: s out errs)
  case Nil
  then show ?case using assms(1) by (simp add: reflpD)
next
  case (Cons f fs)
  obtain s' res err where f: "f s = (s', res, err)" by (cases "f s")
  have "R s s'" using Cons.prems f by (auto dest: keepsD)
  moreover have "R s' (fst (run_finally fs s' (Merge out (res\<lparr>Stop := False\<rparr>)) (errs @ err)))"
    using Cons by simp
  ultimately show ?case using f assms(2) by (auto dest: transpD)
qed

lemma Run_keeps:
  assumes "reflp R" and "transp R" and "\<forall>f\<in>set (Steps c) \<union> set (Finally c). keeps R f"
  shows "R s (fst (Run c s))"
proof -
  obtain s' out errs where s': "run_steps (Steps c) s no_result = (s', out, errs)"
    by (cases "run_steps (Steps c) s no_result")
  have "R s s'"
    using run_steps_keeps [OF assms(1,2), of "Steps c" s no_result] assms(3) s' by simp
  moreover have "R s' (fst (run_finally (Finally c) s' out errs))"
    using run_finally_keeps [OF assms(1,2), of "Finally c"] assms(3) by simp
  ultimately show ?thesis using assms(2) by (auto simp: Run_def s' dest: transpD)
qed

end
