(* ===== verification/Kube.thy ===== *)
theory Kube
  imports Reconcile
begin

section \<open>Kubernetes objects and the library that works on them\<close>

text \<open>
  The parts of Kubernetes' object model the controllers read and write: object metadata,
  conditions, and the errors of the API server.

  The functions that change conditions and finalizers are \<open>meta.SetStatusCondition\<close>,
  \<open>meta.FindStatusCondition\<close>, \<open>meta.RemoveStatusCondition\<close> and \<open>controllerutil\<close>'s finalizer functions, which are not
  part of this repository. They are a parameter of the model, a record \<open>kube_api\<close> of
  functions. What the code relies on of them is the locale \<open>kube_lib\<close>; it states their
  documentation and nothing about the operator.
\<close>

type_synonym key = "string \<times> string" \<comment> \<open>namespace and name\<close>

record ObjectMeta =
  om_Namespace :: string
  om_Name :: string
  om_UID :: string
  om_Generation :: int
  om_DeletionTimestamp :: "time option"
  om_Finalizers :: "string list"
  om_Labels :: "string \<rightharpoonup> string"
  om_Annotations :: "string \<rightharpoonup> string"

definition ObjectKeyFromObject :: "ObjectMeta \<Rightarrow> key" where
  "ObjectKeyFromObject m = (om_Namespace m, om_Name m)"

definition key_String :: "key \<Rightarrow> string" where
  "key_String k = fst k @ ''/'' @ snd k"

definition deleting :: "ObjectMeta \<Rightarrow> bool" where
  "deleting m \<longleftrightarrow> \<not> time_is_zero (om_DeletionTimestamp m)"

text \<open>An error of the API server: \<open>apierrors.IsNotFound\<close> is all the code asks of one.\<close>

datatype api_error = ApiNotFound string | ApiOther string

fun IsNotFound :: "api_error \<Rightarrow> bool" where
  "IsNotFound (ApiNotFound m) = True"
| "IsNotFound (ApiOther m) = False"

datatype ConditionStatus = ConditionTrue | ConditionFalse | ConditionUnknown

record Condition =
  cond_Type :: string
  cond_Status :: ConditionStatus
  cond_Reason :: string
  cond_Message :: string
  cond_ObservedGeneration :: int
  cond_LastTransitionTime :: time

record kube_api =
  SetStatusCondition :: "Condition list \<Rightarrow> Condition \<Rightarrow> Condition list"
  FindStatusCondition :: "Condition list \<Rightarrow> string \<Rightarrow> Condition option"
  RemoveStatusCondition :: "Condition list \<Rightarrow> string \<Rightarrow> Condition list"
  AddFinalizer :: "string list \<Rightarrow> string \<Rightarrow> string list \<times> bool"
  RemoveFinalizer :: "string list \<Rightarrow> string \<Rightarrow> string list"
  ContainsFinalizer :: "string list \<Rightarrow> string \<Rightarrow> bool"

text \<open>
  The condition that \<open>SetStatusCondition\<close> leaves behind: the new one, with the old
  transition time while the status does not change.
\<close>

definition settled :: "Condition option \<Rightarrow> Condition \<Rightarrow> Condition" where
  "settled prev c =
     (case prev of
        None \<Rightarrow> c
      | Some p \<Rightarrow> if cond_Status p = cond_Status c
                 then c\<lparr>cond_LastTransitionTime := cond_LastTransitionTime p\<rparr> else c)"

lemma settled_simps [simp]:
  "cond_Type (settled p c) = cond_Type c"
  "cond_Status (settled p c) = cond_Status c"
  "cond_Reason (settled p c) = cond_Reason c"
  "cond_Message (settled p c) = cond_Message c"
  "cond_ObservedGeneration (settled p c) = cond_ObservedGeneration c"
  by (auto simp: settled_def split: option.splits)

locale kube_lib =
  fixes K :: kube_api
  assumes find_set_same:
      "cond_LastTransitionTime c \<noteq> 0 \<Longrightarrow>
       FindStatusCondition K (SetStatusCondition K cs c) (cond_Type c) =
         Some (settled (FindStatusCondition K cs (cond_Type c)) c)"
    and find_set_other:
      "t \<noteq> cond_Type c \<Longrightarrow>
       FindStatusCondition K (SetStatusCondition K cs c) t = FindStatusCondition K cs t"
    and find_remove:
      "FindStatusCondition K (RemoveStatusCondition K cs u) t =
         (if t = u then None else FindStatusCondition K cs t)"
    and add_finalizer:
      "AddFinalizer K fs f = (fs', changed) \<Longrightarrow>
       changed = (\<not> ContainsFinalizer K fs f) \<and> ContainsFinalizer K fs' f \<and>
       (\<forall>g. g \<noteq> f \<longrightarrow> ContainsFinalizer K fs' g = ContainsFinalizer K fs g)"
    and add_finalizer_same: "ContainsFinalizer K fs f \<Longrightarrow> fst (AddFinalizer K fs f) = fs"
    and remove_finalizer:
      "ContainsFinalizer K (RemoveFinalizer K fs f) g \<longleftrightarrow> ContainsFinalizer K fs g \<and> g \<noteq> f"
begin

lemma find_set:
  "cond_LastTransitionTime c \<noteq> 0 \<Longrightarrow>
   FindStatusCondition K (SetStatusCondition K cs c) t =
     (if t = cond_Type c then Some (settled (FindStatusCondition K cs t) c)
      else FindStatusCondition K cs t)"
  by (simp add: find_set_same find_set_other)

text \<open>Setting a condition twice with the same status keeps the first transition time.\<close>

lemma find_set_set_time:
  assumes "cond_LastTransitionTime c \<noteq> 0" "cond_LastTransitionTime d \<noteq> 0"
    and "cond_Type d = cond_Type c" "cond_Status d = cond_Status c"
  shows "map_option cond_LastTransitionTime
           (FindStatusCondition K (SetStatusCondition K (SetStatusCondition K cs c) d) (cond_Type c)) =
         map_option cond_LastTransitionTime
           (FindStatusCondition K (SetStatusCondition K cs c) (cond_Type c))"
  using assms find_set [of d "SetStatusCondition K cs c" "cond_Type c"] find_set [of c cs "cond_Type c"]
  by (auto simp: settled_def split: option.splits)

end

subsection \<open>Conditions and finalizers kept as lists\<close>

text \<open>
  The library keeps both as lists: a condition is replaced in place or appended, and a
  finalizer is appended when it is missing and removed wherever it occurs. These satisfy
  the contract, so the contract can hold.
\<close>

fun put_condition :: "Condition list \<Rightarrow> Condition \<Rightarrow> Condition list" where
  "put_condition [] c = [c]"
| "put_condition (p # ps) c =
     (if cond_Type p = cond_Type c then settled (Some p) c # ps else p # put_condition ps c)"

definition list_kube :: kube_api where
  "list_kube =
     \<lparr>SetStatusCondition = put_condition,
      FindStatusCondition = (\<lambda>cs t. find (\<lambda>c. cond_Type c = t) cs),
      RemoveStatusCondition = (\<lambda>cs t. filter (\<lambda>c. cond_Type c \<noteq> t) cs),
      AddFinalizer = (\<lambda>fs f. if f \<in> set fs then (fs, False) else (fs @ [f], True)),
      RemoveFinalizer = (\<lambda>fs f. filter (\<lambda>g. g \<noteq> f) fs),
      ContainsFinalizer = (\<lambda>fs f. f \<in> set fs)\<rparr>"

lemma find_put_condition:
  "find (\<lambda>d. cond_Type d = t) (put_condition cs c) =
     (if t = cond_Type c then Some (settled (find (\<lambda>d. cond_Type d = t) cs) c)
      else find (\<lambda>d. cond_Type d = t) cs)"
  by (induction cs c rule: put_condition.induct) (auto simp: settled_def)

lemma find_filter_condition:
  "find (\<lambda>d. cond_Type d = t) (filter (\<lambda>d. cond_Type d \<noteq> u) cs) =
     (if t = u then None else find (\<lambda>d. cond_Type d = t) cs)"
  by (induction cs) auto

interpretation lists: kube_lib list_kube
  by unfold_locales (auto simp: list_kube_def find_put_condition find_filter_condition split: if_splits)

subsection \<open>The shared subreconciler for finalizers, and SetCondition\<close>

text \<open>
  \<open>reconcile.EnsureFinalizer\<close> adds the finalizer, and stops the chain when it has just
  added it. The scope is a controller's own; \<open>get\<close> and \<open>put\<close> are its object's metadata.
\<close>

definition EnsureFinalizer ::
  "kube_api \<Rightarrow> string \<Rightarrow> ('s \<Rightarrow> ObjectMeta) \<Rightarrow> (ObjectMeta \<Rightarrow> 's \<Rightarrow> 's) \<Rightarrow> ('s, 'e) SubReconciler" where
  "EnsureFinalizer K name get put s =
     (case AddFinalizer K (om_Finalizers (get s)) name of (fs, added) \<Rightarrow>
        let s' = put ((get s)\<lparr>om_Finalizers := fs\<rparr>) s
        in if added then (s', stop_result, []) else (s', no_result, []))"

text \<open>\<open>reconcile.SetCondition\<close>, for an object of the given generation.\<close>

definition SetCondition ::
  "kube_api \<Rightarrow> int \<Rightarrow> time \<Rightarrow> string \<Rightarrow> ConditionStatus \<Rightarrow> string \<Rightarrow> string \<Rightarrow> Condition list \<Rightarrow> Condition list" where
  "SetCondition K gen now conditionType status reason message cs =
     SetStatusCondition K cs
       \<lparr>cond_Type = conditionType, cond_Status = status, cond_Reason = reason,
        cond_Message = message, cond_ObservedGeneration = gen, cond_LastTransitionTime = now\<rparr>"

end
