(* ===== verification/BatteryClient.thy ===== *)
theory BatteryClient
  imports Kube
begin

section \<open>The interface to battery\<close>

text \<open>
  The package \<open>internal/battery\<close>: the values the controllers exchange with battery, the
  sentinel errors and \<open>mapErr\<close>, which turns the status of a gRPC call into one of them,
  the conversions to and from the wire messages, and the \<open>Client\<close> interface.

  battery itself is a service outside this repository. A client is a record of functions
  over a world of type \<open>'w\<close>: each call takes the world and returns an answer and the world
  after it, so that a client can be battery, the fake battery or a failing network.
\<close>

subsection \<open>Errors\<close>

datatype sentinel =
  ErrNotFound | ErrExhausted | ErrUnavailable | ErrAlreadyExists | ErrInvalid
| ErrFailedPrecondition | ErrAborted

datatype ctx_error = DeadlineExceeded | Canceled

text \<open>
  An error of a client method: one that wraps a sentinel, a context's error, or any other.
\<close>

datatype battery_error = Wraps sentinel string | Ctx ctx_error | Plain string

fun sentinel_text :: "sentinel \<Rightarrow> string" where
  "sentinel_text ErrNotFound = ''battery: not found''"
| "sentinel_text ErrExhausted = ''battery: pool exhausted''"
| "sentinel_text ErrUnavailable = ''battery: unavailable''"
| "sentinel_text ErrAlreadyExists = ''battery: already exists''"
| "sentinel_text ErrInvalid = ''battery: invalid request''"
| "sentinel_text ErrFailedPrecondition = ''battery: failed precondition''"
| "sentinel_text ErrAborted = ''battery: aborted''"

fun Error :: "battery_error \<Rightarrow> string" where
  "Error (Wraps k m) = sentinel_text k @ '': '' @ m"
| "Error (Ctx DeadlineExceeded) = ''context deadline exceeded''"
| "Error (Ctx Canceled) = ''context canceled''"
| "Error (Plain m) = m"

text \<open>\<open>errors.Is\<close> with a sentinel.\<close>

fun errors_Is :: "battery_error \<Rightarrow> sentinel \<Rightarrow> bool" where
  "errors_Is (Wraps k m) j \<longleftrightarrow> k = j"
| "errors_Is (Ctx c) j \<longleftrightarrow> False"
| "errors_Is (Plain m) j \<longleftrightarrow> False"

text \<open>
  gRPC's status codes, and the error of a stub: one that carries a status, or one that
  does not (\<open>status.FromError\<close> reports which). \<open>OK\<close> never accompanies an error.
\<close>

datatype grpc_code =
  c_Canceled | c_Unknown | c_InvalidArgument | c_DeadlineExceeded | c_NotFound | c_AlreadyExists
| c_PermissionDenied | c_ResourceExhausted | c_FailedPrecondition | c_Aborted | c_OutOfRange
| c_Unimplemented | c_Internal | c_Unavailable | c_DataLoss | c_Unauthenticated

fun code_String :: "grpc_code \<Rightarrow> string" where
  "code_String c_Canceled = ''Canceled''"
| "code_String c_Unknown = ''Unknown''"
| "code_String c_InvalidArgument = ''InvalidArgument''"
| "code_String c_DeadlineExceeded = ''DeadlineExceeded''"
| "code_String c_NotFound = ''NotFound''"
| "code_String c_AlreadyExists = ''AlreadyExists''"
| "code_String c_PermissionDenied = ''PermissionDenied''"
| "code_String c_ResourceExhausted = ''ResourceExhausted''"
| "code_String c_FailedPrecondition = ''FailedPrecondition''"
| "code_String c_Aborted = ''Aborted''"
| "code_String c_OutOfRange = ''OutOfRange''"
| "code_String c_Unimplemented = ''Unimplemented''"
| "code_String c_Internal = ''Internal''"
| "code_String c_Unavailable = ''Unavailable''"
| "code_String c_DataLoss = ''DataLoss''"
| "code_String c_Unauthenticated = ''Unauthenticated''"

datatype grpc_error = Status grpc_code string | NoStatus string

text \<open>The caller's context when a call returns: its error, and whether its deadline has passed.\<close>

record ctx_state =
  ctx_Err :: "ctx_error option"
  ctx_deadlinePassed :: bool

definition mapErr1 :: "ctx_state \<Rightarrow> grpc_error \<Rightarrow> battery_error" where
  "mapErr1 ctx err =
     (case err of
        NoStatus m \<Rightarrow> Plain (''battery: '' @ m)
      | Status code m \<Rightarrow>
          (case code of
             c_NotFound \<Rightarrow> Wraps ErrNotFound m
           | c_ResourceExhausted \<Rightarrow> Wraps ErrExhausted m
           | c_Unavailable \<Rightarrow> Wraps ErrUnavailable m
           | c_AlreadyExists \<Rightarrow> Wraps ErrAlreadyExists m
           | c_InvalidArgument \<Rightarrow> Wraps ErrInvalid m
           | c_FailedPrecondition \<Rightarrow> Wraps ErrFailedPrecondition m
           | c_Aborted \<Rightarrow> Wraps ErrAborted m
           | _ \<Rightarrow>
               if code = c_Canceled \<or> code = c_DeadlineExceeded then
                 (case ctx_Err ctx of
                    Some e \<Rightarrow> Ctx e
                  | None \<Rightarrow> if ctx_deadlinePassed ctx then Ctx DeadlineExceeded
                           else Wraps ErrUnavailable m)
               else Plain (''battery: '' @ code_String code @ '': '' @ m)))"

text \<open>\<open>mapErr\<close> leaves a nil error nil.\<close>

definition mapErr :: "ctx_state \<Rightarrow> grpc_error option \<Rightarrow> battery_error option" where
  "mapErr ctx err = (case err of None \<Rightarrow> None | Some e \<Rightarrow> Some (mapErr1 ctx e))"

subsection \<open>Values\<close>

record PoolRef =
  ref_Name :: string
  ref_Namespace :: string

definition PoolRef_String :: "PoolRef \<Rightarrow> string" where
  "PoolRef_String r = ref_Namespace r @ ''/'' @ ref_Name r"

text \<open>
  The enumerations and the MicroVM template come from battery's and flintlock's protos.
  The template has every field that the Pool Controller fills in; a nil slice or map is the
  empty one.
\<close>

datatype ReplenishmentStrategyType =
  IMMEDIATE_ON_LEASE | MIN_SIZE_THRESHOLD | REPLACE_ON_DELETE | ReplenishmentUnknown int

datatype HookFailurePolicy = DELETE_AND_REPLACE | QUARANTINE | HookPolicyUnknown int

text \<open>The zero value of both enumerations is their UNSPECIFIED.\<close>

definition REPLENISHMENT_STRATEGY_TYPE_UNSPECIFIED :: ReplenishmentStrategyType where
  "REPLENISHMENT_STRATEGY_TYPE_UNSPECIFIED = ReplenishmentUnknown 0"

definition HOOK_FAILURE_POLICY_UNSPECIFIED :: HookFailurePolicy where
  "HOOK_FAILURE_POLICY_UNSPECIFIED = HookPolicyUnknown 0"

datatype EventType =
  VM_PROVISIONED | VM_AVAILABLE | VM_CLAIMED | VM_RELEASED | VM_DELETED_ON_RELEASE
| VM_EXPIRING_SOON | VM_DELETED_DUE_TO_EXPIRY | VM_HOOK_FAILED | POOL_REPLENISHING
| POOL_SIZE_BELOW_TARGET | VM_DELETED_ON_POOL_DELETE

type_synonym labels = "string \<rightharpoonup> string"

record fl_Kernel =
  flk_Image :: string
  flk_Cmdline :: labels
  flk_Filename :: "string option"
  flk_AddNetworkConfig :: bool

record fl_Initrd =
  fli_Image :: string
  fli_Filename :: "string option"

record fl_VolumeSource =
  fls_ContainerSource :: "string option"
  fls_VirtiofsSource :: "string option"

record fl_Volume =
  flv_Id :: string
  flv_IsReadOnly :: bool
  flv_MountPoint :: "string option"
  flv_PartitionId :: "string option"
  flv_SizeInMb :: "int option"
  flv_Source :: "fl_VolumeSource option"

datatype fl_IfaceType = MACVTAP | TAP

record fl_StaticAddress =
  fla_Address :: string
  fla_Gateway :: "string option"
  fla_Nameservers :: "string list"

record fl_NetworkInterface =
  fln_DeviceId :: string
  fln_Type :: fl_IfaceType
  fln_GuestMac :: "string option"
  fln_Address :: "fl_StaticAddress option"
  fln_BridgeName :: "string option option" \<comment> \<open>the overrides, whose only field it is\<close>

record fl_CPUConfig =
  flc_FeaturesToEnable :: "string list"
  flc_KvmCapabilitiesToDisable :: "string list"

record MicroVMSpec =
  mvm_Id :: string
  mvm_Namespace :: string
  mvm_AllowGuestAgent :: bool
  mvm_Labels :: labels
  mvm_Vcpu :: int
  mvm_MemoryInMb :: int
  mvm_Kernel :: "fl_Kernel option"
  mvm_Initrd :: "fl_Initrd option"
  mvm_RootVolume :: "fl_Volume option"
  mvm_AdditionalVolumes :: "fl_Volume list"
  mvm_Interfaces :: "fl_NetworkInterface list"
  mvm_Metadata :: labels
  mvm_Provider :: "string option"
  mvm_CpuConfig :: "fl_CPUConfig option"

definition zero_template :: MicroVMSpec where
  "zero_template =
     \<lparr>mvm_Id = [], mvm_Namespace = [], mvm_AllowGuestAgent = False, mvm_Labels = Map.empty, mvm_Vcpu = 0,
      mvm_MemoryInMb = 0, mvm_Kernel = None, mvm_Initrd = None, mvm_RootVolume = None,
      mvm_AdditionalVolumes = [], mvm_Interfaces = [], mvm_Metadata = Map.empty, mvm_Provider = None,
      mvm_CpuConfig = None\<rparr>"

record ReplenishmentStrategy =
  rs_Type :: ReplenishmentStrategyType
  rs_MinSize :: "int option"

record PoolSpec =
  ps_Ref :: PoolRef
  ps_Template :: "MicroVMSpec option"
  ps_Size :: int
  ps_FlintlockHosts :: "string list"
  ps_Replenishment :: ReplenishmentStrategy
  ps_CreateCommands :: "string list"
  ps_PreLeaseCommands :: "string list"
  ps_HookFailurePolicy :: HookFailurePolicy
  ps_HeartbeatInterval :: duration
  ps_HeartbeatExpiryThreshold :: duration

record PoolStatus =
  st_Available :: int
  st_Leased :: int
  st_Provisioning :: int
  st_Quarantined :: int

record Pool =
  pool_Spec :: PoolSpec
  pool_Status :: PoolStatus

record HostRef =
  hr_Name :: string
  hr_Address :: string

record Claim =
  cl_LeaseID :: string
  cl_VMUID :: string
  cl_Host :: HostRef

record LeaseRecord =
  lr_LeaseID :: string
  lr_VMUID :: string
  lr_Pool :: PoolRef
  lr_ClaimedAt :: time
  lr_LastHeartbeatAt :: time
  lr_ExpiresAt :: time
  lr_RequestID :: string

record Event =
  ev_ID :: int
  ev_Pool :: PoolRef
  ev_VMUID :: string
  ev_Type :: EventType
  ev_At :: time
  ev_Payload :: string

record 'w battery_client =
  CreatePool :: "PoolSpec \<Rightarrow> 'w \<Rightarrow> (battery_error + Pool) \<times> 'w"
  UpdatePool :: "PoolSpec \<Rightarrow> 'w \<Rightarrow> (battery_error + Pool) \<times> 'w"
  DeletePool :: "PoolRef \<Rightarrow> 'w \<Rightarrow> battery_error option \<times> 'w"
  GetPool :: "PoolRef \<Rightarrow> 'w \<Rightarrow> (battery_error + Pool) \<times> 'w"
  ListPools :: "string \<Rightarrow> 'w \<Rightarrow> (battery_error + Pool list) \<times> 'w"
  ClaimVM :: "PoolRef \<Rightarrow> string \<Rightarrow> 'w \<Rightarrow> (battery_error + Claim) \<times> 'w"
  Heartbeat :: "string \<Rightarrow> 'w \<Rightarrow> (battery_error + time) \<times> 'w"
  ReleaseVM :: "string \<Rightarrow> 'w \<Rightarrow> battery_error option \<times> 'w"
  ListLeases :: "PoolRef option \<Rightarrow> 'w \<Rightarrow> (battery_error + LeaseRecord list) \<times> 'w"

subsection \<open>The wire messages and the connection\<close>

text \<open>
  A generated message of battery's proto, with the fields the conversions touch. An
  optional message is an \<open>option\<close>; a protobuf \<open>Duration\<close> is the duration it stands for.
\<close>

record proto_PoolSpec =
  pp_Name :: string
  pp_Namespace :: string
  pp_Size :: int
  pp_FlintlockHosts :: "string list"
  pp_ReplenishmentStrategy :: "ReplenishmentStrategy option"
  pp_CreateCommands :: "string list"
  pp_PreLeaseCommands :: "string list"
  pp_HookFailurePolicy :: HookFailurePolicy
  pp_MicrovmTemplate :: "MicroVMSpec option"
  pp_HeartbeatInterval :: "duration option"
  pp_HeartbeatExpiryThreshold :: "duration option"

definition specToProto :: "PoolSpec \<Rightarrow> proto_PoolSpec" where
  "specToProto spec =
     \<lparr>pp_Name = ref_Name (ps_Ref spec), pp_Namespace = ref_Namespace (ps_Ref spec),
      pp_Size = ps_Size spec, pp_FlintlockHosts = ps_FlintlockHosts spec,
      pp_ReplenishmentStrategy =
        Some \<lparr>rs_Type = rs_Type (ps_Replenishment spec), rs_MinSize = rs_MinSize (ps_Replenishment spec)\<rparr>,
      pp_CreateCommands = ps_CreateCommands spec, pp_PreLeaseCommands = ps_PreLeaseCommands spec,
      pp_HookFailurePolicy = ps_HookFailurePolicy spec, pp_MicrovmTemplate = ps_Template spec,
      pp_HeartbeatInterval =
        (if ps_HeartbeatInterval spec > 0 then Some (ps_HeartbeatInterval spec) else None),
      pp_HeartbeatExpiryThreshold =
        (if ps_HeartbeatExpiryThreshold spec > 0 then Some (ps_HeartbeatExpiryThreshold spec) else None)\<rparr>"

text \<open>The zero values of the proto's two enumerations are the first constants they declare.\<close>

definition specFromProto :: "ReplenishmentStrategyType \<Rightarrow> proto_PoolSpec \<Rightarrow> PoolSpec" where
  "specFromProto zeroType s =
     \<lparr>ps_Ref = \<lparr>ref_Name = pp_Name s, ref_Namespace = pp_Namespace s\<rparr>,
      ps_Template = pp_MicrovmTemplate s, ps_Size = pp_Size s,
      ps_FlintlockHosts = pp_FlintlockHosts s,
      ps_Replenishment =
        (case pp_ReplenishmentStrategy s of
           None \<Rightarrow> \<lparr>rs_Type = zeroType, rs_MinSize = None\<rparr>
         | Some rs \<Rightarrow> \<lparr>rs_Type = rs_Type rs, rs_MinSize = rs_MinSize rs\<rparr>),
      ps_CreateCommands = pp_CreateCommands s, ps_PreLeaseCommands = pp_PreLeaseCommands s,
      ps_HookFailurePolicy = pp_HookFailurePolicy s,
      ps_HeartbeatInterval = (case pp_HeartbeatInterval s of None \<Rightarrow> 0 | Some d \<Rightarrow> d),
      ps_HeartbeatExpiryThreshold = (case pp_HeartbeatExpiryThreshold s of None \<Rightarrow> 0 | Some d \<Rightarrow> d)\<rparr>"

text \<open>
  The generated stubs of battery's services, as far as \<open>Connection\<close> calls them for Leases
  and Pools: each answers an error or a response. The conversions of a response keep its
  fields, so a stub answers with the package's own records, apart from \<open>PoolSpec\<close>.
\<close>

record 'w battery_stub =
  rpc_CreatePool :: "proto_PoolSpec \<Rightarrow> 'w \<Rightarrow> (grpc_error + proto_PoolSpec \<times> PoolStatus) \<times> 'w"
  rpc_UpdatePool :: "proto_PoolSpec \<Rightarrow> 'w \<Rightarrow> (grpc_error + proto_PoolSpec \<times> PoolStatus) \<times> 'w"
  rpc_DeletePool :: "PoolRef \<Rightarrow> 'w \<Rightarrow> grpc_error option \<times> 'w"
  rpc_GetPool :: "PoolRef \<Rightarrow> 'w \<Rightarrow> (grpc_error + proto_PoolSpec \<times> PoolStatus) \<times> 'w"
  rpc_ListPools :: "string option \<Rightarrow> 'w \<Rightarrow> (grpc_error + (proto_PoolSpec \<times> PoolStatus) list) \<times> 'w"
  rpc_ClaimVM :: "PoolRef \<Rightarrow> string \<Rightarrow> 'w \<Rightarrow> (grpc_error + Claim) \<times> 'w"
  rpc_Heartbeat :: "string \<Rightarrow> 'w \<Rightarrow> (grpc_error + time) \<times> 'w"
  rpc_ReleaseVM :: "string \<Rightarrow> 'w \<Rightarrow> grpc_error option \<times> 'w"
  rpc_ListLeases :: "PoolRef option \<Rightarrow> 'w \<Rightarrow> (grpc_error + LeaseRecord list) \<times> 'w"

definition poolFromProto :: "ReplenishmentStrategyType \<Rightarrow> proto_PoolSpec \<times> PoolStatus \<Rightarrow> Pool" where
  "poolFromProto z p = \<lparr>pool_Spec = specFromProto z (fst p), pool_Status = snd p\<rparr>"

text \<open>What every method of \<open>Connection\<close> does with the stub's answer.\<close>

definition answer :: "('w \<Rightarrow> ctx_state) \<Rightarrow> ('a \<Rightarrow> 'b) \<Rightarrow> (grpc_error + 'a) \<times> 'w \<Rightarrow> (battery_error + 'b) \<times> 'w" where
  "answer ctx f r =
     (case r of
        (Inl e, w) \<Rightarrow> (Inl (mapErr1 (ctx w) e), w)
      | (Inr a, w) \<Rightarrow> (Inr (f a), w))"

definition Connection ::
  "ReplenishmentStrategyType \<Rightarrow> 'w battery_stub \<Rightarrow> ('w \<Rightarrow> ctx_state) \<Rightarrow> 'w battery_client" where
  "Connection z S ctx =
     \<lparr>CreatePool = (\<lambda>spec w. answer ctx (poolFromProto z) (rpc_CreatePool S (specToProto spec) w)),
      UpdatePool = (\<lambda>spec w. answer ctx (poolFromProto z) (rpc_UpdatePool S (specToProto spec) w)),
      DeletePool = (\<lambda>ref w. case rpc_DeletePool S ref w of (e, w') \<Rightarrow> (mapErr (ctx w') e, w')),
      GetPool = (\<lambda>ref w. answer ctx (poolFromProto z) (rpc_GetPool S ref w)),
      ListPools = (\<lambda>ns w. answer ctx (map (poolFromProto z))
                            (rpc_ListPools S (if ns = [] then None else Some ns) w)),
      ClaimVM = (\<lambda>ref rid w. answer ctx id (rpc_ClaimVM S ref rid w)),
      Heartbeat = (\<lambda>l w. answer ctx id (rpc_Heartbeat S l w)),
      ReleaseVM = (\<lambda>l w. case rpc_ReleaseVM S l w of (e, w') \<Rightarrow> (mapErr (ctx w') e, w')),
      ListLeases = (\<lambda>p w. answer ctx id (rpc_ListLeases S p w))\<rparr>"

subsection \<open>Errors of a step\<close>

text \<open>The error of an answer, nil when the call succeeded.\<close>

definition err_of :: "'e + 'a \<Rightarrow> 'e option" where
  "err_of r = (case r of Inl e \<Rightarrow> Some e | Inr _ \<Rightarrow> None)"

lemma err_of_simps [simp]: "err_of (Inl e) = Some e" "err_of (Inr a) = None"
  by (simp_all add: err_of_def)

text \<open>
  An error of a step of a controller: a call to battery or to the API server that failed, with
  the text it is wrapped in, an error of the step's own that wraps a sentinel, any other
  error, or a panic, which unwinds the chain as an error does.
\<close>

datatype reconcile_error =
  BatteryFailed string battery_error | ApiFailed string api_error | SentinelFailed string sentinel
| Failed string | Panicked string

subsection \<open>Facts about errors\<close>

lemma errors_Is_unique: "errors_Is e k \<Longrightarrow> errors_Is e j \<Longrightarrow> j = k"
  by (cases e) auto

lemma mapErr_None_iff [simp]: "mapErr ctx e = None \<longleftrightarrow> e = None"
  by (auto simp: mapErr_def split: option.splits)

end
