(* ===== verification/ClaimTypes.thy ===== *)
theory ClaimTypes
  imports BatteryClient
begin

section \<open>MicroVMClaims and the Claim Controller's scope\<close>

text \<open>
  The resource \<open>MicroVMClaim\<close> (\<open>api/v1alpha1/microvmclaim_types.go\<close>), the scope of one
  reconcile of one claim (\<open>internal/controller/claimscope\<close>), and the state the Claim
  Controller keeps in memory across reconciles: the ClaimVM slots, the MicroVMs battery
  reported deleted, and what the last recovery read.
\<close>

subsection \<open>The resource\<close>

definition ReleaseFinalizer :: string where
  "ReleaseFinalizer = ''battery.liquidmetal-x.dev/release''"

text \<open>The phase is a string; a claim no reconcile has written yet has the empty one.\<close>

datatype MicroVMClaimPhase = PhaseUnset | MicroVMClaimPending | MicroVMClaimBound | MicroVMClaimExpired

definition ConditionBound :: string where "ConditionBound = ''Bound''"
definition ConditionSynced :: string where "ConditionSynced = ''Synced''"
definition ConditionAgentAvailable :: string where "ConditionAgentAvailable = ''AgentAvailable''"
definition ConditionHostReady :: string where "ConditionHostReady = ''HostReady''"

definition ReasonBound :: string where "ReasonBound = ''Bound''"
definition ReasonPoolExhausted :: string where "ReasonPoolExhausted = ''PoolExhausted''"
definition ReasonPoolNotFound :: string where "ReasonPoolNotFound = ''PoolNotFound''"
definition ReasonPoolDeleting :: string where "ReasonPoolDeleting = ''PoolDeleting''"
definition ReasonLeaseExpired :: string where "ReasonLeaseExpired = ''LeaseExpired''"
definition ReasonBatteryUnavailable :: string where "ReasonBatteryUnavailable = ''BatteryUnavailable''"
definition ReasonClaimAborted :: string where "ReasonClaimAborted = ''ClaimAborted''"
definition ReasonSynced :: string where "ReasonSynced = ''Synced''"
definition ReasonBatteryError :: string where "ReasonBatteryError = ''BatteryError''"
definition ReasonAgentAddressPublished :: string where
  "ReasonAgentAddressPublished = ''AgentAddressPublished''"
definition ReasonNoAgentAddress :: string where "ReasonNoAgentAddress = ''NoAgentAddress''"
definition ReasonNodeNotFound :: string where "ReasonNodeNotFound = ''NodeNotFound''"
definition ReasonNoNodeReport :: string where "ReasonNoNodeReport = ''NoNodeReport''"
definition ReasonHostNotReady :: string where "ReasonHostNotReady = ''HostNotReady''"

lemmas condition_types =
  ConditionBound_def ConditionSynced_def ConditionAgentAvailable_def ConditionHostReady_def

lemma condition_types_distinct [simp]:
  "ConditionBound \<noteq> ConditionSynced" "ConditionSynced \<noteq> ConditionBound"
  "ConditionBound \<noteq> ConditionAgentAvailable" "ConditionAgentAvailable \<noteq> ConditionBound"
  "ConditionBound \<noteq> ConditionHostReady" "ConditionHostReady \<noteq> ConditionBound"
  "ConditionSynced \<noteq> ConditionAgentAvailable" "ConditionAgentAvailable \<noteq> ConditionSynced"
  "ConditionSynced \<noteq> ConditionHostReady" "ConditionHostReady \<noteq> ConditionSynced"
  "ConditionAgentAvailable \<noteq> ConditionHostReady" "ConditionHostReady \<noteq> ConditionAgentAvailable"
  by (simp_all add: condition_types)

record MicroVMClaimSpec =
  PoolRefName :: string
  RenewTime :: "time option"
  ServiceAccountName :: string

record HostReference =
  NodeName :: string
  AgentAddress :: string

text \<open>\<open>status.microVM\<close> is a reference with the uid as its only field, so it is the uid.\<close>

record MicroVMClaimStatus =
  Phase :: MicroVMClaimPhase
  LeaseID :: string
  MicroVM :: "string option"
  Host :: "HostReference option"
  BoundTime :: "time option"
  LeaseExpiresAt :: "time option"
  ObservedRenewTime :: "time option"
  Conditions :: "Condition list"

record MicroVMClaim =
  claim_meta :: ObjectMeta
  claim_spec :: MicroVMClaimSpec
  claim_status :: MicroVMClaimStatus

subsection \<open>State in memory\<close>

text \<open>
  \<open>BindSlots\<close> is a buffered channel of capacity one less than the number of reconciles:
  the slots taken are the values in the buffer.
\<close>

record BindSlots =
  slots_cap :: nat
  slots_taken :: nat

definition NewBindSlots :: "int \<Rightarrow> string + BindSlots" where
  "NewBindSlots reconciles =
     (if reconciles < 2
      then Inl (''the Claim Controller needs at least 2 concurrent reconciles, one of them kept from ClaimVM; got ''
                @ show_int reconciles)
      else Inr \<lparr>slots_cap = nat (reconciles - 1), slots_taken = 0\<rparr>)"

definition tryAcquire :: "BindSlots \<Rightarrow> bool \<times> BindSlots" where
  "tryAcquire b =
     (if slots_taken b < slots_cap b then (True, b\<lparr>slots_taken := slots_taken b + 1\<rparr>) else (False, b))"

definition release :: "BindSlots \<Rightarrow> BindSlots" where
  "release b = b\<lparr>slots_taken := slots_taken b - 1\<rparr>"

definition DefaultSlotWait :: duration where
  "DefaultSlotWait = second"

record DeletedVMs =
  Retention :: duration
  seen :: "string \<rightharpoonup> time"

definition DeletedVMs_Add :: "time \<Rightarrow> string \<Rightarrow> DeletedVMs \<Rightarrow> DeletedVMs" where
  "DeletedVMs_Add now uid d =
     (let retention = (if Retention d \<le> 0 then 3600 * second else Retention d);
          kept = (\<lambda>u. case seen d u of
                        None \<Rightarrow> None
                      | Some at \<Rightarrow> if now - at > retention then None else Some at)
      in d\<lparr>seen := kept(uid \<mapsto> now)\<rparr>)"

definition DeletedVMs_Has :: "string \<Rightarrow> DeletedVMs \<Rightarrow> bool" where
  "DeletedVMs_Has uid d \<longleftrightarrow> seen d uid \<noteq> None"

text \<open>
  \<open>RecoveredLeases\<close> maps a lease id to battery's record, or to nil when battery did not
  list it; an id that is not in the map is one the recovery learnt nothing about.
\<close>

type_synonym RecoveredLeases = "string \<rightharpoonup> LeaseRecord option"

definition byID :: "LeaseRecord list \<Rightarrow> string \<rightharpoonup> LeaseRecord" where
  "byID listed = foldl (\<lambda>m l. m(lr_LeaseID l \<mapsto> l)) Map.empty listed"

definition Record :: "string list \<Rightarrow> LeaseRecord list \<Rightarrow> RecoveredLeases" where
  "Record recorded listed = foldl (\<lambda>m lid. m(lid \<mapsto> byID listed lid)) Map.empty recorded"

definition lookup :: "string \<Rightarrow> RecoveredLeases \<Rightarrow> (LeaseRecord option \<times> bool) \<times> RecoveredLeases" where
  "lookup lid r =
     (case r lid of
        None \<Rightarrow> ((None, False), r)
      | Some None \<Rightarrow> ((None, True), r)
      | Some (Some rec) \<Rightarrow> ((Some rec, True), r(lid := None)))"

subsection \<open>The scope\<close>

text \<open>
  What a reconcile is given: the Kubernetes library, battery's client, the API server and
  the manager's cache, and the clock. A read of the API server, of the cache or of the
  clock depends on the world and may change it, so that another process can act between
  any two of them. Of a Pool and of a Node the steps read only the metadata.
\<close>

record 'w claim_env =
  kube :: kube_api
  Battery :: "'w battery_client"
  APIReader_claim :: "key \<Rightarrow> 'w \<Rightarrow> (api_error + MicroVMClaim) \<times> 'w"
  APIReader_pool :: "key \<Rightarrow> 'w \<Rightarrow> (api_error + ObjectMeta) \<times> 'w"
  Client_node :: "string \<Rightarrow> 'w \<Rightarrow> (api_error + ObjectMeta) \<times> 'w"
  Clock_Now :: "'w \<Rightarrow> time \<times> 'w"

record 'w claim_scope =
  Object :: MicroVMClaim
  Original :: MicroVMClaim
  BatteryCall :: "(string \<times> battery_error option) option"
  PoolDeleting :: bool
  World :: 'w
  Slots :: "BindSlots option"
  Deleted :: "DeletedVMs option"
  Recovered :: "RecoveredLeases option"

type_synonym 'w claim_step = "'w claim_env \<Rightarrow> ('w claim_scope, reconcile_error) SubReconciler"

abbreviation status :: "'w claim_scope \<Rightarrow> MicroVMClaimStatus" where
  "status s \<equiv> claim_status (Object s)"

abbreviation objmeta :: "'w claim_scope \<Rightarrow> ObjectMeta" where
  "objmeta s \<equiv> claim_meta (Object s)"

abbreviation spec :: "'w claim_scope \<Rightarrow> MicroVMClaimSpec" where
  "spec s \<equiv> claim_spec (Object s)"

definition upd_status :: "(MicroVMClaimStatus \<Rightarrow> MicroVMClaimStatus) \<Rightarrow> 'w claim_scope \<Rightarrow> 'w claim_scope" where
  "upd_status f s = s\<lparr>Object := (Object s)\<lparr>claim_status := f (status s)\<rparr>\<rparr>"

definition upd_meta :: "(ObjectMeta \<Rightarrow> ObjectMeta) \<Rightarrow> 'w claim_scope \<Rightarrow> 'w claim_scope" where
  "upd_meta f s = s\<lparr>Object := (Object s)\<lparr>claim_meta := f (objmeta s)\<rparr>\<rparr>"

definition Called :: "string \<Rightarrow> battery_error option \<Rightarrow> 'w claim_scope \<Rightarrow> 'w claim_scope" where
  "Called method err s = s\<lparr>BatteryCall := Some (method, err)\<rparr>"

definition Now :: "'w claim_env \<Rightarrow> 'w claim_scope \<Rightarrow> time \<times> 'w claim_scope" where
  "Now E s = (case Clock_Now E (World s) of (t, w) \<Rightarrow> (t, s\<lparr>World := w\<rparr>))"

text \<open>Setting a condition of the claim, stamped with the time and the claim's generation.\<close>

definition set_condition ::
  "'w claim_env \<Rightarrow> time \<Rightarrow> string \<Rightarrow> ConditionStatus \<Rightarrow> string \<Rightarrow> string \<Rightarrow> 'w claim_scope \<Rightarrow> 'w claim_scope" where
  "set_condition E now typ stat reason message s =
     upd_status (\<lambda>st. st\<lparr>Conditions := SetCondition (kube E) (om_Generation (objmeta s)) now typ stat
                                        reason message (Conditions st)\<rparr>) s"

definition New :: "'w \<Rightarrow> BindSlots option \<Rightarrow> DeletedVMs option \<Rightarrow> RecoveredLeases option \<Rightarrow>
  MicroVMClaim \<Rightarrow> 'w claim_scope" where
  "New w slots deleted recovered c =
     \<lparr>Object = c, Original = c, BatteryCall = None, PoolDeleting = False, World = w,
      Slots = slots, Deleted = deleted, Recovered = recovered\<rparr>"

lemma upd_status_simps [simp]:
  "status (upd_status f s) = f (status s)" "objmeta (upd_status f s) = objmeta s"
  "spec (upd_status f s) = spec s" "Original (upd_status f s) = Original s"
  "BatteryCall (upd_status f s) = BatteryCall s" "PoolDeleting (upd_status f s) = PoolDeleting s"
  "World (upd_status f s) = World s" "Slots (upd_status f s) = Slots s"
  "Deleted (upd_status f s) = Deleted s" "Recovered (upd_status f s) = Recovered s"
  by (simp_all add: upd_status_def)

lemma upd_meta_simps [simp]:
  "status (upd_meta f s) = status s" "objmeta (upd_meta f s) = f (objmeta s)"
  "spec (upd_meta f s) = spec s" "Original (upd_meta f s) = Original s"
  "BatteryCall (upd_meta f s) = BatteryCall s" "PoolDeleting (upd_meta f s) = PoolDeleting s"
  "World (upd_meta f s) = World s" "Slots (upd_meta f s) = Slots s"
  "Deleted (upd_meta f s) = Deleted s" "Recovered (upd_meta f s) = Recovered s"
  by (simp_all add: upd_meta_def)

lemma Called_simps [simp]:
  "Object (Called m e s) = Object s" "Original (Called m e s) = Original s"
  "BatteryCall (Called m e s) = Some (m, e)" "PoolDeleting (Called m e s) = PoolDeleting s"
  "World (Called m e s) = World s" "Slots (Called m e s) = Slots s"
  "Deleted (Called m e s) = Deleted s" "Recovered (Called m e s) = Recovered s"
  by (simp_all add: Called_def)

text \<open>Reading the clock changes the world and nothing else.\<close>

lemma Now_frame:
  assumes "Now E s = (t, s')"
  shows "s' = s\<lparr>World := snd (Clock_Now E (World s))\<rparr>" "t = fst (Clock_Now E (World s))"
  using assms by (auto simp: Now_def split: prod.splits)

lemma set_condition_simps [simp]:
  "objmeta (set_condition E now t k r m s) = objmeta s"
  "spec (set_condition E now t k r m s) = spec s"
  "Phase (status (set_condition E now t k r m s)) = Phase (status s)"
  "LeaseID (status (set_condition E now t k r m s)) = LeaseID (status s)"
  "MicroVM (status (set_condition E now t k r m s)) = MicroVM (status s)"
  "Host (status (set_condition E now t k r m s)) = Host (status s)"
  "BoundTime (status (set_condition E now t k r m s)) = BoundTime (status s)"
  "LeaseExpiresAt (status (set_condition E now t k r m s)) = LeaseExpiresAt (status s)"
  "ObservedRenewTime (status (set_condition E now t k r m s)) = ObservedRenewTime (status s)"
  "Original (set_condition E now t k r m s) = Original s"
  "BatteryCall (set_condition E now t k r m s) = BatteryCall s"
  "PoolDeleting (set_condition E now t k r m s) = PoolDeleting s"
  "World (set_condition E now t k r m s) = World s" "Slots (set_condition E now t k r m s) = Slots s"
  "Deleted (set_condition E now t k r m s) = Deleted s"
  "Recovered (set_condition E now t k r m s) = Recovered s"
  by (simp_all add: set_condition_def)

lemma Conditions_set_condition:
  "Conditions (status (set_condition E now t k r m s)) =
     SetStatusCondition (kube E) (Conditions (status s))
       \<lparr>cond_Type = t, cond_Status = k, cond_Reason = r, cond_Message = m,
        cond_ObservedGeneration = om_Generation (objmeta s), cond_LastTransitionTime = now\<rparr>"
  by (simp add: set_condition_def SetCondition_def)

subsection \<open>Facts about the state in memory\<close>

lemma tryAcquire_bound:
  "tryAcquire b = (ok, b') \<Longrightarrow> slots_taken b \<le> slots_cap b \<Longrightarrow>
   slots_cap b' = slots_cap b \<and> slots_taken b' \<le> slots_cap b' \<and>
   (ok \<longrightarrow> slots_taken b' = Suc (slots_taken b)) \<and> (\<not> ok \<longrightarrow> b' = b \<and> slots_taken b = slots_cap b)"
  by (auto simp: tryAcquire_def split: if_splits)

lemma foldl_map_upd_same:
  "foldl (\<lambda>m lid. m(lid \<mapsto> f lid)) m0 ids x = (if x \<in> set ids then Some (f x) else m0 x)"
  by (induction ids arbitrary: m0) auto

lemma Record_apply: "Record recorded listed lid = (if lid \<in> set recorded then Some (byID listed lid) else None)"
  by (simp add: Record_def foldl_map_upd_same)

lemma foldl_byID:
  "foldl (\<lambda>m l. m(lr_LeaseID l \<mapsto> l)) m0 ls x =
     (case find (\<lambda>l. lr_LeaseID l = x) (rev ls) of Some l \<Rightarrow> Some l | None \<Rightarrow> m0 x)"
  by (induction ls arbitrary: m0 rule: rev_induct) auto

lemma byID_apply: "byID listed lid = find (\<lambda>l. lr_LeaseID l = lid) (rev listed)"
  by (simp add: byID_def foldl_byID split: option.splits)

lemma byID_None_iff: "byID listed lid = None \<longleftrightarrow> (\<forall>l\<in>set listed. lr_LeaseID l \<noteq> lid)"
  by (auto simp: byID_apply find_None_iff)

lemma byID_Some_D: "byID listed lid = Some l \<Longrightarrow> l \<in> set listed \<and> lr_LeaseID l = lid"
  by (auto simp: byID_apply dest: find_Some_D)

lemma DeletedVMs_Has_Add [simp]: "DeletedVMs_Has uid (DeletedVMs_Add now uid d)"
  by (simp add: DeletedVMs_Has_def DeletedVMs_Add_def Let_def)

end
