(* ===== verification/ClaimSteps.thy ===== *)
theory ClaimSteps
  imports ClaimTypes
begin

section \<open>The Claim Controller's subreconcilers\<close>

text \<open>
  The package \<open>internal/controller/claim\<close>, one definition per subreconciler, in the order
  the chain runs them, and the chain of \<open>MicroVMClaimReconciler\<close>. Logging is left out: it
  changes nothing the controller keeps.
\<close>

definition methodClaimVM :: string where "methodClaimVM = ''ClaimVM''"
definition methodHeartbeat :: string where "methodHeartbeat = ''Heartbeat''"
definition methodListLeases :: string where "methodListLeases = ''ListLeases''"
definition methodReleaseVM :: string where "methodReleaseVM = ''ReleaseVM''"

lemma methods_distinct [simp]:
  "methodHeartbeat \<noteq> methodClaimVM" "methodListLeases \<noteq> methodClaimVM" "methodReleaseVM \<noteq> methodClaimVM"
  by (simp_all add: methodClaimVM_def methodHeartbeat_def methodListLeases_def methodReleaseVM_def)

subsection \<open>Shared helpers\<close>

fun failedInTransit :: "battery_error \<Rightarrow> bool" where
  "failedInTransit (Wraps k m) \<longleftrightarrow> k = ErrUnavailable"
| "failedInTransit (Ctx c) \<longleftrightarrow> True"
| "failedInTransit (Plain m) \<longleftrightarrow> False"

definition answered :: "battery_error option \<Rightarrow> bool" where
  "answered err =
     (case err of
        None \<Rightarrow> True
      | Some e \<Rightarrow> errors_Is e ErrNotFound \<or> errors_Is e ErrExhausted \<or> errors_Is e ErrAborted)"

record Backoff =
  Min :: duration
  Max :: duration

definition DefaultBackoff :: Backoff where
  "DefaultBackoff = \<lparr>Min = second, Max = 30 * second\<rparr>"

definition after :: "Backoff \<Rightarrow> duration \<Rightarrow> duration" where
  "after b pending = min (max pending (Min b)) (Max b)"

definition holdsLease :: "MicroVMClaim \<Rightarrow> bool" where
  "holdsLease c \<longleftrightarrow>
     Phase (claim_status c) = MicroVMClaimBound \<and> LeaseID (claim_status c) \<noteq> [] \<and>
     \<not> deleting (claim_meta c)"

definition pendingRenewal :: "MicroVMClaim \<Rightarrow> bool" where
  "pendingRenewal c \<longleftrightarrow> RenewTime (claim_spec c) \<noteq> ObservedRenewTime (claim_status c)"

definition expire :: "'w claim_env \<Rightarrow> string \<Rightarrow> 'w claim_scope \<Rightarrow> 'w claim_scope" where
  "expire E why s =
     (case Now E (upd_status (\<lambda>st. st\<lparr>Phase := MicroVMClaimExpired\<rparr>) s) of (now, s') \<Rightarrow>
        set_condition E now ConditionBound ConditionFalse ReasonLeaseExpired why s')"

definition retryAfter :: "Backoff \<Rightarrow> 'w claim_env \<Rightarrow> 'w claim_scope \<Rightarrow> duration \<times> 'w claim_scope" where
  "retryAfter b E s =
     (case Now E s of (now, s') \<Rightarrow>
        let since = (case FindStatusCondition (kube E) (Conditions (status s')) ConditionSynced of
                       Some c \<Rightarrow> if cond_Status c = ConditionFalse then cond_LastTransitionTime c else now
                     | None \<Rightarrow> now)
        in (after b (now - since), s'))"

definition until :: "'w claim_env \<Rightarrow> time \<Rightarrow> 'w claim_scope \<Rightarrow> duration \<times> 'w claim_scope" where
  "until E t s = (case Now E s of (now, s') \<Rightarrow> (max (t - now) second, s'))"

subsection \<open>Release\<close>

definition unavailableSince :: "'w claim_env \<Rightarrow> 'w claim_scope \<Rightarrow> time \<times> 'w claim_scope" where
  "unavailableSince E s =
     (case FindStatusCondition (kube E) (Conditions (status s)) ConditionSynced of
        None \<Rightarrow> Now E s
      | Some c \<Rightarrow>
          if cond_Status c \<noteq> ConditionFalse \<or> cond_Reason c \<noteq> ReasonBatteryUnavailable then Now E s
          else (cond_LastTransitionTime c, s))"

definition removeReleaseFinalizer :: "'w claim_env \<Rightarrow> 'w claim_scope \<Rightarrow> 'w claim_scope" where
  "removeReleaseFinalizer E s =
     upd_meta (\<lambda>m. m\<lparr>om_Finalizers := RemoveFinalizer (kube E) (om_Finalizers m) ReleaseFinalizer\<rparr>) s"

definition Release_Reconcile :: "Backoff \<Rightarrow> 'w claim_step" where
  "Release_Reconcile b E s =
     (if \<not> deleting (objmeta s) then (s, no_result, [])
      else if \<not> ContainsFinalizer (kube E) (om_Finalizers (objmeta s)) ReleaseFinalizer
      then (s, stop_result, [])
      else if LeaseID (status s) = [] then (removeReleaseFinalizer E s, stop_result, [])
      else
        (case ReleaseVM (Battery E) (LeaseID (status s)) (World s) of (err, w) \<Rightarrow>
           let s1 = Called methodReleaseVM err (s\<lparr>World := w\<rparr>)
           in case err of
                None \<Rightarrow> (removeReleaseFinalizer E s1, stop_result, [])
              | Some e \<Rightarrow>
                  if errors_Is e ErrNotFound then (removeReleaseFinalizer E s1, stop_result, [])
                  else if failedInTransit e then
                    (case Now E s1 of (now, s2) \<Rightarrow>
                       case unavailableSince E s2 of (since, s3) \<Rightarrow>
                         (s3, \<lparr>Stop = True, RequeueAfter = after b (now - since)\<rparr>, []))
                  else (s1, stop_result,
                        [BatteryFailed (''releasing Lease '' @ LeaseID (status s) @ '': '') e])))"

subsection \<open>Binding\<close>

definition EnsureFinalizer_Reconcile :: "'w claim_step" where
  "EnsureFinalizer_Reconcile E s =
     (if deleting (objmeta s) then (s, stop_result, [])
      else EnsureFinalizer (kube E) ReleaseFinalizer objmeta (\<lambda>m. upd_meta (\<lambda>_. m)) s)"

definition poolDeleting :: "'w claim_env \<Rightarrow> 'w claim_scope \<Rightarrow> (reconcile_error + bool) \<times> 'w claim_scope" where
  "poolDeleting E s =
     (let key = (om_Namespace (objmeta s), PoolRefName (spec s))
      in case APIReader_pool E key (World s) of (r, w) \<Rightarrow>
           (case r of
              Inl e \<Rightarrow> if IsNotFound e then Inr False
                     else Inl (ApiFailed (''reading Pool '' @ key_String key @ '' before claiming a MicroVM: '') e)
            | Inr p \<Rightarrow> Inr (deleting p),
            s\<lparr>World := w\<rparr>))"

text \<open>What \<open>Bind\<close> does with battery's answer to ClaimVM.\<close>

definition recordBinding :: "'w claim_env \<Rightarrow> time option \<Rightarrow> Claim \<Rightarrow> 'w claim_scope \<Rightarrow> 'w claim_scope" where
  "recordBinding E renewTime claimed s =
     (case Now E s of (now, s1) \<Rightarrow>
        set_condition E now ConditionBound ConditionTrue ReasonBound
          (''Leased MicroVM '' @ cl_VMUID claimed @ '' on Node '' @ hr_Name (cl_Host claimed))
          (upd_status (\<lambda>st. st\<lparr>LeaseID := cl_LeaseID claimed, MicroVM := Some (cl_VMUID claimed),
             Host := Some \<lparr>NodeName = hr_Name (cl_Host claimed), AgentAddress = []\<rparr>,
             BoundTime := Some now, LeaseExpiresAt := None, ObservedRenewTime := renewTime,
             Phase := MicroVMClaimBound\<rparr>) s1))"

definition callClaimVM :: "'w claim_env \<Rightarrow> MicroVMClaim \<Rightarrow> ('w claim_scope, reconcile_error) SubReconciler" where
  "callClaimVM E fresh s =
     (let renewTime = RenewTime (spec s);
          pool = \<lparr>ref_Name = PoolRefName (spec s), ref_Namespace = om_Namespace (objmeta s)\<rparr>
      in case ClaimVM (Battery E) pool (om_UID (claim_meta fresh)) (World s) of (ans, w) \<Rightarrow>
           let s1 = Called methodClaimVM (err_of ans) (s\<lparr>World := w\<rparr>)
           in case ans of
                Inl e \<Rightarrow>
                  if errors_Is e ErrExhausted \<or> errors_Is e ErrNotFound \<or> errors_Is e ErrAborted \<or> failedInTransit e
                  then (s1, no_result, [])
                  else (s1, no_result,
                        [BatteryFailed (''claiming a MicroVM from Pool '' @ PoolRef_String pool @ '': '') e])
              | Inr claimed \<Rightarrow> (recordBinding E renewTime claimed s1, stop_result, []))"

definition withSlot :: "duration \<Rightarrow> ('w claim_scope, reconcile_error) SubReconciler \<Rightarrow>
  ('w claim_scope, reconcile_error) SubReconciler" where
  "withSlot slotWait f s =
     (case Slots s of
        None \<Rightarrow> f s
      | Some b \<Rightarrow>
          (case tryAcquire b of (ok, b') \<Rightarrow>
             if \<not> ok
             then (s, \<lparr>Stop = True, RequeueAfter = (if slotWait \<le> 0 then DefaultSlotWait else slotWait)\<rparr>, [])
             else (case f (s\<lparr>Slots := Some b'\<rparr>) of (s', res, err) \<Rightarrow>
                     (s'\<lparr>Slots := map_option release (Slots s')\<rparr>, res, err))))"

definition Bind_Reconcile :: "duration \<Rightarrow> 'w claim_step" where
  "Bind_Reconcile slotWait E s =
     (if LeaseID (status s) \<noteq> [] then (s, no_result, [])
      else
        (let key = ObjectKeyFromObject (objmeta s)
         in case APIReader_claim E key (World s) of (r, w) \<Rightarrow>
              let s1 = s\<lparr>World := w\<rparr>
              in case r of
                   Inl e \<Rightarrow>
                     if IsNotFound e then (s1, stop_result, [])
                     else (s1, no_result,
                           [ApiFailed (''reading MicroVMClaim '' @ key_String key @ '' before claiming a MicroVM: '') e])
                 | Inr fresh \<Rightarrow>
                     if LeaseID (claim_status fresh) \<noteq> [] then (s1, stop_result, [])
                     else if deleting (claim_meta fresh) then (s1, stop_result, [])
                     else if \<not> ContainsFinalizer (kube E) (om_Finalizers (claim_meta fresh)) ReleaseFinalizer
                     then (s1, stop_result, [])
                     else (case poolDeleting E s1 of
                             (Inl e, s2) \<Rightarrow> (s2, no_result, [e])
                           | (Inr d, s2) \<Rightarrow>
                               if d then (s2\<lparr>PoolDeleting := True\<rparr>, no_result, [])
                               else withSlot slotWait (callClaimVM E fresh) s2)))"

text \<open>
  \<open>Pending\<close> chooses its reason in the order of the code's switch; None is the branch that
  changes nothing.
\<close>

definition pendingReason :: "bool \<Rightarrow> string \<Rightarrow> battery_error option \<Rightarrow> (string \<times> string) option" where
  "pendingReason poolDel pool err =
     (if poolDel then Some (ReasonPoolDeleting, ''Pool '' @ pool @ '' is being deleted'')
      else case err of
        None \<Rightarrow> None
      | Some e \<Rightarrow>
          if errors_Is e ErrExhausted then Some (ReasonPoolExhausted, ''Pool '' @ pool @ '' has no available MicroVM'')
          else if errors_Is e ErrNotFound then Some (ReasonPoolNotFound, ''battery has no Pool '' @ pool)
          else if failedInTransit e
          then Some (ReasonBatteryUnavailable, ''ClaimVM on Pool '' @ pool @ '' got no answer from battery'')
          else if errors_Is e ErrAborted
          then Some (ReasonClaimAborted, ''battery aborted ClaimVM on Pool '' @ pool @ '': '' @ Error e)
          else None)"

definition claimFailure :: "'w claim_scope \<Rightarrow> battery_error option" where
  "claimFailure s =
     (case BatteryCall s of
        Some (m, Some e) \<Rightarrow> if m = methodClaimVM then Some e else None
      | _ \<Rightarrow> None)"

definition Pending_Reconcile :: "Backoff \<Rightarrow> 'w claim_step" where
  "Pending_Reconcile b E s =
     (if \<not> PoolDeleting s \<and> claimFailure s = None then (s, no_result, [])
      else case pendingReason (PoolDeleting s) (PoolRefName (spec s)) (claimFailure s) of
        None \<Rightarrow> (s, no_result, [])
      | Some (reason, message) \<Rightarrow>
          (case Now E s of (now, s1) \<Rightarrow>
             let s2 = set_condition E now ConditionBound ConditionFalse reason message
                        (upd_status (\<lambda>st. st\<lparr>Phase := MicroVMClaimPending\<rparr>) s1)
             in case FindStatusCondition (kube E) (Conditions (status s2)) ConditionBound of
                  None \<Rightarrow> (s2, no_result, [Panicked ''nil pointer dereference''])
                | Some c \<Rightarrow> (s2, requeue (after b (now - cond_LastTransitionTime c)), [])))"

subsection \<open>A Bound claim\<close>

definition ReportsDeletion :: "Event \<Rightarrow> bool" where
  "ReportsDeletion e \<longleftrightarrow>
     ev_VMUID e \<noteq> [] \<and>
     (ev_Type e = VM_DELETED_DUE_TO_EXPIRY \<or> ev_Type e = VM_DELETED_ON_RELEASE \<or>
      ev_Type e = VM_DELETED_ON_POOL_DELETE)"

definition ExpireDeleted_Reconcile :: "'w claim_step" where
  "ExpireDeleted_Reconcile E s =
     (case (Deleted s, MicroVM (status s)) of
        (Some d, Some uid) \<Rightarrow>
          if \<not> holdsLease (Object s) then (s, no_result, [])
          else if \<not> DeletedVMs_Has uid d then (s, no_result, [])
          else (expire E (''battery deleted MicroVM '' @ uid) s, stop_result, [])
      | _ \<Rightarrow> (s, no_result, []))"

definition Recover_Reconcile :: "'w claim_step" where
  "Recover_Reconcile E s =
     (case Recovered s of
        None \<Rightarrow> (s, no_result, [])
      | Some r \<Rightarrow>
          if \<not> holdsLease (Object s) then (s, no_result, [])
          else (case lookup (LeaseID (status s)) r of ((rec, known), r') \<Rightarrow>
                  if \<not> known then (s\<lparr>Recovered := Some r'\<rparr>, no_result, [])
                  else
                    (let s1 = Called methodListLeases None (s\<lparr>Recovered := Some r'\<rparr>)
                     in case rec of
                          None \<Rightarrow>
                            (expire E (''battery no longer held Lease '' @ LeaseID (status s) @
                                       '' when the Claim Controller recovered'') s1, stop_result, [])
                        | Some l \<Rightarrow>
                            if (case LeaseExpiresAt (status s1) of None \<Rightarrow> True | Some exp \<Rightarrow> lr_ExpiresAt l > exp)
                            then (upd_status (\<lambda>st. st\<lparr>LeaseExpiresAt := Some (lr_ExpiresAt l)\<rparr>) s1, no_result, [])
                            else (s1, no_result, []))))"

definition Renew_Reconcile :: "Backoff \<Rightarrow> 'w claim_step" where
  "Renew_Reconcile b E s =
     (if \<not> holdsLease (Object s) \<or> \<not> pendingRenewal (Object s) then (s, no_result, [])
      else
        (let relayed = RenewTime (spec s)
         in case Heartbeat (Battery E) (LeaseID (status s)) (World s) of (ans, w) \<Rightarrow>
              let s1 = Called methodHeartbeat (err_of ans) (s\<lparr>World := w\<rparr>)
              in case ans of
                   Inl e \<Rightarrow>
                     if errors_Is e ErrNotFound
                     then (expire E (''battery no longer holds Lease '' @ LeaseID (status s)) s1, stop_result, [])
                     else if failedInTransit e
                     then (case retryAfter b E s1 of (d, s2) \<Rightarrow> (s2, requeue d, []))
                     else (s1, stop_result, [BatteryFailed (''renewing Lease '' @ LeaseID (status s) @ '': '') e])
                 | Inr expiresAt \<Rightarrow>
                     (case until E expiresAt
                        (upd_status (\<lambda>st. st\<lparr>LeaseExpiresAt := Some expiresAt, ObservedRenewTime := relayed\<rparr>) s1) of
                        (d, s2) \<Rightarrow> (s2, requeue d, []))))"

text \<open>What \<open>CheckExpiry\<close> does with battery's Leases; \<open>now\<close> was read before the call.\<close>

definition judgeLease :: "'w claim_env \<Rightarrow> time \<Rightarrow> LeaseRecord list \<Rightarrow> ('w claim_scope, reconcile_error) SubReconciler" where
  "judgeLease E now leases s =
     (case find (\<lambda>l. lr_LeaseID l = LeaseID (status s)) leases of
        None \<Rightarrow> (expire E (''battery no longer holds Lease '' @ LeaseID (status s)) s, stop_result, [])
      | Some rec \<Rightarrow>
          if \<not> lr_ExpiresAt rec > now
          then (expire E (''Lease '' @ LeaseID (status s) @ '' expired at '' @ format_rfc3339 (lr_ExpiresAt rec)) s,
                stop_result, [])
          else (case until E (lr_ExpiresAt rec)
                       (upd_status (\<lambda>st. st\<lparr>LeaseExpiresAt := Some (lr_ExpiresAt rec)\<rparr>) s) of
                  (d, s') \<Rightarrow> (s', requeue d, [])))"

definition checkWithBattery :: "Backoff \<Rightarrow> 'w claim_env \<Rightarrow> time \<Rightarrow> ('w claim_scope, reconcile_error) SubReconciler" where
  "checkWithBattery b E now s =
     (let pool = \<lparr>ref_Name = PoolRefName (spec s), ref_Namespace = om_Namespace (objmeta s)\<rparr>
      in case ListLeases (Battery E) (Some pool) (World s) of (ans, w) \<Rightarrow>
           let s1 = Called methodListLeases (err_of ans) (s\<lparr>World := w\<rparr>)
           in case ans of
                Inl e \<Rightarrow>
                  if failedInTransit e
                  then (case retryAfter b E s1 of (d, s2) \<Rightarrow> (s2, requeue d, []))
                  else (s1, stop_result,
                        [BatteryFailed (''listing the Leases of Pool '' @ PoolRef_String pool @ '': '') e])
              | Inr leases \<Rightarrow> judgeLease E now leases s1)"

definition CheckExpiry_Reconcile :: "Backoff \<Rightarrow> 'w claim_step" where
  "CheckExpiry_Reconcile b E s =
     (if \<not> holdsLease (Object s) \<or> pendingRenewal (Object s) then (s, no_result, [])
      else
        (case Now E s of (now, s0) \<Rightarrow>
           case LeaseExpiresAt (status s0) of
             Some exp \<Rightarrow>
               if exp > now then (case until E exp s0 of (d, s1) \<Rightarrow> (s1, requeue d, []))
               else checkWithBattery b E now s0
           | None \<Rightarrow> checkWithBattery b E now s0))"

subsection \<open>The Host's Node report\<close>

definition AnnotationReady :: string where
  "AnnotationReady = ''battery.liquidmetal-x.dev/exec-agent-ready''"
definition AnnotationReason :: string where
  "AnnotationReason = ''battery.liquidmetal-x.dev/exec-agent-reason''"
definition AnnotationMessage :: string where
  "AnnotationMessage = ''battery.liquidmetal-x.dev/exec-agent-message''"
definition AnnotationAddress :: string where
  "AnnotationAddress = ''battery.liquidmetal-x.dev/exec-agent-address''"
definition ReasonReady :: string where "ReasonReady = ''Ready''"

text \<open>Reading a key of a Go map of strings that has no entry for it gives the empty string.\<close>

definition annotation :: "ObjectMeta \<Rightarrow> string \<Rightarrow> string" where
  "annotation m k = (case om_Annotations m k of None \<Rightarrow> [] | Some v \<Rightarrow> v)"

definition setAgentAddress :: "'w claim_env \<Rightarrow> HostReference \<Rightarrow> string \<Rightarrow> ('w claim_scope, reconcile_error) SubReconciler" where
  "setAgentAddress E h address s =
     (case Now E s of (now, s1) \<Rightarrow>
        let s2 = upd_status (\<lambda>st. st\<lparr>Host := Some (h\<lparr>AgentAddress := address\<rparr>)\<rparr>) s1
        in if address = []
           then (set_condition E now ConditionAgentAvailable ConditionFalse ReasonNoAgentAddress
                   (''Node '' @ NodeName h @ '' reports no Exec Agent address in '' @ AnnotationAddress) s2,
                 no_result, [])
           else (set_condition E now ConditionAgentAvailable ConditionTrue ReasonAgentAddressPublished
                   (''Node '' @ NodeName h @ '' reports the Exec Agent at '' @ address) s2,
                 no_result, []))"

definition AgentAddress_Reconcile :: "'w claim_step" where
  "AgentAddress_Reconcile E s =
     (case Host (status s) of
        None \<Rightarrow> (s, no_result, [])
      | Some h \<Rightarrow>
          if Phase (status s) \<noteq> MicroVMClaimBound \<or> NodeName h = [] then (s, no_result, [])
          else
            (case Client_node E (NodeName h) (World s) of (r, w) \<Rightarrow>
               let s1 = s\<lparr>World := w\<rparr>
               in case r of
                    Inl e \<Rightarrow>
                      if IsNotFound e then setAgentAddress E h [] s1
                      else (s1, no_result,
                            [ApiFailed (''reading Node '' @ NodeName h @ '' for the Exec Agent's address: '') e])
                  | Inr node \<Rightarrow> setAgentAddress E h (annotation node AnnotationAddress) s1))"

definition is_letter :: "char \<Rightarrow> bool" where
  "is_letter c \<longleftrightarrow> (let n = of_char c :: nat in 65 \<le> n \<and> n \<le> 90 \<or> 97 \<le> n \<and> n \<le> 122)"

definition is_word_char :: "char \<Rightarrow> bool" where
  "is_word_char c \<longleftrightarrow> is_letter c \<or> (let n = of_char c :: nat in 48 \<le> n \<and> n \<le> 57) \<or> c = CHR ''_''"

definition maxConditionReason :: nat where "maxConditionReason = 1024"
definition maxConditionMessage :: nat where "maxConditionMessage = 32768"

text \<open>
  \<open>conditionReason\<close> is the expression \<open>^[A-Za-z]([A-Za-z0-9_,:]*[A-Za-z0-9_])?$\<close>: a letter,
  then either nothing or characters of the larger class the last of which is in the
  smaller one.
\<close>

definition conditionReason :: "string \<Rightarrow> bool" where
  "conditionReason r =
     (case r of
        [] \<Rightarrow> False
      | c # cs \<Rightarrow>
          is_letter c \<and>
          (cs = [] \<or>
           (list_all (\<lambda>d. is_word_char d \<or> d = CHR '','' \<or> d = CHR '':'') cs \<and> is_word_char (last cs))))"

definition validReason :: "string \<Rightarrow> bool" where
  "validReason r \<longleftrightarrow> length r \<le> maxConditionReason \<and> conditionReason r"

definition reportedReadiness :: "ObjectMeta \<Rightarrow> ConditionStatus \<times> string \<times> string" where
  "reportedReadiness node =
     (case om_Annotations node AnnotationReady of
        None \<Rightarrow> (ConditionFalse, ReasonNoNodeReport,
                 ''Node '' @ om_Name node @ '' carries no Node report in '' @ AnnotationReady)
      | Some ready \<Rightarrow>
          (let reason = annotation node AnnotationReason;
               message = take maxConditionMessage (annotation node AnnotationMessage)
           in if ready = ''true''
              then (ConditionTrue, if validReason reason then reason else ReasonReady, message)
              else (ConditionFalse, if validReason reason then reason else ReasonHostNotReady, message)))"

definition HostReady_Reconcile :: "'w claim_step" where
  "HostReady_Reconcile E s =
     (case Host (status s) of
        None \<Rightarrow> (s, no_result, [])
      | Some h \<Rightarrow>
          if Phase (status s) \<noteq> MicroVMClaimBound \<or> NodeName h = [] then (s, no_result, [])
          else
            (case Now E s of (now, s0) \<Rightarrow>
             case Client_node E (NodeName h) (World s0) of (r, w) \<Rightarrow>
               let s1 = s0\<lparr>World := w\<rparr>
               in case r of
                    Inl e \<Rightarrow>
                      if IsNotFound e
                      then (set_condition E now ConditionHostReady ConditionFalse ReasonNodeNotFound
                              (''the Host's Node '' @ NodeName h @ '' does not exist'') s1, no_result, [])
                      else (s1, no_result,
                            [ApiFailed (''reading Node '' @ NodeName h @ '' for its Host's readiness: '') e])
                  | Inr node \<Rightarrow>
                      (case reportedReadiness node of (stat, reason, message) \<Rightarrow>
                         (set_condition E now ConditionHostReady stat reason message s1, no_result, []))))"

subsection \<open>Synced\<close>

definition Synced_Reconcile :: "'w claim_step" where
  "Synced_Reconcile E s =
     (case BatteryCall s of
        None \<Rightarrow> (s, no_result, [])
      | Some (method, err) \<Rightarrow>
          (case Now E s of (now, s1) \<Rightarrow>
             (case err of
                None \<Rightarrow> set_condition E now ConditionSynced ConditionTrue ReasonSynced
                          (''battery answered '' @ method) s1
              | Some e \<Rightarrow>
                  if answered err
                  then set_condition E now ConditionSynced ConditionTrue ReasonSynced
                         (''battery answered '' @ method) s1
                  else if failedInTransit e
                  then set_condition E now ConditionSynced ConditionFalse ReasonBatteryUnavailable
                         (method @ '' got no answer from battery: '' @ Error e) s1
                  else set_condition E now ConditionSynced ConditionFalse ReasonBatteryError
                         (method @ '' failed: '' @ Error e) s1,
              no_result, [])))"

subsection \<open>The chain\<close>

definition claim_chain :: "Backoff \<Rightarrow> 'w claim_env \<Rightarrow> ('w claim_scope, reconcile_error) Chain" where
  "claim_chain backoff0 E =
     (let backoff = (if backoff0 = \<lparr>Min = 0, Max = 0\<rparr> then DefaultBackoff else backoff0)
      in \<lparr>Steps =
            [Release_Reconcile backoff E,
             EnsureFinalizer_Reconcile E,
             Bind_Reconcile 0 E,
             Pending_Reconcile backoff E,
             ExpireDeleted_Reconcile E,
             Recover_Reconcile E,
             Renew_Reconcile backoff E,
             CheckExpiry_Reconcile backoff E,
             AgentAddress_Reconcile E,
             HostReady_Reconcile E],
          Finally = [Synced_Reconcile E]\<rparr>)"

end
