(* ===== verification/ClaimController.thy ===== *)
theory ClaimController
  imports ClaimSteps
begin

section \<open>The Claim Controller around its chain\<close>

text \<open>
  What surrounds the chain: the write of the claim (\<open>claimscope.Scope.Patch\<close>), the
  reconcile of \<open>MicroVMClaimReconciler\<close>, the recovery that runs after each subscription
  to battery's events (\<open>claimRecovery\<close>), the handler of those events (\<open>claimEvents\<close>) and
  the mapping of Node events to claims (\<open>nodes.go\<close>).
\<close>

subsection \<open>Writing the claim\<close>

text \<open>
  The API server's side of a write. \<open>patch_changes base obj\<close> is whether a merge patch from
  \<open>base\<close> to \<open>obj\<close> has anything to say; the two writes answer with the claim as stored.
\<close>

record 'w claim_writer =
  patch_changes :: "MicroVMClaim \<Rightarrow> MicroVMClaim \<Rightarrow> api_error + bool"
  Client_Patch :: "MicroVMClaim \<Rightarrow> MicroVMClaim \<Rightarrow> 'w \<Rightarrow> (api_error + MicroVMClaim) \<times> 'w"
  Client_Status_Patch :: "MicroVMClaim \<Rightarrow> MicroVMClaim \<Rightarrow> 'w \<Rightarrow> (api_error + MicroVMClaim) \<times> 'w"

definition changes :: "'w claim_writer \<Rightarrow> MicroVMClaim \<Rightarrow> MicroVMClaim \<Rightarrow> reconcile_error + bool" where
  "changes W base obj =
     (case patch_changes W base obj of
        Inl e \<Rightarrow> Inl (ApiFailed (''computing a patch of MicroVMClaim '' @
                       key_String (ObjectKeyFromObject (claim_meta obj)) @ '': '') e)
      | Inr b \<Rightarrow> Inr b)"

definition set_status :: "MicroVMClaimStatus \<Rightarrow> MicroVMClaim \<Rightarrow> MicroVMClaim" where
  "set_status st c = c\<lparr>claim_status := st\<rparr>"

text \<open>The second half of \<open>Patch\<close>: the status subresource, from the claim as the first half left it.\<close>

definition patchStatus ::
  "'w claim_writer \<Rightarrow> MicroVMClaimStatus \<Rightarrow> 'w claim_scope \<Rightarrow> 'w claim_scope \<times> reconcile_error list" where
  "patchStatus W desired s =
     (let base = Object s; s1 = s\<lparr>Object := set_status desired base\<rparr>
      in case changes W base (Object s1) of
           Inl e \<Rightarrow> (s1, [e])
         | Inr changed \<Rightarrow>
             if \<not> changed then (s1, [])
             else (case Client_Status_Patch W base (Object s1) (World s1) of
                     (Inl e, w) \<Rightarrow>
                       (s1\<lparr>World := w\<rparr>,
                        [ApiFailed (''patching the status of MicroVMClaim '' @
                           key_String (ObjectKeyFromObject (objmeta s1)) @ '': '') e])
                   | (Inr stored, w) \<Rightarrow> (s1\<lparr>World := w, Object := stored\<rparr>, [])))"

definition Patch :: "'w claim_writer \<Rightarrow> 'w claim_scope \<Rightarrow> 'w claim_scope \<times> reconcile_error list" where
  "Patch W s =
     (let desired = status s;
          s0 = s\<lparr>Object := set_status (claim_status (Original s)) (Object s)\<rparr>
      in case changes W (Original s) (Object s0) of
           Inl e \<Rightarrow> (s, [e])
         | Inr changed \<Rightarrow>
             if \<not> changed then patchStatus W desired s0
             else
               (let gone = deleting (objmeta s0) \<and> om_Finalizers (objmeta s0) = []
                in case Client_Patch W (Original s) (Object s0) (World s0) of
                     (Inl e, w) \<Rightarrow>
                       (s\<lparr>World := w\<rparr>,
                        if gone \<and> IsNotFound e then []
                        else [ApiFailed (''patching MicroVMClaim '' @
                               key_String (ObjectKeyFromObject (objmeta s0)) @ '': '') e])
                   | (Inr stored, w) \<Rightarrow>
                       let s1 = s0\<lparr>World := w, Object := stored\<rparr>
                       in if gone then (s1\<lparr>Object := set_status desired stored\<rparr>, [])
                          else patchStatus W desired s1))"

text \<open>
  \<open>Reconcile\<close>: the chain and then the write, which runs even when the chain failed. An
  error asks the work queue for a rate-limited retry and drops the result.
\<close>

definition claim_Reconcile ::
  "Backoff \<Rightarrow> 'w claim_env \<Rightarrow> 'w claim_writer \<Rightarrow> 'w claim_scope \<Rightarrow> 'w claim_scope \<times> duration \<times> reconcile_error list" where
  "claim_Reconcile b E W s =
     (case Run (claim_chain b E) s of (s1, res, err) \<Rightarrow>
        case Patch W s1 of (s2, perr) \<Rightarrow>
          let errs = err @ perr
          in if errs \<noteq> [] then (s2, 0, errs) else (s2, RequeueAfter res, []))"

subsection \<open>Recovery\<close>

text \<open>
  \<open>claimRecovery.run\<close> lists the claims, then battery's Leases, records what battery said
  of each Bound claim's Lease and sends every Bound claim to the work queue. It answers
  an error, or the new \<open>RecoveredLeases\<close> and the claims sent. \<open>room\<close> is how many sends
  the context lets through before it is done, None when it is never done.
\<close>

definition sendAll :: "nat option \<Rightarrow> 'a list \<Rightarrow> 'a list \<times> bool" where
  "sendAll room xs =
     (case room of None \<Rightarrow> (xs, True) | Some n \<Rightarrow> (take n xs, length xs \<le> n))"

record 'w recovery_result =
  rr_World :: 'w
  rr_Leases :: "RecoveredLeases option" \<comment> \<open>None: nothing was recorded\<close>
  rr_Sent :: "MicroVMClaim list"
  rr_Err :: "reconcile_error list"

definition recovery_run ::
  "('w \<Rightarrow> (api_error + MicroVMClaim list) \<times> 'w) \<Rightarrow> 'w battery_client \<Rightarrow> nat option \<Rightarrow> ctx_error \<Rightarrow>
   'w \<Rightarrow> 'w recovery_result" where
  "recovery_run listClaims B room ctxErr w =
     (case listClaims w of
        (Inl e, w1) \<Rightarrow>
          \<lparr>rr_World = w1, rr_Leases = None, rr_Sent = [], rr_Err = [ApiFailed ''listing MicroVMClaims: '' e]\<rparr>
      | (Inr claims, w1) \<Rightarrow>
          (let bound = filter holdsLease claims; recorded = map (\<lambda>c. LeaseID (claim_status c)) bound
           in case ListLeases B None w1 of
                (Inl e, w2) \<Rightarrow>
                  \<lparr>rr_World = w2, rr_Leases = None, rr_Sent = [],
                   rr_Err = [BatteryFailed (''listing battery'' @ [CHR 0x27] @ ''s Leases: '') e]\<rparr>
              | (Inr leases, w2) \<Rightarrow>
                  (case sendAll room bound of (sent, all) \<Rightarrow>
                     \<lparr>rr_World = w2, rr_Leases = Some (Record recorded leases), rr_Sent = sent,
                      rr_Err = (if all then [] else [BatteryFailed [] (Ctx ctxErr)])\<rparr>)))"

subsection \<open>Events of battery and of Nodes\<close>

definition MicroVMUID :: "MicroVMClaim \<Rightarrow> string list" where
  "MicroVMUID c =
     (case MicroVM (claim_status c) of None \<Rightarrow> [] | Some uid \<Rightarrow> if uid = [] then [] else [uid])"

text \<open>
  \<open>claimEvents.handle\<close>: the claims found by the index of MicroVM uids are those whose
  \<open>MicroVMUID\<close> has the uid; a list that fails sends nothing.
\<close>

definition handle ::
  "(string \<Rightarrow> api_error + MicroVMClaim list) \<Rightarrow> nat option \<Rightarrow> time \<Rightarrow> Event \<Rightarrow> DeletedVMs \<Rightarrow>
   DeletedVMs \<times> MicroVMClaim list" where
  "handle byUID room now e d =
     (if \<not> ReportsDeletion e then (d, [])
      else (DeletedVMs_Add now (ev_VMUID e) d,
            case byUID (ev_VMUID e) of Inl _ \<Rightarrow> [] | Inr claims \<Rightarrow> fst (sendAll room claims)))"

definition NodeNameIndex :: "MicroVMClaim \<Rightarrow> string list" where
  "NodeNameIndex c =
     (case Host (claim_status c) of None \<Rightarrow> [] | Some h \<Rightarrow> if NodeName h = [] then [] else [NodeName h])"

definition ClaimsOnNode :: "(string \<Rightarrow> api_error + MicroVMClaim list) \<Rightarrow> ObjectMeta \<Rightarrow> key list" where
  "ClaimsOnNode byNode node =
     (case byNode (om_Name node) of
        Inl _ \<Rightarrow> []
      | Inr claims \<Rightarrow> map (\<lambda>c. ObjectKeyFromObject (claim_meta c)) claims)"

definition reportAnnotations :: "string list" where
  "reportAnnotations = [AnnotationAddress, AnnotationReady, AnnotationReason, AnnotationMessage]"

text \<open>\<open>NodeReportChanged\<close> on an update. Comparing the two lookups compares value and presence.\<close>

definition NodeReportChanged :: "ObjectMeta \<Rightarrow> ObjectMeta \<Rightarrow> bool" where
  "NodeReportChanged old new \<longleftrightarrow>
     list_ex (\<lambda>k. om_Annotations old k \<noteq> om_Annotations new k) reportAnnotations"

end
