(* ===== verification/ClaimSpec.thy ===== *)
theory ClaimSpec
  imports ClaimController
begin

section \<open>What the Claim Controller promises\<close>

text \<open>
  An abstract specification of the Claim Controller: \<open>claim_eff E\<close> relates the scope before
  and after one permitted change of a claim, each with the evidence the requirements ask
  for it (docs/requirements/02-claims.md). Every subreconciler makes one such change, so
  a reconcile makes a sequence of them (\<open>claim_chain_eff\<close>), and the properties of the
  controller follow from the specification alone.
\<close>

definition claim_pool :: "'w claim_scope \<Rightarrow> PoolRef" where
  "claim_pool s = \<lparr>ref_Name = PoolRefName (spec s), ref_Namespace = om_Namespace (objmeta s)\<rparr>"

definition bound_condition :: "'w claim_env \<Rightarrow> 'w claim_scope \<Rightarrow> time \<Rightarrow> ConditionStatus \<Rightarrow> string \<Rightarrow> string \<Rightarrow> Condition list" where
  "bound_condition E s now stat reason message =
     SetStatusCondition (kube E) (Conditions (status s))
       \<lparr>cond_Type = ConditionBound, cond_Status = stat, cond_Reason = reason, cond_Message = message,
        cond_ObservedGeneration = om_Generation (objmeta s), cond_LastTransitionTime = now\<rparr>"

fun recovered_le :: "RecoveredLeases option \<Rightarrow> RecoveredLeases option \<Rightarrow> bool" where
  "recovered_le None None \<longleftrightarrow> True"
| "recovered_le (Some m') (Some m) \<longleftrightarrow> m' \<subseteq>\<^sub>m m"
| "recovered_le _ _ \<longleftrightarrow> False"

lemma recovered_le_refl [simp]: "recovered_le r r"
  by (cases r) auto

lemma recovered_le_trans: "recovered_le a b \<Longrightarrow> recovered_le b c \<Longrightarrow> recovered_le a c"
  by (cases a; cases b; cases c) (auto intro: map_le_trans)

text \<open>
  The calls a reconcile can make, as steps of the world; \<open>passes E w w'\<close> says that the world
  gets from \<open>w\<close> to \<open>w'\<close> by such calls. \<open>asked E v v' f a\<close>: between \<open>v\<close> and \<open>v'\<close> the call
  \<open>f\<close> was made and answered \<open>a\<close>.
\<close>

inductive calls :: "'w claim_env \<Rightarrow> 'w \<Rightarrow> 'w \<Rightarrow> bool" for E where
  "calls E w (snd (ClaimVM (Battery E) p r w))"
| "calls E w (snd (Heartbeat (Battery E) lid w))"
| "calls E w (snd (ReleaseVM (Battery E) lid w))"
| "calls E w (snd (ListLeases (Battery E) po w))"
| "calls E w (snd (APIReader_claim E k w))"
| "calls E w (snd (APIReader_pool E k w))"
| "calls E w (snd (Client_node E n w))"
| "calls E w (snd (Clock_Now E w))"

abbreviation passes :: "'w claim_env \<Rightarrow> 'w \<Rightarrow> 'w \<Rightarrow> bool" where
  "passes E \<equiv> (calls E)\<^sup>*\<^sup>*"

lemma passes_snd [simp]:
  "passes E v w \<Longrightarrow> passes E v (snd (ClaimVM (Battery E) p r w))"
  "passes E v w \<Longrightarrow> passes E v (snd (Heartbeat (Battery E) lid w))"
  "passes E v w \<Longrightarrow> passes E v (snd (ReleaseVM (Battery E) lid w))"
  "passes E v w \<Longrightarrow> passes E v (snd (ListLeases (Battery E) po w))"
  "passes E v w \<Longrightarrow> passes E v (snd (APIReader_claim E k w))"
  "passes E v w \<Longrightarrow> passes E v (snd (APIReader_pool E k w))"
  "passes E v w \<Longrightarrow> passes E v (snd (Client_node E n w))"
  "passes E v w \<Longrightarrow> passes E v (snd (Clock_Now E w))"
  by (auto intro: calls.intros rtranclp.rtrancl_into_rtrancl)

definition asked :: "'w claim_env \<Rightarrow> 'w \<Rightarrow> 'w \<Rightarrow> ('w \<Rightarrow> 'a \<times> 'w) \<Rightarrow> 'a \<Rightarrow> bool" where
  "asked E v v' f a \<longleftrightarrow> (\<exists>w. passes E v w \<and> fst (f w) = a \<and> passes E (snd (f w)) v')"

lemma askedI: "fst (f w) = a \<Longrightarrow> passes E v w \<Longrightarrow> passes E (snd (f w)) v' \<Longrightarrow> asked E v v' f a"
  by (auto simp: asked_def)

lemma asked_mono: "asked E v v' f a \<Longrightarrow> passes E u v \<Longrightarrow> passes E v' u' \<Longrightarrow> asked E u u' f a"
  unfolding asked_def by (blast intro: rtranclp_trans)

text \<open>What no step changes: the claim as fetched, its spec, and the set of deleted MicroVMs;
  what recovery learnt only shrinks, and the world moves on by calls.\<close>

definition frame :: "'w claim_env \<Rightarrow> 'w claim_scope \<Rightarrow> 'w claim_scope \<Rightarrow> bool" where
  "frame E s s' \<longleftrightarrow>
     Original s' = Original s \<and> spec s' = spec s \<and> Deleted s' = Deleted s \<and>
     recovered_le (Recovered s') (Recovered s) \<and> passes E (World s) (World s')"

text \<open>What battery or its events said that ends a Bound claim.\<close>

definition lease_ended :: "'w claim_env \<Rightarrow> 'w \<Rightarrow> 'w \<Rightarrow> 'w claim_scope \<Rightarrow> bool" where
  "lease_ended E v v' s \<longleftrightarrow>
     (\<exists>d uid. Deleted s = Some d \<and> MicroVM (status s) = Some uid \<and> DeletedVMs_Has uid d) \<or>
     (\<exists>r. Recovered s = Some r \<and> r (LeaseID (status s)) = Some None) \<or>
     (\<exists>e. pendingRenewal (Object s) \<and> errors_Is e ErrNotFound \<and>
        asked E v v' (Heartbeat (Battery E) (LeaseID (status s))) (Inl e)) \<or>
     (\<exists>ls now. \<not> pendingRenewal (Object s) \<and> asked E v v' (Clock_Now E) now \<and>
        (\<forall>t. LeaseExpiresAt (status s) = Some t \<longrightarrow> t \<le> now) \<and>
        asked E v v' (ListLeases (Battery E) (Some (claim_pool s))) (Inr ls) \<and>
        (\<forall>l. find (\<lambda>l. lr_LeaseID l = LeaseID (status s)) ls = Some l \<longrightarrow> lr_ExpiresAt l \<le> now))"

text \<open>The expiries battery gave for the claim's Lease.\<close>

definition battery_expiry :: "'w claim_env \<Rightarrow> 'w \<Rightarrow> 'w \<Rightarrow> 'w claim_scope \<Rightarrow> time \<Rightarrow> bool" where
  "battery_expiry E v v' s t \<longleftrightarrow>
     asked E v v' (Heartbeat (Battery E) (LeaseID (status s))) (Inr t) \<or>
     (\<exists>ls l. asked E v v' (ListLeases (Battery E) (Some (claim_pool s))) (Inr ls) \<and> l \<in> set ls \<and>
        lr_LeaseID l = LeaseID (status s) \<and> lr_ExpiresAt l = t) \<or>
     (\<exists>r l. Recovered s = Some r \<and> r (LeaseID (status s)) = Some (Some l) \<and> lr_ExpiresAt l = t)"

text \<open>battery's answer to ReleaseVM says that the Lease is gone.\<close>

definition released :: "'w claim_env \<Rightarrow> 'w \<Rightarrow> 'w \<Rightarrow> string \<Rightarrow> bool" where
  "released E v v' lid \<longleftrightarrow>
     asked E v v' (ReleaseVM (Battery E) lid) None \<or>
     (\<exists>e. errors_Is e ErrNotFound \<and> asked E v v' (ReleaseVM (Battery E) lid) (Some e))"

inductive claim_eff :: "'w claim_env \<Rightarrow> 'w claim_scope \<Rightarrow> 'w claim_scope \<Rightarrow> bool" for E where
  quiet: "frame E s s' \<Longrightarrow> objmeta s' = objmeta s \<Longrightarrow> status s' = status s \<Longrightarrow> claim_eff E s s'"
| observe: "frame E s s' \<Longrightarrow> objmeta s' = objmeta s \<Longrightarrow> cond_Type c \<noteq> ConditionBound \<Longrightarrow>
    map_option NodeName h = map_option NodeName (Host (status s)) \<Longrightarrow>
    status s' = (status s)\<lparr>Host := h, Conditions := SetStatusCondition (kube E) (Conditions (status s)) c\<rparr> \<Longrightarrow>
    claim_eff E s s'"
| finalize: "frame E s s' \<Longrightarrow> status s' = status s \<Longrightarrow> \<not> deleting (objmeta s) \<Longrightarrow>
    objmeta s' = (objmeta s)\<lparr>om_Finalizers := fst (AddFinalizer (kube E) (om_Finalizers (objmeta s)) ReleaseFinalizer)\<rparr> \<Longrightarrow>
    claim_eff E s s'"
| unfinalize: "frame E s s' \<Longrightarrow> status s' = status s \<Longrightarrow> deleting (objmeta s) \<Longrightarrow>
    objmeta s' = (objmeta s)\<lparr>om_Finalizers := RemoveFinalizer (kube E) (om_Finalizers (objmeta s)) ReleaseFinalizer\<rparr> \<Longrightarrow>
    LeaseID (status s) = [] \<or> released E (World s) (World s') (LeaseID (status s)) \<Longrightarrow>
    claim_eff E s s'"
| bind: "frame E s s' \<Longrightarrow> objmeta s' = objmeta s \<Longrightarrow> LeaseID (status s) = [] \<Longrightarrow>
    asked E (World s) v (APIReader_claim E (ObjectKeyFromObject (objmeta s))) (Inr fresh) \<Longrightarrow>
    LeaseID (claim_status fresh) = [] \<Longrightarrow> \<not> deleting (claim_meta fresh) \<Longrightarrow>
    ContainsFinalizer (kube E) (om_Finalizers (claim_meta fresh)) ReleaseFinalizer \<Longrightarrow>
    asked E v (World s') (ClaimVM (Battery E) (claim_pool s) (om_UID (claim_meta fresh))) (Inr c) \<Longrightarrow>
    asked E (World s) (World s') (Clock_Now E) now \<Longrightarrow>
    status s' = (status s)\<lparr>LeaseID := cl_LeaseID c, MicroVM := Some (cl_VMUID c),
       Host := Some \<lparr>NodeName = hr_Name (cl_Host c), AgentAddress = []\<rparr>, BoundTime := Some now,
       LeaseExpiresAt := None, ObservedRenewTime := RenewTime (spec s), Phase := MicroVMClaimBound,
       Conditions := bound_condition E s now ConditionTrue ReasonBound
         (''Leased MicroVM '' @ cl_VMUID c @ '' on Node '' @ hr_Name (cl_Host c))\<rparr> \<Longrightarrow>
    claim_eff E s s'"
| pend: "frame E s s' \<Longrightarrow> objmeta s' = objmeta s \<Longrightarrow> LeaseID (status s) = [] \<Longrightarrow> asked E (World s) (World s') (Clock_Now E) now \<Longrightarrow>
    status s' = (status s)\<lparr>Phase := MicroVMClaimPending,
       Conditions := bound_condition E s now ConditionFalse reason message\<rparr> \<Longrightarrow>
    claim_eff E s s'"
| expire: "frame E s s' \<Longrightarrow> objmeta s' = objmeta s \<Longrightarrow> holdsLease (Object s) \<Longrightarrow> lease_ended E (World s) (World s') s \<Longrightarrow>
    asked E (World s) (World s') (Clock_Now E) now \<Longrightarrow>
    status s' = (status s)\<lparr>Phase := MicroVMClaimExpired,
       Conditions := bound_condition E s now ConditionFalse ReasonLeaseExpired why\<rparr> \<Longrightarrow>
    claim_eff E s s'"
| renew: "frame E s s' \<Longrightarrow> objmeta s' = objmeta s \<Longrightarrow> holdsLease (Object s) \<Longrightarrow> pendingRenewal (Object s) \<Longrightarrow>
    asked E (World s) (World s') (Heartbeat (Battery E) (LeaseID (status s))) (Inr t) \<Longrightarrow>
    status s' = (status s)\<lparr>LeaseExpiresAt := Some t, ObservedRenewTime := RenewTime (spec s)\<rparr> \<Longrightarrow>
    claim_eff E s s'"
| read_expiry: "frame E s s' \<Longrightarrow> objmeta s' = objmeta s \<Longrightarrow> holdsLease (Object s) \<Longrightarrow> battery_expiry E (World s) (World s') s t \<Longrightarrow>
    status s' = (status s)\<lparr>LeaseExpiresAt := Some t\<rparr> \<Longrightarrow> claim_eff E s s'"


subsection \<open>Every step makes one permitted change\<close>

lemma Now_eq: "Now E s = (fst (Clock_Now E (World s)), s\<lparr>World := snd (Clock_Now E (World s))\<rparr>)"
  by (simp add: Now_def split_beta)

lemma frame_refl [simp]: "frame E s s"
  by (simp add: frame_def)

lemma frame_trans: "frame E a b \<Longrightarrow> frame E b c \<Longrightarrow> frame E a c"
  by (auto simp: frame_def intro: recovered_le_trans)

text \<open>
  A step works on a scope \<open>s1\<close> that holds the claim unchanged, some calls later:
  \<open>unchanged E s s1\<close>.
\<close>

definition unchanged :: "'w claim_env \<Rightarrow> 'w claim_scope \<Rightarrow> 'w claim_scope \<Rightarrow> bool" where
  "unchanged E s s1 \<longleftrightarrow> Object s1 = Object s \<and> frame E s s1"

lemma unchanged_refl [simp]: "unchanged E s s"
  by (simp add: unchanged_def)

lemma unchanged_trans: "unchanged E a b \<Longrightarrow> unchanged E b c \<Longrightarrow> unchanged E a c"
  by (auto simp: unchanged_def intro: frame_trans)

lemma unchangedD:
  "unchanged E s s1 \<Longrightarrow> Object s1 = Object s \<and> frame E s s1 \<and> claim_pool s1 = claim_pool s \<and> passes E (World s) (World s1)"
  by (simp add: unchanged_def frame_def claim_pool_def)

lemma unchanged_Called [simp]: "unchanged E s (Called m e s1) \<longleftrightarrow> unchanged E s s1"
  and unchanged_Slots [simp]: "unchanged E s (s1\<lparr>Slots := b\<rparr>) \<longleftrightarrow> unchanged E s s1"
  and unchanged_PoolDeleting [simp]: "unchanged E s (s1\<lparr>PoolDeleting := d\<rparr>) \<longleftrightarrow> unchanged E s s1"
  by (simp_all add: unchanged_def frame_def)

lemma unchanged_World [simp]: "unchanged E s s1 \<Longrightarrow> passes E (World s1) w \<Longrightarrow> unchanged E s (s1\<lparr>World := w\<rparr>)"
  by (auto simp: unchanged_def frame_def intro: rtranclp_trans)

lemma upd_status_World: "(upd_status f s)\<lparr>World := w\<rparr> = upd_status f (s\<lparr>World := w\<rparr>)"
  by (simp add: upd_status_def)

lemma quietI: "unchanged E s s' \<Longrightarrow> claim_eff E s s'"
  by (rule claim_eff.quiet) (simp_all add: unchanged_def)

lemma keepsI: "(\<And>s. R s (fst (f s))) \<Longrightarrow> keeps R f"
  by (simp add: keeps_def)

lemma asked_last: "passes E v w \<Longrightarrow> a = fst (Clock_Now E w) \<Longrightarrow> asked E v (snd (Clock_Now E w)) (Clock_Now E) a"
  by (auto simp: asked_def)

lemma lease_ended_mono:
  "lease_ended E v v' s \<Longrightarrow> passes E u v \<Longrightarrow> passes E v' u' \<Longrightarrow> lease_ended E u u' s"
  unfolding lease_ended_def by (blast intro: asked_mono)

lemma battery_expiry_mono:
  "battery_expiry E v v' s t \<Longrightarrow> passes E u v \<Longrightarrow> passes E v' u' \<Longrightarrow> battery_expiry E u u' s t"
  unfolding battery_expiry_def by (blast intro: asked_mono)

lemma released_mono:
  "released E v v' lid \<Longrightarrow> passes E u v \<Longrightarrow> passes E v' u' \<Longrightarrow> released E u u' lid"
  unfolding released_def by (blast intro: asked_mono)

lemma expire_eff:
  assumes "holdsLease (Object s)" "unchanged E s s1" "lease_ended E (World s) (World s1) s"
  shows "claim_eff E s (expire E why s1)"
proof (rule claim_eff.expire)
  show "status (expire E why s1) = (status s)\<lparr>Phase := MicroVMClaimExpired,
      Conditions := bound_condition E s (fst (Clock_Now E (World s1))) ConditionFalse ReasonLeaseExpired why\<rparr>"
    using assms
    by (simp add: expire_def Now_eq set_condition_def upd_status_def SetCondition_def bound_condition_def unchanged_def)
  show "lease_ended E (World s) (World (expire E why s1)) s"
    by (rule lease_ended_mono [OF assms(3)]) (auto simp: expire_def Now_eq)
qed (use unchangedD [OF assms(2)] assms(1) in
  \<open>auto simp: expire_def Now_eq frame_def intro!: asked_last\<close>)

lemma observe_eff:
  assumes "unchanged E s s1" "typ \<noteq> ConditionBound"
  shows "claim_eff E s (set_condition E now typ stat reason message s1)"
proof (rule claim_eff.observe)
  show "status (set_condition E now typ stat reason message s1) = (status s)\<lparr>Host := Host (status s),
     Conditions := SetStatusCondition (kube E) (Conditions (status s))
       \<lparr>cond_Type = typ, cond_Status = stat, cond_Reason = reason, cond_Message = message,
        cond_ObservedGeneration = om_Generation (objmeta s), cond_LastTransitionTime = now\<rparr>\<rparr>"
    using assms by (simp add: set_condition_def upd_status_def SetCondition_def unchanged_def)
qed (use assms in \<open>simp_all add: frame_def unchanged_def\<close>)

lemma unfinalize_eff:
  assumes "unchanged E s s1" "deleting (objmeta s)"
    and "LeaseID (status s) = [] \<or> released E (World s) (World s1) (LeaseID (status s))"
  shows "claim_eff E s (removeReleaseFinalizer E s1)"
  by (rule claim_eff.unfinalize)
    (use assms in \<open>simp_all add: removeReleaseFinalizer_def frame_def unchanged_def\<close>)

lemma releasedI:
  "fst (ReleaseVM (Battery E) lid w) = None \<Longrightarrow> released E w (snd (ReleaseVM (Battery E) lid w)) lid"
  "fst (ReleaseVM (Battery E) lid w) = Some e \<Longrightarrow> errors_Is e ErrNotFound \<Longrightarrow>
   released E w (snd (ReleaseVM (Battery E) lid w)) lid"
  unfolding released_def asked_def by blast+

lemma Release_eff: "keeps (claim_eff E) (Release_Reconcile b E)"
  by (rule keepsI)
    (auto simp: Release_Reconcile_def unavailableSince_def split_beta Now_eq Let_def
      split: option.split intro!: unfinalize_eff intro: releasedI quietI)

lemma EnsureFinalizer_eff: "keeps (claim_eff E) (EnsureFinalizer_Reconcile E)"
  by (rule keepsI)
    (auto simp: EnsureFinalizer_Reconcile_def EnsureFinalizer_def split_beta Let_def frame_def
      intro: quietI claim_eff.finalize)

lemma bind_eff:
  assumes "LeaseID (status s) = []" "unchanged E s s1"
    and "asked E (World s) (World s1) (APIReader_claim E (ObjectKeyFromObject (objmeta s))) (Inr fresh)"
    and "LeaseID (claim_status fresh) = []" "\<not> deleting (claim_meta fresh)"
    and "ContainsFinalizer (kube E) (om_Finalizers (claim_meta fresh)) ReleaseFinalizer"
  shows "claim_eff E s (fst (callClaimVM E fresh s1))"
proof (cases "fst (ClaimVM (Battery E) (claim_pool s1) (om_UID (claim_meta fresh)) (World s1))")
  case (Inl e)
  with assms show ?thesis
    by (auto simp: callClaimVM_def split_beta Let_def claim_pool_def intro!: quietI)
next
  case (Inr c)
  note s1 = unchangedD [OF assms(2)]
  from Inr assms s1 show ?thesis
    by (intro claim_eff.bind [where v = "World s1" and fresh = fresh and c = c
          and now = "fst (Clock_Now E (snd (ClaimVM (Battery E) (claim_pool s1) (om_UID (claim_meta fresh)) (World s1))))"])
      (auto simp: callClaimVM_def recordBinding_def split_beta Let_def claim_pool_def frame_def Now_eq
        set_condition_def upd_status_def SetCondition_def bound_condition_def
        intro!: asked_last askedI [where w = "World s1"])
qed

lemma claim_eff_Slots: "claim_eff E s s' \<Longrightarrow> claim_eff E s (s'\<lparr>Slots := b\<rparr>)"
proof -
  have *: "frame E s (s'\<lparr>Slots := b\<rparr>)" if "frame E s s'" for s s' :: "'a claim_scope"
    using that by (simp add: frame_def)
  show "claim_eff E s s' \<Longrightarrow> claim_eff E s (s'\<lparr>Slots := b\<rparr>)"
    by (induction rule: claim_eff.induct) (auto dest: * intro: claim_eff.intros)
qed

lemma withSlot_eff:
  assumes "\<And>s1. unchanged E s s1 \<Longrightarrow> World s1 = World s \<Longrightarrow> claim_eff E s0 (fst (f s1))" and "claim_eff E s0 s"
  shows "claim_eff E s0 (fst (withSlot d f s))"
  using assms by (auto simp: withSlot_def split_beta split: option.split intro: claim_eff_Slots)

lemma poolDeleting_unchanged: "unchanged E s (snd (poolDeleting E s))"
  by (auto simp: poolDeleting_def Let_def split_beta)

lemma Bind_eff: "keeps (claim_eff E) (Bind_Reconcile d E)"
proof (rule keepsI)
  fix s :: "'a claim_scope"
  define key where "key = ObjectKeyFromObject (objmeta s)"
  define s1 where "s1 = s\<lparr>World := snd (APIReader_claim E key (World s))\<rparr>"
  obtain p s2 where p: "poolDeleting E s1 = (p, s2)" by (cases "poolDeleting E s1")
  have s1: "unchanged E s s1" by (auto simp: s1_def)
  have s12: "unchanged E s1 s2" using poolDeleting_unchanged [of E s1] p by simp
  have s2: "unchanged E s s2" using s1 s12 by (rule unchanged_trans)
  have slot: "claim_eff E s (fst (withSlot d (callClaimVM E fresh) s2))"
    if "LeaseID (status s) = []" "fst (APIReader_claim E key (World s)) = Inr fresh"
      "LeaseID (claim_status fresh) = []" "\<not> deleting (claim_meta fresh)"
      "ContainsFinalizer (kube E) (om_Finalizers (claim_meta fresh)) ReleaseFinalizer" for fresh
  proof (rule withSlot_eff)
    fix s3 assume s3: "unchanged E s2 s3" "World s3 = World s2"
    have "asked E (World s) (World s3) (APIReader_claim E key) (Inr fresh)"
      using that(2) s12 s3(2) by (auto simp: s1_def dest: unchangedD intro!: askedI [where w = "World s"])
    with that unchanged_trans [OF s2 s3(1)] show "claim_eff E s (fst (callClaimVM E fresh s3))"
      by (intro bind_eff) (simp_all add: key_def)
  qed (use s2 in \<open>rule quietI\<close>)
  show "claim_eff E s (fst (Bind_Reconcile d E s))"
    using s1 s2 slot
    by (auto simp: Bind_Reconcile_def split_beta Let_def p simp flip: key_def s1_def split: sum.split intro!: quietI)
qed

lemma pend_eff:
  assumes "LeaseID (status s) = []"
  shows "claim_eff E s (set_condition E (fst (Clock_Now E (World s))) ConditionBound ConditionFalse reason message
            (upd_status (\<lambda>st. st\<lparr>Phase := MicroVMClaimPending\<rparr>) (s\<lparr>World := snd (Clock_Now E (World s))\<rparr>)))"
  by (rule claim_eff.pend [where now = "fst (Clock_Now E (World s))" and reason = reason and message = message])
    (use assms in \<open>auto simp: set_condition_def upd_status_def SetCondition_def bound_condition_def frame_def
      intro!: asked_last\<close>)

lemma Pending_eff: "LeaseID (status s) = [] \<Longrightarrow> claim_eff E s (fst (Pending_Reconcile b E s))"
  by (auto simp: Pending_Reconcile_def split_beta Now_eq Let_def split: option.split
      intro: quietI intro!: pend_eff)

lemma Pending_idle: "\<not> PoolDeleting s \<Longrightarrow> claimFailure s = None \<Longrightarrow> Pending_Reconcile b E s = (s, no_result, [])"
  by (simp add: Pending_Reconcile_def)

lemma ExpireDeleted_eff: "keeps (claim_eff E) (ExpireDeleted_Reconcile E)"
  by (rule keepsI)
    (auto simp: ExpireDeleted_Reconcile_def lease_ended_def split: option.split intro!: expire_eff intro: quietI)

lemma lookup_cases:
  "lookup lid r = ((rec, known), r') \<Longrightarrow>
     r' \<subseteq>\<^sub>m r \<and> (known \<longleftrightarrow> r lid = Some rec) \<and> (\<not> known \<longrightarrow> rec = None)"
  by (auto simp: lookup_def map_le_def split: option.splits if_splits)

lemma read_eff:
  assumes "holdsLease (Object s)" "unchanged E s s1" "battery_expiry E (World s) (World s1) s t"
  shows "claim_eff E s (upd_status (\<lambda>st. st\<lparr>LeaseExpiresAt := Some t\<rparr>) s1)"
  by (rule claim_eff.read_expiry [where t = t]) (use assms in \<open>simp_all add: unchanged_def frame_def\<close>)

lemma Recover_eff: "keeps (claim_eff E) (Recover_Reconcile E)"
proof (rule keepsI)
  fix s
  show "claim_eff E s (fst (Recover_Reconcile E s))"
  proof (cases "Recovered s")
    case None
    then show ?thesis by (simp add: Recover_Reconcile_def quietI)
  next
    case (Some r)
    obtain rec known r' where l: "lookup (LeaseID (status s)) r = ((rec, known), r')"
      by (cases "lookup (LeaseID (status s)) r") auto
    define s1 where "s1 = Called methodListLeases None (s\<lparr>Recovered := Some r'\<rparr>)"
    have s1: "unchanged E s s1" "unchanged E s (s\<lparr>Recovered := Some r'\<rparr>)"
      using lookup_cases [OF l] Some by (simp_all add: s1_def unchanged_def frame_def)
    have k: "known \<Longrightarrow> r (LeaseID (status s)) = Some rec"
      using lookup_cases [OF l] by simp
    have read: "claim_eff E s (upd_status (\<lambda>st. st\<lparr>LeaseExpiresAt := Some (lr_ExpiresAt x)\<rparr>) s1)"
      if "known" "rec = Some x" "holdsLease (Object s)" for x
      using that k s1 Some by (intro read_eff) (auto simp: battery_expiry_def)
    show ?thesis
      using s1 k Some read
      by (auto simp: Recover_Reconcile_def l Let_def lease_ended_def simp flip: s1_def split: option.split
          intro!: expire_eff intro: quietI)
  qed
qed

lemma renew_eff:
  assumes "holdsLease (Object s)" "pendingRenewal (Object s)" "unchanged E s s1"
    and "asked E (World s) (World s1) (Heartbeat (Battery E) (LeaseID (status s))) (Inr t)"
  shows "claim_eff E s (upd_status (\<lambda>st. st\<lparr>LeaseExpiresAt := Some t, ObservedRenewTime := RenewTime (spec s)\<rparr>) s1)"
  by (rule claim_eff.renew [where t = t]) (use assms in \<open>simp_all add: unchanged_def frame_def\<close>)

lemma lease_ended_heartbeat:
  "pendingRenewal (Object s) \<Longrightarrow> fst (Heartbeat (Battery E) (LeaseID (status s)) w) = Inl e \<Longrightarrow>
   errors_Is e ErrNotFound \<Longrightarrow> lease_ended E w (snd (Heartbeat (Battery E) (LeaseID (status s)) w)) s"
  unfolding lease_ended_def asked_def by blast

lemma Renew_eff: "keeps (claim_eff E) (Renew_Reconcile b E)"
proof (rule keepsI)
  fix s :: "'a claim_scope"
  let ?w = "snd (Heartbeat (Battery E) (LeaseID (status s)) (World s))"
  have asked: "asked E (World s) (snd (Clock_Now E ?w)) (Heartbeat (Battery E) (LeaseID (status s))) a"
    if "fst (Heartbeat (Battery E) (LeaseID (status s)) (World s)) = a" for a
    using that by (intro askedI [where w = "World s"]) (auto)
  show "claim_eff E s (fst (Renew_Reconcile b E s))"
    by (auto simp: Renew_Reconcile_def split_beta Let_def retryAfter_def until_def Now_eq upd_status_World
        split: sum.split intro!: expire_eff renew_eff asked lease_ended_heartbeat intro: quietI)
qed

lemma lease_ended_listed:
  assumes "\<not> pendingRenewal (Object s)" "asked E v v' (Clock_Now E) now"
    and "\<And>t. LeaseExpiresAt (status s) = Some t \<Longrightarrow> t \<le> now"
    and "asked E v v' (ListLeases (Battery E) (Some (claim_pool s))) (Inr ls)"
    and "\<And>l. find (\<lambda>l. lr_LeaseID l = LeaseID (status s)) ls = Some l \<Longrightarrow> lr_ExpiresAt l \<le> now"
  shows "lease_ended E v v' s"
  unfolding lease_ended_def using assms by blast

lemma judge_eff:
  assumes "holdsLease (Object s)" "\<not> pendingRenewal (Object s)" "unchanged E s s1"
    and "asked E (World s) (World s1) (Clock_Now E) now" "\<And>t. LeaseExpiresAt (status s) = Some t \<Longrightarrow> t \<le> now"
    and "asked E (World s) (World s1) (ListLeases (Battery E) (Some (claim_pool s))) (Inr ls)"
  shows "claim_eff E s (fst (judgeLease E now ls s1))"
proof (cases "find (\<lambda>l. lr_LeaseID l = LeaseID (status s)) ls")
  case None
  with assms unchangedD [OF assms(3)] show ?thesis
    by (auto simp: judgeLease_def intro!: expire_eff lease_ended_listed)
next
  case (Some l)
  have l: "l \<in> set ls" "lr_LeaseID l = LeaseID (status s)"
    using find_Some_D [OF Some] by simp_all
  show ?thesis
  proof (cases "lr_ExpiresAt l \<le> now")
    case True
    with Some assms unchangedD [OF assms(3)] show ?thesis
      by (auto simp: judgeLease_def intro!: expire_eff lease_ended_listed)
  next
    case False
    have "battery_expiry E (World s) (World s1) s (lr_ExpiresAt l)"
      using assms(6) l by (auto simp: battery_expiry_def)
    with False Some assms unchangedD [OF assms(3)] show ?thesis
      by (auto simp: judgeLease_def until_def Now_eq split_beta upd_status_World
          intro!: read_eff elim!: battery_expiry_mono)
  qed
qed

lemma checkWithBattery_eff:
  assumes "holdsLease (Object s)" "\<not> pendingRenewal (Object s)" "unchanged E s s1"
    and "asked E (World s) (World s1) (Clock_Now E) now" "\<And>t. LeaseExpiresAt (status s) = Some t \<Longrightarrow> t \<le> now"
  shows "claim_eff E s (fst (checkWithBattery b E now s1))"
proof (cases "fst (ListLeases (Battery E) (Some (claim_pool s1)) (World s1))")
  case (Inl e)
  with assms show ?thesis
    by (auto simp: checkWithBattery_def split_beta Let_def claim_pool_def retryAfter_def Now_eq
        intro!: quietI)
next
  case (Inr ls)
  let ?s2 = "Called methodListLeases None (s1\<lparr>World := snd (ListLeases (Battery E) (Some (claim_pool s1)) (World s1))\<rparr>)"
  note s1 = unchangedD [OF assms(3)]
  have "claim_eff E s (fst (judgeLease E now ls ?s2))"
  proof (rule judge_eff)
    show "asked E (World s) (World ?s2) (Clock_Now E) now"
      by (rule asked_mono [OF assms(4)]) (auto)
    show "asked E (World s) (World ?s2) (ListLeases (Battery E) (Some (claim_pool s))) (Inr ls)"
      using Inr s1 by (intro askedI [where w = "World s1"]) auto
  qed (use assms in \<open>auto\<close>)
  with Inr show ?thesis
    by (simp add: checkWithBattery_def split_beta Let_def claim_pool_def)
qed

lemma CheckExpiry_eff: "keeps (claim_eff E) (CheckExpiry_Reconcile b E)"
  by (rule keepsI)
    (auto simp: CheckExpiry_Reconcile_def Now_eq until_def split: option.split
      intro!: checkWithBattery_eff asked_last intro: quietI)

lemma agent_eff:
  assumes "unchanged E s s1" "Host (status s) = Some h"
  shows "claim_eff E s (fst (setAgentAddress E h address s1))"
  using assms(2) unchangedD [OF assms(1)]
  by (auto simp: setAgentAddress_def Now_eq Let_def set_condition_def upd_status_def SetCondition_def frame_def
      intro!: claim_eff.observe [where h = "Some (h\<lparr>AgentAddress := address\<rparr>)"])

lemma AgentAddress_eff: "keeps (claim_eff E) (AgentAddress_Reconcile E)"
  by (rule keepsI)
    (auto simp: AgentAddress_Reconcile_def split_beta Let_def split: option.split sum.split
      intro!: agent_eff intro: quietI)

lemma HostReady_eff: "keeps (claim_eff E) (HostReady_Reconcile E)"
  by (rule keepsI)
    (auto simp: HostReady_Reconcile_def split_beta Let_def Now_eq split: option.split sum.split
      intro!: observe_eff intro: quietI)

lemma Synced_eff: "keeps (claim_eff E) (Synced_Reconcile E)"
  by (rule keepsI)
    (auto simp: Synced_Reconcile_def split_beta Let_def Now_eq split: option.split
      intro!: observe_eff intro: quietI)

subsection \<open>A reconcile makes permitted changes only\<close>

lemma run_steps_Cons_keeps:
  assumes "transp R" "R s (fst (f s))"
    and "\<And>s' res out. f s = (s', res, []) \<Longrightarrow> \<not> Stop res \<Longrightarrow> R s' (fst (run_steps fs s' out))"
  shows "R s (fst (run_steps (f # fs) s out))"
  using assms by (cases "f s") (auto simp: Let_def dest: transpD)

lemma keeps_star: "keeps (claim_eff E) f \<Longrightarrow> keeps (claim_eff E)\<^sup>*\<^sup>* f"
  by (auto simp: keeps_def)

lemma Release_goes_on: "Release_Reconcile b E s = (s', res, []) \<Longrightarrow> \<not> Stop res \<Longrightarrow> s' = s"
  by (auto simp: Release_Reconcile_def split_beta Let_def split: option.splits if_splits)

lemma EnsureFinalizer_goes_on:
  "EnsureFinalizer_Reconcile E s = (s', res, []) \<Longrightarrow>
   BatteryCall s' = BatteryCall s \<and> PoolDeleting s' = PoolDeleting s"
  by (auto simp: EnsureFinalizer_Reconcile_def EnsureFinalizer_def split_beta Let_def split: if_splits)

lemma Bind_goes_on:
  assumes "Bind_Reconcile d E s = (s', res, [])" "\<not> Stop res" "BatteryCall s = None" "\<not> PoolDeleting s"
  shows "LeaseID (status s') = [] \<or> \<not> PoolDeleting s' \<and> claimFailure s' = None"
  using assms
  by (auto simp: Bind_Reconcile_def withSlot_def callClaimVM_def poolDeleting_def split_beta Let_def claimFailure_def
      split: sum.splits if_splits option.splits)

lemma claim_chain_eff:
  assumes "BatteryCall s = None" "\<not> PoolDeleting s"
  shows "(claim_eff E)\<^sup>*\<^sup>* s (fst (Run (claim_chain b E) s))"
proof -
  let ?R = "(claim_eff E)\<^sup>*\<^sup>*"
  define bo where "bo = (if b = \<lparr>Min = 0, Max = 0\<rparr> then DefaultBackoff else b)"
  define rest where "rest = [ExpireDeleted_Reconcile E, Recover_Reconcile E, Renew_Reconcile bo E,
     CheckExpiry_Reconcile bo E, AgentAddress_Reconcile E, HostReady_Reconcile E]"
  have rest: "?R s (fst (run_steps rest s out))" for s out
    by (rule run_steps_keeps)
      (auto simp: rest_def reflp_def transp_def intro: keeps_star ExpireDeleted_eff Recover_eff Renew_eff
        CheckExpiry_eff AgentAddress_eff HostReady_eff)
  have R: "transp ?R" by (auto simp: transp_def)
  have one: "?R s (fst (f s))" if "keeps (claim_eff E) f" for f s
    using that by (auto simp: keeps_def)
  have pend: "?R s (fst (run_steps (Pending_Reconcile bo E # rest) s out))"
    if "LeaseID (status s) = [] \<or> \<not> PoolDeleting s \<and> claimFailure s = None" for s out
    using that by (intro run_steps_Cons_keeps [OF R] rest) (auto simp: Pending_idle intro: Pending_eff)
  have bind: "?R s (fst (run_steps (Bind_Reconcile 0 E # Pending_Reconcile bo E # rest) s out))"
    if "BatteryCall s = None" "\<not> PoolDeleting s" for s out
    using that by (intro run_steps_Cons_keeps [OF R] pend one Bind_eff Bind_goes_on)
  have fin: "?R s (fst (run_steps (EnsureFinalizer_Reconcile E # Bind_Reconcile 0 E # Pending_Reconcile bo E # rest) s out))"
    if "BatteryCall s = None" "\<not> PoolDeleting s" for s out
    using that EnsureFinalizer_goes_on
    by (intro run_steps_Cons_keeps [OF R] bind one EnsureFinalizer_eff) fastforce+
  have steps: "?R s (fst (run_steps (Steps (claim_chain b E)) s out))" for out
    unfolding claim_chain_def Let_def bo_def [symmetric] rest_def [symmetric] Chain.simps
    using assms Release_goes_on by (intro run_steps_Cons_keeps [OF R] fin one Release_eff) fastforce+
  have "?R s' (fst (run_finally (Finally (claim_chain b E)) s' out errs))" for s' out errs
    by (rule run_finally_keeps)
      (auto simp: claim_chain_def Let_def reflp_def transp_def intro: keeps_star Synced_eff)
  with steps [of no_result] show ?thesis
    by (auto simp: Run_def split_beta intro: rtranclp_trans)
qed
end
