(* ===== verification/ClaimFacts.thy ===== *)
theory ClaimFacts
  imports ClaimSpec
begin

section \<open>What a reconcile of a claim does\<close>

text \<open>
  The properties of the Claim Controller's chain that follow from its specification: each
  is an induction over the permitted changes of \<open>ClaimSpec\<close>.
\<close>

abbreviation after_chain ::
  "Backoff \<Rightarrow> 'w claim_env \<Rightarrow> 'w \<Rightarrow> BindSlots option \<Rightarrow> DeletedVMs option \<Rightarrow> RecoveredLeases option \<Rightarrow>
   MicroVMClaim \<Rightarrow> 'w claim_scope" where
  "after_chain b E w sl d r c \<equiv> fst (Run (claim_chain b E) (New w sl d r c))"

lemma New_simps [simp]:
  "Object (New w sl d r c) = c" "Original (New w sl d r c) = c" "BatteryCall (New w sl d r c) = None"
  "PoolDeleting (New w sl d r c) = False" "World (New w sl d r c) = w" "Slots (New w sl d r c) = sl"
  "Deleted (New w sl d r c) = d" "Recovered (New w sl d r c) = r"
  by (simp_all add: New_def)

lemma after_chain_eff: "(claim_eff E)\<^sup>*\<^sup>* (New w sl d r c) (after_chain b E w sl d r c)"
  by (rule claim_chain_eff) simp_all

subsection \<open>Induction over the changes of a reconcile\<close>

lemma eff_frame: "claim_eff E s s' \<Longrightarrow> frame E s s'"
  by (induction rule: claim_eff.induct) auto

lemma effs_frame: "(claim_eff E)\<^sup>*\<^sup>* s s' \<Longrightarrow> frame E s s'"
  by (induction rule: rtranclp_induct) (auto dest: eff_frame intro: frame_trans)

lemma frame_passes: "frame E s s' \<Longrightarrow> passes E (World s) (World s')"
  by (simp add: frame_def)

text \<open>What holds at the start and is kept by every change holds at the end.\<close>

lemma effs_induct:
  assumes "(claim_eff E)\<^sup>*\<^sup>* s s'" and "P s"
    and "\<And>s1 s2. frame E s s1 \<Longrightarrow> (claim_eff E)\<^sup>*\<^sup>* s s1 \<Longrightarrow> P s1 \<Longrightarrow> claim_eff E s1 s2 \<Longrightarrow> P s2"
  shows "P s'"
  using assms(1)
proof (induction rule: rtranclp_induct)
  case base
  then show ?case by (rule assms(2))
next
  case (step y z)
  then show ?case using assms(3) effs_frame by blast
qed

subsection \<open>The Lease\<close>

definition same_binding :: "MicroVMClaimStatus \<Rightarrow> MicroVMClaimStatus \<Rightarrow> bool" where
  "same_binding st st' \<longleftrightarrow>
     LeaseID st' = LeaseID st \<and> MicroVM st' = MicroVM st \<and> BoundTime st' = BoundTime st \<and>
     map_option NodeName (Host st') = map_option NodeName (Host st)"

lemma eff_lease:
  "claim_eff E s s' \<Longrightarrow> LeaseID (status s) \<noteq> [] \<Longrightarrow> same_binding (status s) (status s')"
  unfolding same_binding_def by (induction rule: claim_eff.induct) auto

lemma effs_lease:
  assumes "(claim_eff E)\<^sup>*\<^sup>* s s'" "LeaseID (status s) \<noteq> []"
  shows "same_binding (status s) (status s')"
  using assms(1)
  by (rule effs_induct) (use assms(2) in \<open>auto dest!: eff_lease simp: same_binding_def\<close>)

text \<open>Where a Lease comes from: the claim read afresh, and then battery's answer to ClaimVM.\<close>

definition claimed_from :: "'w claim_env \<Rightarrow> 'w \<Rightarrow> 'w \<Rightarrow> MicroVMClaim \<Rightarrow> MicroVMClaimStatus \<Rightarrow> bool" where
  "claimed_from E v v' c st \<longleftrightarrow>
     (\<exists>u fresh cl.
        asked E v u (APIReader_claim E (ObjectKeyFromObject (claim_meta c))) (Inr fresh) \<and>
        LeaseID (claim_status fresh) = [] \<and> \<not> deleting (claim_meta fresh) \<and>
        ContainsFinalizer (kube E) (om_Finalizers (claim_meta fresh)) ReleaseFinalizer \<and>
        asked E u v' (ClaimVM (Battery E)
            \<lparr>ref_Name = PoolRefName (claim_spec c), ref_Namespace = om_Namespace (claim_meta c)\<rparr>
            (om_UID (claim_meta fresh))) (Inr cl) \<and>
        LeaseID st = cl_LeaseID cl \<and> MicroVM st = Some (cl_VMUID cl) \<and>
        map_option NodeName (Host st) = Some (hr_Name (cl_Host cl)))"

lemma claimed_from_mono:
  assumes "claimed_from E v v' c st" "passes E u v" "passes E v' u'" "same_binding st st'"
  shows "claimed_from E u u' c st'"
proof -
  obtain x fresh cl where *:
    "asked E v x (APIReader_claim E (ObjectKeyFromObject (claim_meta c))) (Inr fresh)"
    "LeaseID (claim_status fresh) = []" "\<not> deleting (claim_meta fresh)"
    "ContainsFinalizer (kube E) (om_Finalizers (claim_meta fresh)) ReleaseFinalizer"
    "asked E x v' (ClaimVM (Battery E)
        \<lparr>ref_Name = PoolRefName (claim_spec c), ref_Namespace = om_Namespace (claim_meta c)\<rparr>
        (om_UID (claim_meta fresh))) (Inr cl)"
    "LeaseID st = cl_LeaseID cl" "MicroVM st = Some (cl_VMUID cl)"
    "map_option NodeName (Host st) = Some (hr_Name (cl_Host cl))"
    using assms(1) unfolding claimed_from_def by blast
  show ?thesis
    unfolding claimed_from_def
    by (intro exI [of _ x] exI [of _ fresh] exI [of _ cl])
      (use * assms in \<open>auto simp: same_binding_def elim: asked_mono\<close>)
qed

definition identity :: "ObjectMeta \<Rightarrow> string \<times> string \<times> time option" where
  "identity m = (om_Namespace m, om_Name m, om_DeletionTimestamp m)"

lemma eff_identity: "claim_eff E s s' \<Longrightarrow> identity (objmeta s') = identity (objmeta s)"
  by (induction rule: claim_eff.induct) (auto simp: identity_def)

lemma effs_identity: "(claim_eff E)\<^sup>*\<^sup>* s s' \<Longrightarrow> identity (objmeta s') = identity (objmeta s)"
  by (induction rule: rtranclp_induct) (auto dest: eff_identity)

lemma eff_bind:
  assumes "claim_eff E s s'" "LeaseID (status s) = []" "LeaseID (status s') \<noteq> []"
  shows "claimed_from E (World s) (World s') (Object s) (status s')"
  using assms
proof (induction rule: claim_eff.induct)
  case (bind s s' v fresh c now)
  then show ?case
    unfolding claimed_from_def claim_pool_def
    by (intro exI [of _ v] exI [of _ fresh] exI [of _ c]) auto
qed auto

lemma claimed_from_cong:
  "claimed_from E v v' c st \<Longrightarrow> identity (claim_meta c') = identity (claim_meta c) \<Longrightarrow>
   claim_spec c' = claim_spec c \<Longrightarrow> claimed_from E v v' c' st"
  by (simp add: claimed_from_def identity_def ObjectKeyFromObject_def)

lemma effs_bind:
  assumes "(claim_eff E)\<^sup>*\<^sup>* s s'" "LeaseID (status s) = []"
  shows "LeaseID (status s') \<noteq> [] \<longrightarrow> claimed_from E (World s) (World s') (Object s) (status s')"
  using assms(1)
proof (rule effs_induct)
  fix s1 s2
  assume s1: "frame E s s1" "(claim_eff E)\<^sup>*\<^sup>* s s1"
    and IH: "LeaseID (status s1) \<noteq> [] \<longrightarrow> claimed_from E (World s) (World s1) (Object s) (status s1)"
    and eff: "claim_eff E s1 s2"
  have p: "passes E (World s) (World s1)" "passes E (World s1) (World s2)"
    using s1(1) eff_frame [OF eff] by (simp_all add: frame_passes)
  show "LeaseID (status s2) \<noteq> [] \<longrightarrow> claimed_from E (World s) (World s2) (Object s) (status s2)"
  proof (cases "LeaseID (status s1) = []")
    case True
    have "LeaseID (status s2) \<noteq> [] \<Longrightarrow> claimed_from E (World s) (World s2) (Object s1) (status s2)"
      using eff_bind [OF eff True] p(1) by (rule claimed_from_mono) (simp_all add: same_binding_def)
    with s1 effs_identity [OF s1(2)] show ?thesis
      by (auto simp: frame_def intro: claimed_from_cong)
  next
    case False
    with IH eff_lease [OF eff] p(2) show ?thesis by (auto intro: claimed_from_mono)
  qed
qed (use assms(2) in simp)

subsection \<open>The phase\<close>

text \<open>The phases in the order of a claim's life.\<close>

fun phase_rank :: "MicroVMClaimPhase \<Rightarrow> nat" where
  "phase_rank PhaseUnset = 0"
| "phase_rank MicroVMClaimPending = 1"
| "phase_rank MicroVMClaimBound = 2"
| "phase_rank MicroVMClaimExpired = 3"

text \<open>A claim carries a Lease id exactly from Bound on.\<close>

definition phase_ok :: "MicroVMClaim \<Rightarrow> bool" where
  "phase_ok c \<longleftrightarrow> (LeaseID (claim_status c) \<noteq> [] \<longleftrightarrow> 2 \<le> phase_rank (Phase (claim_status c)))"

text \<open>battery gives every Lease an id that is not empty.\<close>

definition names_leases :: "'w battery_client \<Rightarrow> bool" where
  "names_leases B \<longleftrightarrow> (\<forall>p rid w c. fst (ClaimVM B p rid w) = Inr c \<longrightarrow> cl_LeaseID c \<noteq> [])"

lemma asked_names_leases:
  "names_leases (Battery E) \<Longrightarrow> asked E v v' (ClaimVM (Battery E) p rid) (Inr c) \<Longrightarrow> cl_LeaseID c \<noteq> []"
  by (auto simp: names_leases_def asked_def)

lemma eff_phase:
  "claim_eff E s s' \<Longrightarrow> names_leases (Battery E) \<Longrightarrow> phase_ok (Object s) \<Longrightarrow>
   phase_ok (Object s') \<and> phase_rank (Phase (status s)) \<le> phase_rank (Phase (status s'))"
proof (induction rule: claim_eff.induct)
  case (bind s s' v fresh c now)
  then have "cl_LeaseID c \<noteq> []" by (auto dest: asked_names_leases)
  with bind show ?case by (cases "Phase (status s)") (auto simp: phase_ok_def)
next
  case (pend s s' now reason message)
  then show ?case by (cases "Phase (status s)") (auto simp: phase_ok_def)
qed (auto simp: phase_ok_def holdsLease_def)

lemma effs_phase:
  assumes "(claim_eff E)\<^sup>*\<^sup>* s s'" "names_leases (Battery E)" "phase_ok (Object s)"
  shows "phase_ok (Object s') \<and> phase_rank (Phase (status s)) \<le> phase_rank (Phase (status s'))"
  using assms(1)
  by (rule effs_induct) (use assms(2,3) in \<open>auto dest: eff_phase\<close>)

subsection \<open>Evidence\<close>

lemma claim_pool_Recovered [simp]: "claim_pool (s\<lparr>Recovered := r\<rparr>) = claim_pool s"
  by (simp add: claim_pool_def)

lemma recovered_leD:
  "recovered_le r' r \<Longrightarrow> r' = Some m' \<Longrightarrow> m' k = Some v \<Longrightarrow> \<exists>m. r = Some m \<and> m k = Some v"
  by (cases r) (auto simp: map_le_def dom_def)

text \<open>Evidence found during a reconcile is evidence for the whole of it.\<close>

lemma lease_ended_frame:
  assumes "lease_ended E (World s) v s" "frame E s0 s" "passes E v v'"
  shows "lease_ended E (World s0) v' (s\<lparr>Recovered := Recovered s0\<rparr>)"
proof -
  have "\<exists>r0. Recovered s0 = Some r0 \<and> r0 (LeaseID (status s)) = Some None"
    if "Recovered s = Some r" "r (LeaseID (status s)) = Some None" for r
    using that assms(2) by (auto simp: frame_def dest: recovered_leD)
  moreover have "lease_ended E (World s0) v' s"
    using assms by (auto intro: lease_ended_mono simp: frame_def)
  ultimately show ?thesis
    unfolding lease_ended_def by simp blast
qed

lemma lease_ended_cong:
  assumes "lease_ended E v v' s" "Deleted s' = Deleted s" "Recovered s' = Recovered s" "spec s' = spec s"
    "om_Namespace (objmeta s') = om_Namespace (objmeta s)" "LeaseID (status s') = LeaseID (status s)"
    "MicroVM (status s') = MicroVM (status s)" "ObservedRenewTime (status s') = ObservedRenewTime (status s)"
    "LeaseExpiresAt (status s') = LeaseExpiresAt (status s)"
  shows "lease_ended E v v' s'"
  using assms by (simp add: lease_ended_def claim_pool_def pendingRenewal_def)

text \<open>What an Expired claim shows of its Lease no later change of the reconcile touches.\<close>

lemma eff_Expired_fields:
  assumes "claim_eff E s s'" "Phase (status s) = MicroVMClaimExpired" "Phase (status s') = MicroVMClaimExpired"
  shows "Deleted s' = Deleted s \<and> spec s' = spec s \<and> identity (objmeta s') = identity (objmeta s) \<and>
    LeaseID (status s') = LeaseID (status s) \<and> MicroVM (status s') = MicroVM (status s) \<and>
    ObservedRenewTime (status s') = ObservedRenewTime (status s) \<and>
    LeaseExpiresAt (status s') = LeaseExpiresAt (status s)"
  using assms
  by (induction rule: claim_eff.induct) (auto simp: frame_def identity_def holdsLease_def)

lemma eff_expired:
  assumes "claim_eff E s s'" "frame E s0 s" "Phase (status s') = MicroVMClaimExpired"
    "Phase (status s) \<noteq> MicroVMClaimExpired"
  shows "lease_ended E (World s0) (World s') (s'\<lparr>Recovered := Recovered s0\<rparr>)"
  using assms
proof (induction rule: claim_eff.induct)
  case (expire s s' now why)
  then have "lease_ended E (World s0) (World s') (s\<lparr>Recovered := Recovered s0\<rparr>)"
    by (intro lease_ended_frame) auto
  then show ?case by (rule lease_ended_cong) (use expire in \<open>simp_all add: frame_def\<close>)
qed auto

lemma effs_expired:
  assumes "(claim_eff E)\<^sup>*\<^sup>* s s'" "Phase (status s) \<noteq> MicroVMClaimExpired"
  shows "Phase (status s') = MicroVMClaimExpired \<longrightarrow>
         lease_ended E (World s) (World s') (s'\<lparr>Recovered := Recovered s\<rparr>)"
  using assms(1)
proof (rule effs_induct)
  fix s1 s2
  assume s1: "frame E s s1"
    and IH: "Phase (status s1) = MicroVMClaimExpired \<longrightarrow>
         lease_ended E (World s) (World s1) (s1\<lparr>Recovered := Recovered s\<rparr>)"
    and eff: "claim_eff E s1 s2"
  show "Phase (status s2) = MicroVMClaimExpired \<longrightarrow>
         lease_ended E (World s) (World s2) (s2\<lparr>Recovered := Recovered s\<rparr>)"
  proof (cases "Phase (status s1) = MicroVMClaimExpired")
    case True
    with IH have "lease_ended E (World s) (World s2) (s1\<lparr>Recovered := Recovered s\<rparr>)"
      using frame_passes [OF eff_frame [OF eff]] by (auto intro: lease_ended_mono)
    with True eff_Expired_fields [OF eff] show ?thesis
      by (auto simp: identity_def intro: lease_ended_cong)
  qed (use eff_expired [OF eff s1] in blast)
qed (use assms(2) in simp)

lemma battery_expiry_frame:
  assumes "battery_expiry E (World s) v s t" "frame E s0 s" "passes E v v'"
  shows "battery_expiry E (World s0) v' (s\<lparr>Recovered := Recovered s0\<rparr>) t"
proof -
  have "\<exists>r0. Recovered s0 = Some r0 \<and> r0 (LeaseID (status s)) = Some (Some l)"
    if "Recovered s = Some r" "r (LeaseID (status s)) = Some (Some l)" for r l
    using that assms(2) by (auto simp: frame_def dest: recovered_leD)
  moreover have "battery_expiry E (World s0) v' s t"
    using assms by (auto intro: battery_expiry_mono simp: frame_def)
  ultimately show ?thesis
    unfolding battery_expiry_def by simp blast
qed

lemma battery_expiry_cong:
  assumes "battery_expiry E v v' s t" "Recovered s' = Recovered s" "spec s' = spec s"
    "om_Namespace (objmeta s') = om_Namespace (objmeta s)" "LeaseID (status s') = LeaseID (status s)"
  shows "battery_expiry E v v' s' t"
  using assms by (simp add: battery_expiry_def claim_pool_def)

lemma eff_expiry:
  assumes "claim_eff E s s'" "frame E s0 s" "LeaseExpiresAt (status s') = Some t"
  shows "LeaseExpiresAt (status s) = Some t \<and> LeaseID (status s') = LeaseID (status s) \<or>
         battery_expiry E (World s0) (World s') (s'\<lparr>Recovered := Recovered s0\<rparr>) t"
  using assms
proof (induction rule: claim_eff.induct)
  case (renew s s' t')
  then have "battery_expiry E (World s) (World s') s t" by (auto simp: battery_expiry_def)
  then have "battery_expiry E (World s0) (World s') (s\<lparr>Recovered := Recovered s0\<rparr>) t"
    using renew by (intro battery_expiry_frame) auto
  then have "battery_expiry E (World s0) (World s') (s'\<lparr>Recovered := Recovered s0\<rparr>) t"
    by (rule battery_expiry_cong) (use renew in \<open>simp_all add: frame_def\<close>)
  then show ?case ..
next
  case (read_expiry s s' t')
  then have "battery_expiry E (World s0) (World s') (s\<lparr>Recovered := Recovered s0\<rparr>) t"
    by (intro battery_expiry_frame) auto
  then have "battery_expiry E (World s0) (World s') (s'\<lparr>Recovered := Recovered s0\<rparr>) t"
    by (rule battery_expiry_cong) (use read_expiry in \<open>simp_all add: frame_def\<close>)
  then show ?case ..
qed auto

lemma eff_expiry_lease:
  "claim_eff E s s' \<Longrightarrow> LeaseExpiresAt (status s') = Some t \<Longrightarrow> LeaseID (status s') = LeaseID (status s)"
  by (induction rule: claim_eff.induct) auto

lemma effs_expiry:
  assumes "(claim_eff E)\<^sup>*\<^sup>* s s'"
  shows "\<forall>t. LeaseExpiresAt (status s') = Some t \<longrightarrow>
     LeaseExpiresAt (status s) = Some t \<and> LeaseID (status s') = LeaseID (status s) \<or>
     battery_expiry E (World s) (World s') (s'\<lparr>Recovered := Recovered s\<rparr>) t"
  using assms
proof (rule effs_induct)
  fix s1 s2
  assume s1: "frame E s s1"
    and IH: "\<forall>t. LeaseExpiresAt (status s1) = Some t \<longrightarrow>
       LeaseExpiresAt (status s) = Some t \<and> LeaseID (status s1) = LeaseID (status s) \<or>
       battery_expiry E (World s) (World s1) (s1\<lparr>Recovered := Recovered s\<rparr>) t"
    and eff: "claim_eff E s1 s2"
  have carry: "battery_expiry E (World s) (World s2) (s2\<lparr>Recovered := Recovered s\<rparr>) t"
    if "battery_expiry E (World s) (World s1) (s1\<lparr>Recovered := Recovered s\<rparr>) t"
      "LeaseID (status s2) = LeaseID (status s1)" for t
    using that(1)
    by (rule battery_expiry_mono [THEN battery_expiry_cong])
      (use that(2) eff_frame [OF eff] eff_identity [OF eff] in \<open>simp_all add: frame_def identity_def\<close>)
  show "\<forall>t. LeaseExpiresAt (status s2) = Some t \<longrightarrow>
       LeaseExpiresAt (status s) = Some t \<and> LeaseID (status s2) = LeaseID (status s) \<or>
       battery_expiry E (World s) (World s2) (s2\<lparr>Recovered := Recovered s\<rparr>) t"
    using eff_expiry [OF eff s1] IH carry by auto
qed simp

subsection \<open>The release finalizer\<close>

definition may_unfinalize :: "'w claim_env \<Rightarrow> 'w \<Rightarrow> 'w \<Rightarrow> MicroVMClaim \<Rightarrow> bool" where
  "may_unfinalize E v v' c \<longleftrightarrow>
     deleting (claim_meta c) \<and> (LeaseID (claim_status c) = [] \<or> released E v v' (LeaseID (claim_status c)))"

abbreviation has_finalizer :: "'w claim_env \<Rightarrow> MicroVMClaim \<Rightarrow> bool" where
  "has_finalizer E c \<equiv> ContainsFinalizer (kube E) (om_Finalizers (claim_meta c)) ReleaseFinalizer"

lemma eff_finalizer:
  assumes "claim_eff E s s'" "kube_lib (kube E)" "has_finalizer E (Object s)" "\<not> has_finalizer E (Object s')"
  shows "may_unfinalize E (World s) (World s') (Object s)"
  using assms
proof (induction rule: claim_eff.induct)
  case (finalize s s')
  then show ?case
    by (cases "AddFinalizer (kube E) (om_Finalizers (objmeta s)) ReleaseFinalizer")
      (auto dest: kube_lib.add_finalizer [OF finalize(5)])
qed (auto simp: may_unfinalize_def)

lemma effs_finalizer:
  assumes "(claim_eff E)\<^sup>*\<^sup>* s s'" "kube_lib (kube E)" "has_finalizer E (Object s)"
  shows "\<not> has_finalizer E (Object s') \<longrightarrow> may_unfinalize E (World s) (World s') (Object s)"
  using assms(1)
proof (rule effs_induct)
  fix s1 s2
  assume s1: "frame E s s1" "(claim_eff E)\<^sup>*\<^sup>* s s1"
    and IH: "\<not> has_finalizer E (Object s1) \<longrightarrow> may_unfinalize E (World s) (World s1) (Object s)"
    and eff: "claim_eff E s1 s2"
  have p: "passes E (World s) (World s1)" "passes E (World s1) (World s2)"
    using s1(1) eff_frame [OF eff] by (simp_all add: frame_passes)
  have same: "deleting (objmeta s1) = deleting (objmeta s)"
    using effs_identity [OF s1(2)] by (simp add: identity_def deleting_def)
  have lease: "LeaseID (status s) \<noteq> [] \<Longrightarrow> LeaseID (status s1) = LeaseID (status s)"
    using effs_lease [OF s1(2)] by (simp add: same_binding_def)
  have "may_unfinalize E (World s1) (World s2) (Object s1) \<Longrightarrow> may_unfinalize E (World s) (World s2) (Object s)"
    using same lease p by (auto simp: may_unfinalize_def intro: released_mono)
  moreover have "may_unfinalize E (World s) (World s1) (Object s) \<Longrightarrow> may_unfinalize E (World s) (World s2) (Object s)"
    using p by (auto simp: may_unfinalize_def intro: released_mono)
  ultimately show "\<not> has_finalizer E (Object s2) \<longrightarrow> may_unfinalize E (World s) (World s2) (Object s)"
    using IH eff_finalizer [OF eff assms(2)] by blast
qed (use assms(3) in simp)

subsection \<open>A battery that cannot be reached\<close>

definition unreachable :: "'w battery_client \<Rightarrow> bool" where
  "unreachable B \<longleftrightarrow>
     (\<forall>w p rid lid po.
        (\<exists>e. fst (ClaimVM B p rid w) = Inl e \<and> failedInTransit e) \<and>
        (\<exists>e. fst (Heartbeat B lid w) = Inl e \<and> failedInTransit e) \<and>
        (\<exists>e. fst (ReleaseVM B lid w) = Some e \<and> failedInTransit e) \<and>
        (\<exists>e. fst (ListLeases B po w) = Inl e \<and> failedInTransit e))"

lemma transit_not_NotFound: "failedInTransit e \<Longrightarrow> \<not> errors_Is e ErrNotFound"
  by (cases e) auto

lemma unreachable_asked:
  assumes "unreachable (Battery E)"
  shows "\<not> asked E v v' (ClaimVM (Battery E) p rid) (Inr c)"
    and "\<not> asked E v v' (Heartbeat (Battery E) lid) (Inr t)"
    and "\<not> asked E v v' (ReleaseVM (Battery E) lid) None"
    and "\<not> asked E v v' (ListLeases (Battery E) po) (Inr ls)"
    and "errors_Is e ErrNotFound \<Longrightarrow> \<not> asked E v v' (Heartbeat (Battery E) lid) (Inl e)"
    and "errors_Is e ErrNotFound \<Longrightarrow> \<not> asked E v v' (ReleaseVM (Battery E) lid) (Some e)"
  using assms transit_not_NotFound
  by (auto simp: unreachable_def asked_def)
    (metis Inl_Inr_False Inl_inject option.distinct(1) option.inject)+

text \<open>What the controller already knows in memory says nothing against the claim.\<close>

definition no_news :: "DeletedVMs option \<Rightarrow> RecoveredLeases option \<Rightarrow> MicroVMClaimStatus \<Rightarrow> bool" where
  "no_news d r st \<longleftrightarrow>
     (\<forall>dv uid. d = Some dv \<longrightarrow> MicroVM st = Some uid \<longrightarrow> \<not> DeletedVMs_Has uid dv) \<and>
     (\<forall>rl. r = Some rl \<longrightarrow> rl (LeaseID st) = None)"

lemma no_news_le:
  assumes "no_news d r st" "recovered_le r' r" "MicroVM st' = MicroVM st" "LeaseID st' = LeaseID st"
  shows "no_news d r' st'"
  using assms by (cases r; cases r') (auto simp: no_news_def map_le_def dom_def)

definition same_lease :: "MicroVMClaimStatus \<Rightarrow> MicroVMClaimStatus \<Rightarrow> bool" where
  "same_lease st st' \<longleftrightarrow>
     same_binding st st' \<and> LeaseExpiresAt st' = LeaseExpiresAt st \<and>
     ObservedRenewTime st' = ObservedRenewTime st \<and> (LeaseID st \<noteq> [] \<longrightarrow> Phase st' = Phase st)"

lemma same_lease_refl [simp]: "same_lease st st"
  by (simp add: same_lease_def same_binding_def)

lemma same_lease_trans: "same_lease a b \<Longrightarrow> same_lease b c \<Longrightarrow> same_lease a c"
  by (auto simp: same_lease_def same_binding_def)

lemma no_news_not_ended:
  assumes "unreachable (Battery E)" "no_news (Deleted s) (Recovered s) (status s)"
  shows "\<not> lease_ended E v v' s"
  using assms(2) by (auto simp: lease_ended_def no_news_def unreachable_asked [OF assms(1)])

lemma no_news_no_expiry:
  assumes "unreachable (Battery E)" "no_news (Deleted s) (Recovered s) (status s)"
  shows "\<not> battery_expiry E v v' s t"
  using assms(2) by (auto simp: battery_expiry_def no_news_def unreachable_asked [OF assms(1)])

lemma eff_unreachable:
  assumes "claim_eff E s s'" "unreachable (Battery E)" "no_news (Deleted s) (Recovered s) (status s)"
  shows "same_lease (status s) (status s')"
  using assms
  by (induction rule: claim_eff.induct)
    (auto simp: same_lease_def same_binding_def no_news_not_ended no_news_no_expiry unreachable_asked)

lemma effs_unreachable:
  assumes "(claim_eff E)\<^sup>*\<^sup>* s s'" "unreachable (Battery E)" "no_news (Deleted s) (Recovered s) (status s)"
  shows "same_lease (status s) (status s')"
  using assms(1)
proof (rule effs_induct)
  fix s1 s2
  assume s1: "frame E s s1" and IH: "same_lease (status s) (status s1)" and eff: "claim_eff E s1 s2"
  have "no_news (Deleted s1) (Recovered s1) (status s1)"
    using no_news_le [OF assms(3)] s1 IH by (simp add: frame_def same_lease_def same_binding_def)
  then show "same_lease (status s) (status s2)"
    using eff_unreachable [OF eff assms(2)] IH by (blast intro: same_lease_trans)
qed simp

end
