(* ===== verification/ClaimCalls.thy ===== *)
theory ClaimCalls
  imports ClaimFacts
begin

section \<open>The calls and the waits of a reconcile\<close>

text \<open>
  Which calls one reconcile makes to battery, and when it asks to run again. The calls are
  read off a log: \<open>logged E\<close> is the environment \<open>E\<close> with every call to battery recorded.
\<close>

subsection \<open>Stage by stage\<close>

text \<open>To show \<open>R\<close> of a chain, show it where the first step ends the chain, and of the rest.\<close>

lemma run_steps_stage:
  assumes "\<And>s' res err. f s = (s', res, err) \<Longrightarrow> err \<noteq> [] \<or> Stop res \<Longrightarrow> R (s', Merge out res, err)"
    and "\<And>s' res. f s = (s', res, []) \<Longrightarrow> \<not> Stop res \<Longrightarrow> R (run_steps fs s' (Merge out res))"
  shows "R (run_steps (f # fs) s out)"
  using assms by (cases "f s") (auto simp: Let_def)

text \<open>A step that keeps \<open>P\<close> until the chain ends, where \<open>P\<close> is enough for what is wanted.\<close>

lemma run_steps_inv:
  assumes "P s" "\<forall>f\<in>set fs. \<forall>s. P s \<longrightarrow> P (fst (f s))"
  shows "P (fst (run_steps fs s out))"
  using assms
proof (induction fs arbitrary: s out)
  case (Cons f fs)
  obtain s' res err where f: "f s = (s', res, err)" by (cases "f s")
  then have "P s'" using Cons.prems by (metis fst_conv list.set_intros(1))
  with Cons f show ?case by (simp add: Let_def)
qed simp

lemma run_finally_inv:
  assumes "P s" "\<forall>f\<in>set fs. \<forall>s. P s \<longrightarrow> P (fst (f s))"
  shows "P (fst (run_finally fs s out errs))"
  using assms
proof (induction fs arbitrary: s out errs)
  case (Cons f fs)
  obtain s' res err where f: "f s = (s', res, err)" by (cases "f s")
  then have "P s'" using Cons.prems by (metis fst_conv list.set_intros(1))
  with Cons f show ?case by simp
qed simp

lemma run_steps_skip: "f s = (s, no_result, []) \<Longrightarrow> run_steps (f # fs) s out = run_steps fs s out"
  by simp

declare run_steps.simps(2) [simp del]

subsection \<open>The log\<close>

datatype battery_call =
  CallClaimVM PoolRef string | CallHeartbeat string | CallReleaseVM string | CallListLeases "PoolRef option"

definition unlogged :: "('w \<Rightarrow> 'a \<times> 'w) \<Rightarrow> 'w \<times> 'l \<Rightarrow> 'a \<times> 'w \<times> 'l" where
  "unlogged f wl = (fst (f (fst wl)), snd (f (fst wl)), snd wl)"

definition log_call :: "'l \<Rightarrow> ('w \<Rightarrow> 'a \<times> 'w) \<Rightarrow> 'w \<times> 'l list \<Rightarrow> 'a \<times> 'w \<times> 'l list" where
  "log_call c f wl = (fst (f (fst wl)), snd (f (fst wl)), snd wl @ [c])"

definition logged_battery :: "'w battery_client \<Rightarrow> ('w \<times> battery_call list) battery_client" where
  "logged_battery B =
     \<lparr>CreatePool = (\<lambda>p. unlogged (CreatePool B p)), UpdatePool = (\<lambda>p. unlogged (UpdatePool B p)),
      DeletePool = (\<lambda>p. unlogged (DeletePool B p)), GetPool = (\<lambda>p. unlogged (GetPool B p)),
      ListPools = (\<lambda>n. unlogged (ListPools B n)),
      ClaimVM = (\<lambda>p rid. log_call (CallClaimVM p rid) (ClaimVM B p rid)),
      Heartbeat = (\<lambda>lid. log_call (CallHeartbeat lid) (Heartbeat B lid)),
      ReleaseVM = (\<lambda>lid. log_call (CallReleaseVM lid) (ReleaseVM B lid)),
      ListLeases = (\<lambda>p. log_call (CallListLeases p) (ListLeases B p))\<rparr>"

definition logged :: "'w claim_env \<Rightarrow> ('w \<times> battery_call list) claim_env" where
  "logged E =
     \<lparr>kube = kube E, Battery = logged_battery (Battery E),
      APIReader_claim = (\<lambda>k. unlogged (APIReader_claim E k)), APIReader_pool = (\<lambda>k. unlogged (APIReader_pool E k)),
      Client_node = (\<lambda>n. unlogged (Client_node E n)), Clock_Now = unlogged (Clock_Now E)\<rparr>"

lemma snd_unlogged [simp]: "snd (snd (unlogged f wl)) = snd wl"
  by (simp add: unlogged_def)

lemma snd_log_call [simp]: "snd (snd (log_call c f wl)) = snd wl @ [c]"
  by (simp add: log_call_def)

lemma logged_simps [simp]:
  "kube (logged E) = kube E" "Battery (logged E) = logged_battery (Battery E)"
  "APIReader_claim (logged E) k = unlogged (APIReader_claim E k)"
  "APIReader_pool (logged E) k = unlogged (APIReader_pool E k)"
  "Client_node (logged E) n = unlogged (Client_node E n)" "Clock_Now (logged E) = unlogged (Clock_Now E)"
  "ClaimVM (logged_battery B) p rid = log_call (CallClaimVM p rid) (ClaimVM B p rid)"
  "Heartbeat (logged_battery B) lid = log_call (CallHeartbeat lid) (Heartbeat B lid)"
  "ReleaseVM (logged_battery B) lid = log_call (CallReleaseVM lid) (ReleaseVM B lid)"
  "ListLeases (logged_battery B) po = log_call (CallListLeases po) (ListLeases B po)"
  by (simp_all add: logged_def logged_battery_def)

abbreviation Log :: "('w \<times> battery_call list) claim_scope \<Rightarrow> battery_call list" where
  "Log s \<equiv> snd (World s)"

lemma Log_expire [simp]: "Log (expire (logged E) why s) = Log s"
  by (simp add: expire_def Now_eq)

lemma expire_simps [simp]:
  "LeaseID (status (expire E why s)) = LeaseID (status s)" "objmeta (expire E why s) = objmeta s"
  "spec (expire E why s) = spec s" "Phase (status (expire E why s)) = MicroVMClaimExpired"
  by (simp_all add: expire_def Now_eq)

text \<open>
  \<open>lease_log c l s\<close>: the scope still is that of claim \<open>c\<close>, and the log is one of \<open>l\<close>. Steps
  that call nothing keep it.
\<close>

definition lease_log :: "MicroVMClaim \<Rightarrow> battery_call list set \<Rightarrow> ('w \<times> battery_call list) claim_scope \<Rightarrow> bool" where
  "lease_log c L s \<longleftrightarrow>
     identity (objmeta s) = identity (claim_meta c) \<and> spec s = claim_spec c \<and> LeaseID (status s) = LeaseID (claim_status c) \<and>
     (holdsLease (Object s) \<longrightarrow> holdsLease c) \<and> (holdsLease c \<or> Log s = []) \<and> Log s \<in> L"

lemma not_holdsLease_expire [simp]: "\<not> holdsLease (Object (expire E why s))"
  by (simp add: holdsLease_def)

lemma lease_log_expire: "lease_log c L s \<Longrightarrow> lease_log c L (expire (logged E) why s)"
  by (simp add: lease_log_def)

lemma holdsLease_cong:
  "claim_meta c = claim_meta d \<Longrightarrow> Phase (claim_status c) = Phase (claim_status d) \<Longrightarrow>
   LeaseID (claim_status c) = LeaseID (claim_status d) \<Longrightarrow> holdsLease c = holdsLease d"
  by (simp add: holdsLease_def)

lemma lease_log_frame:
  "lease_log c L s \<Longrightarrow> objmeta s' = objmeta s \<Longrightarrow> spec s' = spec s \<Longrightarrow> Phase (status s') = Phase (status s) \<Longrightarrow>
   LeaseID (status s') = LeaseID (status s) \<Longrightarrow> Log s' = Log s \<Longrightarrow> lease_log c L s'"
  using holdsLease_cong [of "Object s'" "Object s"] by (simp add: lease_log_def)

lemma lease_log_ExpireDeleted: "lease_log c L s \<Longrightarrow> lease_log c L (fst (ExpireDeleted_Reconcile (logged E) s))"
  by (auto simp: ExpireDeleted_Reconcile_def lease_log_expire split: option.split)

lemma lease_log_Recover: "lease_log c L s \<Longrightarrow> lease_log c L (fst (Recover_Reconcile (logged E) s))"
  by (auto simp: Recover_Reconcile_def split_beta Let_def split: option.split
      intro!: lease_log_expire elim: lease_log_frame)

lemma lease_log_AgentAddress: "lease_log c L s \<Longrightarrow> lease_log c L (fst (AgentAddress_Reconcile (logged E) s))"
  by (auto simp: AgentAddress_Reconcile_def setAgentAddress_def split_beta Let_def Now_eq split: option.split sum.split
      elim!: lease_log_frame)

lemma lease_log_HostReady: "lease_log c L s \<Longrightarrow> lease_log c L (fst (HostReady_Reconcile (logged E) s))"
  by (auto simp: HostReady_Reconcile_def split_beta Let_def Now_eq split: option.split sum.split
      elim!: lease_log_frame)

lemma lease_log_Synced: "lease_log c L s \<Longrightarrow> lease_log c L (fst (Synced_Reconcile (logged E) s))"
  by (auto simp: Synced_Reconcile_def split_beta Let_def Now_eq split: option.split elim!: lease_log_frame)

lemma lease_log_mono: "lease_log c L s \<Longrightarrow> L \<subseteq> L' \<Longrightarrow> lease_log c L' s"
  by (auto simp: lease_log_def)

lemma lease_log_call:
  "lease_log c L s \<Longrightarrow> holdsLease (Object s) \<Longrightarrow> objmeta s' = objmeta s \<Longrightarrow> spec s' = spec s \<Longrightarrow>
   LeaseID (status s') = LeaseID (status s) \<Longrightarrow> Log s' = Log s @ [x] \<Longrightarrow> (\<lambda>l. l @ [x]) ` L \<subseteq> L' \<Longrightarrow>
   lease_log c L' s'"
  by (auto simp: lease_log_def)

lemma lease_log_fields:
  "lease_log c L s \<Longrightarrow> LeaseID (status s) = LeaseID (claim_status c) \<and> claim_pool s =
     \<lparr>ref_Name = PoolRefName (claim_spec c), ref_Namespace = om_Namespace (claim_meta c)\<rparr>"
  by (simp add: lease_log_def claim_pool_def identity_def)

lemma lease_log_Renew:
  assumes "lease_log c {[]} s"
  shows "lease_log c {[], [CallHeartbeat (LeaseID (claim_status c))]} (fst (Renew_Reconcile b (logged E) s))"
proof (cases "holdsLease (Object s) \<and> pendingRenewal (Object s)")
  case True
  then show ?thesis
    using lease_log_fields [OF assms]
    by (intro lease_log_call [OF assms, of _ "CallHeartbeat (LeaseID (claim_status c))"])
      (auto simp: Renew_Reconcile_def split_beta Let_def retryAfter_def until_def Now_eq split: sum.split)
next
  case False
  then show ?thesis using assms by (auto simp: Renew_Reconcile_def elim: lease_log_mono)
qed

definition list_call :: "MicroVMClaim \<Rightarrow> battery_call" where
  "list_call c = CallListLeases (Some \<lparr>ref_Name = PoolRefName (claim_spec c), ref_Namespace = om_Namespace (claim_meta c)\<rparr>)"

lemma checkWithBattery_fields:
  "objmeta (fst (checkWithBattery b (logged E) now s)) = objmeta s \<and>
   spec (fst (checkWithBattery b (logged E) now s)) = spec s \<and>
   LeaseID (status (fst (checkWithBattery b (logged E) now s))) = LeaseID (status s) \<and>
   Log (fst (checkWithBattery b (logged E) now s)) = Log s @ [CallListLeases (Some (claim_pool s))]"
  by (auto simp: checkWithBattery_def judgeLease_def claim_pool_def split_beta Let_def retryAfter_def until_def Now_eq
      split: sum.split option.split)

lemma lease_log_CheckExpiry:
  assumes "lease_log c {[], [CallHeartbeat (LeaseID (claim_status c))]} s"
  shows "lease_log c {[], [CallHeartbeat (LeaseID (claim_status c))], [list_call c],
           [CallHeartbeat (LeaseID (claim_status c)), list_call c]} (fst (CheckExpiry_Reconcile b (logged E) s))"
    (is "lease_log c ?L _")
proof -
  let ?s = "s\<lparr>World := snd (Clock_Now (logged E) (World s))\<rparr>"
  have s: "lease_log c {[], [CallHeartbeat (LeaseID (claim_status c))]} ?s"
    using assms by (rule lease_log_frame) simp_all
  have ask: "lease_log c ?L (fst (checkWithBattery b (logged E) now ?s))" if "holdsLease (Object s)" for now
    using lease_log_fields [OF assms] that
    by (intro lease_log_call [OF s, of _ "list_call c"])
      (simp_all add: checkWithBattery_fields list_call_def claim_pool_def)
  have skip: "lease_log c ?L (?s\<lparr>World := snd (Clock_Now (logged E) (World ?s))\<rparr>)" "lease_log c ?L s"
    by (rule lease_log_mono [OF lease_log_frame [OF s]], auto, rule lease_log_mono [OF assms], auto)
  show ?thesis
    using ask skip by (auto simp: CheckExpiry_Reconcile_def Now_eq until_def split: option.split)
qed

subsection \<open>The calls of one reconcile\<close>

definition claim_ref :: "MicroVMClaim \<Rightarrow> PoolRef" where
  "claim_ref c = \<lparr>ref_Name = PoolRefName (claim_spec c), ref_Namespace = om_Namespace (claim_meta c)\<rparr>"

text \<open>The calls to battery that a reconcile of \<open>c\<close> may make.\<close>

definition calls_ok :: "MicroVMClaim \<Rightarrow> battery_call list \<Rightarrow> bool" where
  "calls_ok c L \<longleftrightarrow>
     L = [] \<or>
     deleting (claim_meta c) \<and> LeaseID (claim_status c) \<noteq> [] \<and> L = [CallReleaseVM (LeaseID (claim_status c))] \<or>
     \<not> deleting (claim_meta c) \<and> LeaseID (claim_status c) = [] \<and> (\<exists>uid. L = [CallClaimVM (claim_ref c) uid]) \<or>
     holdsLease c \<and>
       L \<in> {[CallHeartbeat (LeaseID (claim_status c))], [CallListLeases (Some (claim_ref c))],
            [CallHeartbeat (LeaseID (claim_status c)), CallListLeases (Some (claim_ref c))]}"

lemma calls_ok_Nil [simp]: "calls_ok c []"
  by (simp add: calls_ok_def)

lemma lease_log_calls_ok:
  assumes "lease_log c {[], [CallHeartbeat (LeaseID (claim_status c))], [list_call c],
           [CallHeartbeat (LeaseID (claim_status c)), list_call c]} s"
  shows "calls_ok c (Log s)"
  using assms by (auto simp: lease_log_def calls_ok_def list_call_def claim_ref_def)

text \<open>A claim without a Lease: after \<open>Bind\<close> nothing is called.\<close>

definition idle_log :: "battery_call list \<Rightarrow> ('w \<times> battery_call list) claim_scope \<Rightarrow> bool" where
  "idle_log L s \<longleftrightarrow> LeaseID (status s) = [] \<and> Log s = L"

lemma idle_log_no_lease: "idle_log L s \<Longrightarrow> \<not> holdsLease (Object s)"
  by (simp add: idle_log_def holdsLease_def)

lemma idle_log_keeps:
  assumes "idle_log L s"
  shows "idle_log L (fst (Pending_Reconcile b (logged E) s))"
    and "idle_log L (fst (ExpireDeleted_Reconcile (logged E) s))"
    and "idle_log L (fst (Recover_Reconcile (logged E) s))"
    and "idle_log L (fst (Renew_Reconcile b (logged E) s))"
    and "idle_log L (fst (CheckExpiry_Reconcile b (logged E) s))"
    and "idle_log L (fst (AgentAddress_Reconcile (logged E) s))"
    and "idle_log L (fst (HostReady_Reconcile (logged E) s))"
    and "idle_log L (fst (Synced_Reconcile (logged E) s))"
proof -
  note no = idle_log_no_lease [OF assms]
  show "idle_log L (fst (ExpireDeleted_Reconcile (logged E) s))" "idle_log L (fst (Recover_Reconcile (logged E) s))"
    "idle_log L (fst (Renew_Reconcile b (logged E) s))" "idle_log L (fst (CheckExpiry_Reconcile b (logged E) s))"
    using assms no
    by (auto simp: ExpireDeleted_Reconcile_def Recover_Reconcile_def Renew_Reconcile_def CheckExpiry_Reconcile_def
        split: option.split)
  show "idle_log L (fst (Pending_Reconcile b (logged E) s))"
    using assms by (auto simp: Pending_Reconcile_def idle_log_def Now_eq Let_def split: option.split)
  show "idle_log L (fst (AgentAddress_Reconcile (logged E) s))"
    using assms
    by (auto simp: AgentAddress_Reconcile_def setAgentAddress_def idle_log_def split_beta Now_eq Let_def
        split: option.split sum.split)
  show "idle_log L (fst (HostReady_Reconcile (logged E) s))"
    using assms
    by (auto simp: HostReady_Reconcile_def idle_log_def split_beta Now_eq Let_def split: option.split sum.split)
  show "idle_log L (fst (Synced_Reconcile (logged E) s))"
    using assms by (auto simp: Synced_Reconcile_def idle_log_def Now_eq split: option.split)
qed

lemma Bind_calls:
  assumes "LeaseID (status s) = []" "Bind_Reconcile d (logged E) s = (s', res, err)"
  shows "Log s' = Log s \<or> (\<exists>uid. Log s' = Log s @ [CallClaimVM (claim_pool s) uid])"
    and "\<not> Stop res \<Longrightarrow> LeaseID (status s') = []"
  using assms
  by (auto simp: Bind_Reconcile_def withSlot_def callClaimVM_def recordBinding_def poolDeleting_def claim_pool_def
      split_beta Let_def Now_eq split: sum.splits if_splits option.splits)

lemma Release_calls:
  assumes "Release_Reconcile b (logged E) s = (s', res, err)" "Log s = []"
  shows "Log s' = [] \<or> deleting (objmeta s) \<and> LeaseID (status s) \<noteq> [] \<and> Log s' = [CallReleaseVM (LeaseID (status s))]"
    and "\<not> Stop res \<Longrightarrow> s' = s \<and> \<not> deleting (objmeta s)"
  using assms
  by (auto simp: Release_Reconcile_def removeReleaseFinalizer_def unavailableSince_def split_beta Let_def Now_eq
      split: if_splits option.splits)

lemma EnsureFinalizer_calls:
  assumes "EnsureFinalizer_Reconcile E s = (s', res, err)"
  shows "World s' = World s \<and> spec s' = spec s \<and> status s' = status s \<and> identity (objmeta s') = identity (objmeta s) \<and>
         BatteryCall s' = BatteryCall s \<and> PoolDeleting s' = PoolDeleting s \<and> err = []"
  using assms
  by (auto simp: EnsureFinalizer_Reconcile_def EnsureFinalizer_def identity_def split_beta Let_def split: if_splits)

lemma held_calls:
  assumes "lease_log c {[]} s"
  shows "calls_ok c (Log (fst (run_steps [ExpireDeleted_Reconcile (logged E), Recover_Reconcile (logged E),
     Renew_Reconcile b (logged E), CheckExpiry_Reconcile b (logged E), AgentAddress_Reconcile (logged E),
     HostReady_Reconcile (logged E)] s out)))"
proof -
  let ?H = "CallHeartbeat (LeaseID (claim_status c))"
  let ?L1 = "{[], [?H]}" and ?L2 = "{[], [?H], [list_call c], [?H, list_call c]}"
  have sub: "{[]} \<subseteq> ?L2" "?L1 \<subseteq> ?L2" by auto
  have four: "calls_ok c (Log (fst (run_steps [AgentAddress_Reconcile (logged E), HostReady_Reconcile (logged E)] s out)))"
    if "lease_log c ?L2 s" for s out
    by (rule lease_log_calls_ok, rule run_steps_inv [where P = "lease_log c ?L2"])
      (use that in \<open>auto intro: lease_log_AgentAddress lease_log_HostReady\<close>)
  have three: "calls_ok c (Log (fst (run_steps [CheckExpiry_Reconcile b (logged E), AgentAddress_Reconcile (logged E),
     HostReady_Reconcile (logged E)] s out)))" if "lease_log c ?L1 s" for s out
    by (rule run_steps_stage)
      (use lease_log_CheckExpiry [OF that, of b E] in \<open>auto intro: lease_log_calls_ok four\<close>)
  have two: "calls_ok c (Log (fst (run_steps [Renew_Reconcile b (logged E), CheckExpiry_Reconcile b (logged E),
     AgentAddress_Reconcile (logged E), HostReady_Reconcile (logged E)] s out)))" if "lease_log c {[]} s" for s out
    by (rule run_steps_stage)
      (use lease_log_Renew [OF that, of b E] in \<open>auto intro: lease_log_calls_ok lease_log_mono [OF _ sub(2)] three\<close>)
  have one: "calls_ok c (Log (fst (run_steps [Recover_Reconcile (logged E), Renew_Reconcile b (logged E),
     CheckExpiry_Reconcile b (logged E), AgentAddress_Reconcile (logged E), HostReady_Reconcile (logged E)] s out)))"
    if "lease_log c {[]} s" for s out
    by (rule run_steps_stage)
      (use lease_log_Recover [OF that, of E] in \<open>auto intro: lease_log_calls_ok lease_log_mono [OF _ sub(1)] two\<close>)
  show ?thesis
    by (rule run_steps_stage)
      (use lease_log_ExpireDeleted [OF assms, of E] in \<open>auto intro: lease_log_calls_ok lease_log_mono [OF _ sub(1)] one\<close>)
qed

lemma idle_calls:
  assumes "idle_log L s" "\<forall>f\<in>set fs. f \<in> {Pending_Reconcile b (logged E), ExpireDeleted_Reconcile (logged E),
     Recover_Reconcile (logged E), Renew_Reconcile b (logged E), CheckExpiry_Reconcile b (logged E),
     AgentAddress_Reconcile (logged E), HostReady_Reconcile (logged E)}"
  shows "Log (fst (run_steps fs s out)) = L"
proof -
  have "idle_log L (fst (run_steps fs s out))"
    by (rule run_steps_inv) (use assms in \<open>auto intro: idle_log_keeps\<close>)
  then show ?thesis by (simp add: idle_log_def)
qed

lemma Log_Synced [simp]: "Log (fst (Synced_Reconcile (logged E) s)) = Log s"
  by (auto simp: Synced_Reconcile_def Now_eq split: option.split)

lemma chain_calls: "calls_ok c (Log (after_chain b (logged E) (w, []) sl d r c))"
proof -
  define bo where "bo = (if b = \<lparr>Min = 0, Max = 0\<rparr> then DefaultBackoff else b)"
  let ?E = "logged E"
  define rest where "rest = [ExpireDeleted_Reconcile ?E, Recover_Reconcile ?E, Renew_Reconcile bo ?E,
     CheckExpiry_Reconcile bo ?E, AgentAddress_Reconcile ?E, HostReady_Reconcile ?E]"
  let ?J = "\<lambda>s. World s = (w, []) \<and> spec s = claim_spec c \<and> status s = claim_status c \<and>
     identity (objmeta s) = identity (claim_meta c) \<and> BatteryCall s = None \<and> \<not> PoolDeleting s"
  let ?ok = "\<lambda>t. calls_ok c (Log (fst t))"
  have bind: "?ok (run_steps (Bind_Reconcile 0 ?E # Pending_Reconcile bo ?E # rest) s out)"
    if J: "?J s" and nd: "\<not> deleting (claim_meta c)" for s out
  proof (cases "LeaseID (claim_status c) = []")
    case True
    have pool: "claim_pool s = claim_ref c" using J by (simp add: claim_pool_def claim_ref_def identity_def)
    have ended: "calls_ok c (Log s')" if "Bind_Reconcile 0 ?E s = (s', res, err)" for s' res err
      using Bind_calls(1) [OF _ that] True J nd pool by (auto simp: calls_ok_def)
    have idle: "Log (fst (run_steps (Pending_Reconcile bo ?E # rest) s' out')) = Log s'"
      if "Bind_Reconcile 0 ?E s = (s', res, [])" "\<not> Stop res" for s' res out'
      by (rule idle_calls [where b = bo and E = E])
        (use Bind_calls(2) [OF _ that(1)] that(2) True J in \<open>auto simp: idle_log_def rest_def\<close>)
    show ?thesis by (rule run_steps_stage) (use ended idle in auto)
  next
    case False
    with J have s: "Bind_Reconcile 0 ?E s = (s, no_result, [])" "Pending_Reconcile bo ?E s = (s, no_result, [])"
      by (simp_all add: Bind_Reconcile_def Pending_idle claimFailure_def)
    have "holdsLease (Object s) = holdsLease c"
      using J by (simp add: holdsLease_def identity_def deleting_def)
    with J have "lease_log c {[]} s" by (simp add: lease_log_def)
    then show ?thesis using held_calls by (simp add: s rest_def run_steps_skip)
  qed
  have fin: "?ok (run_steps (EnsureFinalizer_Reconcile ?E # Bind_Reconcile 0 ?E # Pending_Reconcile bo ?E # rest) s out)"
    if J: "?J s" and nd: "\<not> deleting (claim_meta c)" for s out
    by (rule run_steps_stage) (use J nd in \<open>auto dest!: EnsureFinalizer_calls intro!: bind\<close>)
  have "?ok (run_steps (Steps (claim_chain b ?E)) (New (w, []) sl d r c) no_result)"
    unfolding claim_chain_def Let_def bo_def [symmetric] rest_def [symmetric] Chain.simps
  proof (rule run_steps_stage)
    fix s' res err
    assume rel: "Release_Reconcile bo ?E (New (w, []) sl d r c) = (s', res, err)"
    show "?ok (s', Merge no_result res, err)"
      using Release_calls(1) [OF rel] by (auto simp: calls_ok_def)
  next
    fix s' res
    assume rel: "Release_Reconcile bo ?E (New (w, []) sl d r c) = (s', res, [])" "\<not> Stop res"
    then have "s' = New (w, []) sl d r c" "\<not> deleting (claim_meta c)"
      using Release_calls(2) [OF rel(1) _ rel(2)] by simp_all
    then show "?ok (run_steps (EnsureFinalizer_Reconcile ?E # Bind_Reconcile 0 ?E # Pending_Reconcile bo ?E # rest)
        s' (Merge no_result res))"
      by (intro fin) simp_all
  qed
  moreover have "Log (fst (run_finally (Finally (claim_chain b ?E)) s out errs)) = Log s" for s out errs
    by (simp add: claim_chain_def Let_def split_beta)
  ultimately show ?thesis by (simp add: Run_def split_beta)
qed

end
