(* ===== verification/ClaimWaits.thy ===== *)
theory ClaimWaits
  imports ClaimCalls
begin

section \<open>When a reconcile asks to run again\<close>

text \<open>
  A claim that waits for battery is never forgotten: the chain asks for another reconcile of
  every Bound claim and of every claim that could not be bound. The waits of a retry
  double up to a ceiling.
\<close>

subsection \<open>Backoff\<close>

definition backoff_ok :: "Backoff \<Rightarrow> bool" where
  "backoff_ok b \<longleftrightarrow> 0 < Min b \<and> Min b \<le> Max b"

lemma after_pos [simp]: "backoff_ok b \<Longrightarrow> 0 < after b d"
  by (auto simp: backoff_ok_def after_def)

text \<open>
  The instants of the retries of a failure that began at time 0, when every retry fails:
  each one comes the wait \<open>after\<close> the one before it.
\<close>

fun retry_time :: "Backoff \<Rightarrow> nat \<Rightarrow> time" where
  "retry_time b 0 = 0"
| "retry_time b (Suc n) = retry_time b n + after b (retry_time b n)"

lemma retry_time_early:
  assumes "backoff_ok b" "Min b * 2 ^ n \<le> Max b"
  shows "retry_time b (Suc n) = Min b * 2 ^ n"
  using assms(2)
proof (induction n)
  case 0
  then show ?case using assms(1) by (simp add: after_def backoff_ok_def)
next
  case (Suc n)
  have le: "Min b * 2 ^ n \<le> Max b" and ge: "Min b \<le> Min b * 2 ^ n"
    using Suc.prems assms(1) by (auto simp: backoff_ok_def)
  then have "retry_time b (Suc n) = Min b * 2 ^ n" using Suc.IH by blast
  then have "retry_time b (Suc (Suc n)) = Min b * 2 ^ n + min (max (Min b * 2 ^ n) (Min b)) (Max b)"
    by (simp add: after_def)
  then show ?case using le ge by simp
qed

lemma retry_time_late:
  assumes "backoff_ok b" "Max b \<le> retry_time b n"
  shows "after b (retry_time b n) = Max b"
  using assms by (auto simp: after_def backoff_ok_def)

lemma retry_time_mono: "backoff_ok b \<Longrightarrow> m \<le> n \<Longrightarrow> retry_time b m \<le> retry_time b n"
  by (induction n) (auto simp: le_Suc_eq add_increasing2 less_imp_le)

lemma wait_doubles:
  assumes "backoff_ok b"
  shows "after b (retry_time b (Suc n)) = min (Min b * 2 ^ n) (Max b)"
proof (cases "Min b * 2 ^ n \<le> Max b")
  case True
  moreover have "Min b \<le> Min b * 2 ^ n" using assms by (simp add: backoff_ok_def)
  ultimately show ?thesis
    using retry_time_early [OF assms True] by (simp add: after_def del: retry_time.simps)
next
  case False
  have "Max b \<le> retry_time b (Suc n)"
    using False
  proof (induction n)
    case 0
    then show ?case using assms by (simp add: backoff_ok_def)
  next
    case (Suc n)
    show ?case
    proof (cases "Min b * 2 ^ n \<le> Max b")
      case True
      have ge: "Min b \<le> Min b * 2 ^ n" using assms by (simp add: backoff_ok_def)
      have "retry_time b (Suc (Suc n)) = Min b * 2 ^ n + after b (Min b * 2 ^ n)"
        using retry_time_early [OF assms True] by simp
      then show ?thesis using True ge Suc.prems by (simp add: after_def)
    next
      case False
      then have "Max b \<le> retry_time b (Suc n)" using Suc.IH by simp
      also have "\<dots> \<le> retry_time b (Suc (Suc n))" using retry_time_mono [OF assms, of "Suc n" "Suc (Suc n)"] by (simp del: retry_time.simps)
      finally show ?thesis .
    qed
  qed
  then show ?thesis using retry_time_late [OF assms] False by (simp del: retry_time.simps)
qed

subsection \<open>A Bound claim\<close>

lemma run_steps_positive:
  "0 < RequeueAfter out \<Longrightarrow> 0 < RequeueAfter (fst (snd (run_steps fs s out)))"
  by (simp add: run_steps_result RequeueAfter_foldl_Merge foldl_shorter_pos)

text \<open>What is wanted of the end of the steps, for a Bound claim.\<close>

definition comes_back :: "'w claim_scope \<times> Result \<times> reconcile_error list \<Rightarrow> bool" where
  "comes_back t \<longleftrightarrow>
     snd (snd t) = [] \<longrightarrow> holdsLease (Object (fst t)) \<longrightarrow> 0 < RequeueAfter (fst (snd t))"

lemma comes_back_positive: "0 < RequeueAfter (fst (snd t)) \<Longrightarrow> comes_back t"
  by (simp add: comes_back_def)

lemma comes_back_simps [simp]:
  "e \<noteq> [] \<Longrightarrow> comes_back (s, res, e)" "\<not> holdsLease (Object s) \<Longrightarrow> comes_back (s, res, e)"
  "0 < RequeueAfter res \<Longrightarrow> comes_back (s, res, e)"
  by (simp_all add: comes_back_def)

lemma max_second_pos [simp]: "0 < max d second"
  by (simp add: less_max_iff_disj)

lemma checkWithBattery_waits:
  assumes "checkWithBattery b E now s = (s', res, err)" "backoff_ok b"
  shows "err \<noteq> [] \<or> Stop res \<and> \<not> holdsLease (Object s') \<or> 0 < RequeueAfter res"
  using assms
  by (auto simp: checkWithBattery_def judgeLease_def retryAfter_def until_def Now_eq split_beta Let_def
      split: sum.splits option.splits if_splits)

lemma CheckExpiry_waits:
  assumes "CheckExpiry_Reconcile b E s = (s', res, err)" "backoff_ok b" "holdsLease (Object s)"
    and "\<not> pendingRenewal (Object s)"
  shows "err \<noteq> [] \<or> Stop res \<and> \<not> holdsLease (Object s') \<or> 0 < RequeueAfter res"
  using assms
  by (auto simp: CheckExpiry_Reconcile_def until_def Now_eq split: option.splits if_splits
      dest: checkWithBattery_waits)

lemma Renew_waits:
  assumes "Renew_Reconcile b E s = (s', res, err)" "backoff_ok b" "holdsLease (Object s)"
  shows "err \<noteq> [] \<or> Stop res \<and> \<not> holdsLease (Object s') \<or> 0 < RequeueAfter res \<or>
         s' = s \<and> res = no_result \<and> \<not> pendingRenewal (Object s)"
  using assms
  by (auto simp: Renew_Reconcile_def retryAfter_def until_def Now_eq split_beta Let_def split: sum.splits if_splits)

lemma ExpireDeleted_goes_on:
  assumes "ExpireDeleted_Reconcile E s = (s', res, err)"
  shows "err = [] \<and> (if Stop res then \<not> holdsLease (Object s') else s' = s)"
  using assms by (auto simp: ExpireDeleted_Reconcile_def split: option.splits if_splits)

lemma holdsLease_upd_expiry [simp]:
  "holdsLease (Object (upd_status (\<lambda>st. st\<lparr>LeaseExpiresAt := t\<rparr>) s)) = holdsLease (Object s)"
  by (simp add: holdsLease_def)

lemma Recover_goes_on:
  assumes "Recover_Reconcile E s = (s', res, err)" "holdsLease (Object s)"
  shows "err = [] \<and> Stop res = (\<not> holdsLease (Object s'))"
  using assms by (auto simp: Recover_Reconcile_def split_beta Let_def split: option.splits if_splits)

text \<open>A step that waits, or ends the chain with an error or without the Lease.\<close>

lemma comes_back_step:
  assumes "\<And>s' res err. f s = (s', res, err) \<Longrightarrow>
      err \<noteq> [] \<or> Stop res \<and> \<not> holdsLease (Object s') \<or> 0 < RequeueAfter res \<or>
      \<not> Stop res \<and> comes_back (run_steps fs s' (Merge out res))"
  shows "comes_back (run_steps (f # fs) s out)"
proof (rule run_steps_stage)
  fix s' res err
  assume "f s = (s', res, err)" "err \<noteq> [] \<or> Stop res"
  with assms show "comes_back (s', Merge out res, err)" by fastforce
next
  fix s' res
  assume "f s = (s', res, [])" "\<not> Stop res"
  with assms have "0 < RequeueAfter res \<or> comes_back (run_steps fs s' (Merge out res))" by fastforce
  then show "comes_back (run_steps fs s' (Merge out res))"
    by (elim disjE) (auto intro!: comes_back_positive run_steps_positive)
qed

lemma held_waits:
  assumes "backoff_ok b" "holdsLease (Object s)"
  shows "comes_back (run_steps (ExpireDeleted_Reconcile E # Recover_Reconcile E # Renew_Reconcile b E #
           CheckExpiry_Reconcile b E # fs) s out)"
proof -
  have check: "comes_back (run_steps (CheckExpiry_Reconcile b E # fs) s out)"
    if "holdsLease (Object s)" "\<not> pendingRenewal (Object s)" for s out
    by (rule comes_back_step) (use CheckExpiry_waits [OF _ assms(1) that] in blast)
  have renew: "comes_back (run_steps (Renew_Reconcile b E # CheckExpiry_Reconcile b E # fs) s out)"
    if "holdsLease (Object s)" for s out
    by (rule comes_back_step) (use Renew_waits [OF _ assms(1) that] check that in fastforce)
  have recover: "comes_back (run_steps (Recover_Reconcile E # Renew_Reconcile b E # CheckExpiry_Reconcile b E # fs) s out)"
    if "holdsLease (Object s)" for s out
    by (rule comes_back_step) (use Recover_goes_on [OF _ that] renew in blast)
  show ?thesis
    by (rule comes_back_step) (use ExpireDeleted_goes_on [of E s] assms(2) recover in \<open>fastforce split: if_splits\<close>)
qed

text \<open>What the chain does before it looks at a Bound claim's Lease: nothing.\<close>

definition chain_backoff :: "Backoff \<Rightarrow> Backoff" where
  "chain_backoff b = (if b = \<lparr>Min = 0, Max = 0\<rparr> then DefaultBackoff else b)"

lemma chain_backoff_ok: "b = \<lparr>Min = 0, Max = 0\<rparr> \<or> backoff_ok b \<Longrightarrow> backoff_ok (chain_backoff b)"
  by (auto simp: chain_backoff_def backoff_ok_def DefaultBackoff_def second_def)

lemma Release_skip: "\<not> deleting (objmeta s) \<Longrightarrow> Release_Reconcile b E s = (s, no_result, [])"
  by (simp add: Release_Reconcile_def)

lemma EnsureFinalizer_skip:
  assumes "kube_lib (kube E)" "\<not> deleting (objmeta s)" "has_finalizer E (Object s)"
  shows "EnsureFinalizer_Reconcile E s = (s, no_result, [])"
proof -
  obtain fs added where add: "AddFinalizer (kube E) (om_Finalizers (objmeta s)) ReleaseFinalizer = (fs, added)"
    by (cases "AddFinalizer (kube E) (om_Finalizers (objmeta s)) ReleaseFinalizer")
  have "\<not> added" using kube_lib.add_finalizer [OF assms(1) add] assms(3) by simp
  moreover have "fs = om_Finalizers (objmeta s)"
    using kube_lib.add_finalizer_same [OF assms(1,3)] add by simp
  ultimately show ?thesis
    using assms(2) by (simp add: EnsureFinalizer_Reconcile_def EnsureFinalizer_def add upd_meta_def)
qed

lemma steps_before_Bind:
  assumes "kube_lib (kube E)" "\<not> deleting (objmeta s)" "has_finalizer E (Object s)"
  shows "run_steps (Steps (claim_chain b E)) s out =
     run_steps [Bind_Reconcile 0 E, Pending_Reconcile (chain_backoff b) E, ExpireDeleted_Reconcile E,
       Recover_Reconcile E, Renew_Reconcile (chain_backoff b) E, CheckExpiry_Reconcile (chain_backoff b) E,
       AgentAddress_Reconcile E, HostReady_Reconcile E] s out"
  using assms
  by (simp add: claim_chain_def Let_def run_steps_skip Release_skip EnsureFinalizer_skip
      flip: chain_backoff_def)

lemma no_result_Stop [simp]: "no_result\<lparr>Stop := False\<rparr> = no_result"
  by (simp add: no_result_def)

lemma Synced_quiet:
  "Synced_Reconcile E s = (s', res, err) \<Longrightarrow>
   res = no_result \<and> err = [] \<and> objmeta s' = objmeta s \<and> Phase (status s') = Phase (status s) \<and>
   LeaseID (status s') = LeaseID (status s)"
  by (auto simp: Synced_Reconcile_def Now_eq split: option.splits if_splits)

lemma Run_Synced:
  assumes "Run (claim_chain b E) s = (s', res, err)"
  obtains s1 where "run_steps (Steps (claim_chain b E)) s no_result = (s1, res, err)"
    "objmeta s' = objmeta s1" "Phase (status s') = Phase (status s1)" "LeaseID (status s') = LeaseID (status s1)"
proof -
  obtain s1 out1 err1 where steps: "run_steps (Steps (claim_chain b E)) s no_result = (s1, out1, err1)"
    by (cases "run_steps (Steps (claim_chain b E)) s no_result")
  obtain s2 res2 err2 where sync: "Synced_Reconcile E s1 = (s2, res2, err2)" by (cases "Synced_Reconcile E s1")
  have "s' = s2 \<and> res = out1 \<and> err = err1"
    using assms steps sync Synced_quiet [OF sync] by (simp add: Run_def claim_chain_def Let_def)
  then show thesis using that steps Synced_quiet [OF sync] by simp
qed

lemma chain_waits_Bound:
  assumes "kube_lib (kube E)" "b = \<lparr>Min = 0, Max = 0\<rparr> \<or> backoff_ok b" "holdsLease c" "has_finalizer E c"
    and "Run (claim_chain b E) (New w sl d r c) = (s', res, [])" "holdsLease (Object s')"
  shows "0 < RequeueAfter res"
proof -
  let ?s = "New w sl d r c"
  have nd: "\<not> deleting (claim_meta c)" and l: "LeaseID (claim_status c) \<noteq> []"
    using assms(3) by (auto simp: holdsLease_def)
  obtain s1 where steps: "run_steps (Steps (claim_chain b E)) ?s no_result = (s1, res, [])"
    and same: "objmeta s' = objmeta s1" "Phase (status s') = Phase (status s1)" "LeaseID (status s') = LeaseID (status s1)"
    using assms(5) by (rule Run_Synced)
  have skip: "Bind_Reconcile 0 E ?s = (?s, no_result, [])"
    "Pending_Reconcile (chain_backoff b) E ?s = (?s, no_result, [])"
    using l by (simp_all add: Bind_Reconcile_def Pending_idle claimFailure_def)
  have "comes_back (run_steps (Steps (claim_chain b E)) ?s no_result)"
    using steps_before_Bind [OF assms(1), of ?s b no_result] nd assms(3,4)
      held_waits [OF chain_backoff_ok [OF assms(2)], of ?s E]
    by (simp add: run_steps_skip skip)
  moreover have "holdsLease (Object s1)"
    using assms(6) same holdsLease_cong [of "Object s'" "Object s1"] by simp
  ultimately show ?thesis by (simp add: steps comes_back_def)
qed

subsection \<open>A claim that could not be bound\<close>

text \<open>\<open>Bind\<close> on a claim the API server shows to be unbound: an error, a wait, a Lease, or a reason to be pending.\<close>

definition unbound :: "'w claim_env \<Rightarrow> MicroVMClaim \<Rightarrow> bool" where
  "unbound E c \<longleftrightarrow> LeaseID (claim_status c) = [] \<and> \<not> deleting (claim_meta c) \<and> has_finalizer E c"

definition pending_cause :: "'w claim_scope \<Rightarrow> bool" where
  "pending_cause s \<longleftrightarrow>
     PoolDeleting s \<or>
     (\<exists>e. claimFailure s = Some e \<and>
        (errors_Is e ErrExhausted \<or> errors_Is e ErrNotFound \<or> errors_Is e ErrAborted \<or> failedInTransit e))"

lemma DefaultSlotWait_pos [simp]: "0 < DefaultSlotWait"
  by (simp add: DefaultSlotWait_def)

lemma claim_waits:
  assumes "callClaimVM E fresh s = (s', res, err)"
  shows "err \<noteq> [] \<or> Stop res \<and> Phase (status s') = MicroVMClaimBound \<or> \<not> Stop res \<and> pending_cause s'"
  using assms
  by (auto simp: callClaimVM_def recordBinding_def pending_cause_def claimFailure_def Now_eq split_beta Let_def
      split: sum.splits if_splits)

lemma pending_cause_Slots [simp]: "pending_cause (s\<lparr>Slots := b\<rparr>) = pending_cause s"
  by (simp add: pending_cause_def claimFailure_def)

lemma withSlot_waits:
  assumes "withSlot 0 (callClaimVM E fresh) s = (s', res, err)"
  shows "err \<noteq> [] \<or> 0 < RequeueAfter res \<or> Stop res \<and> Phase (status s') = MicroVMClaimBound \<or>
         \<not> Stop res \<and> pending_cause s'"
  using assms by (auto simp: withSlot_def split: option.splits if_splits prod.splits dest!: claim_waits)

lemma Bind_waits:
  assumes "Bind_Reconcile 0 E s = (s', res, err)" "unbound E (Object s)"
    and "fst (APIReader_claim E (ObjectKeyFromObject (objmeta s)) (World s)) = Inr fresh" "unbound E fresh"
  shows "err \<noteq> [] \<or> 0 < RequeueAfter res \<or> Stop res \<and> Phase (status s') = MicroVMClaimBound \<or>
         \<not> Stop res \<and> pending_cause s'"
  using assms
  by (auto simp: Bind_Reconcile_def unbound_def Let_def pending_cause_def
      split: sum.splits if_splits prod.splits dest!: withSlot_waits)

lemma pendingReason_exists:
  assumes "pending_cause s"
  shows "\<exists>reason message. pendingReason (PoolDeleting s) pool (claimFailure s) = Some (reason, message)"
  using assms by (auto simp: pending_cause_def pendingReason_def)

lemma Pending_waits:
  assumes "Pending_Reconcile b E s = (s', res, err)" "pending_cause s" "backoff_ok b"
  shows "err \<noteq> [] \<or> 0 < RequeueAfter res"
proof -
  have "PoolDeleting s \<or> claimFailure s \<noteq> None" using assms(2) by (auto simp: pending_cause_def)
  then show ?thesis
    using assms(1,3) pendingReason_exists [OF assms(2), of "PoolRefName (spec s)"]
    by (auto simp: Pending_Reconcile_def Now_eq Let_def split: option.splits if_splits)
qed

lemma chain_waits_unbound:
  assumes "kube_lib (kube E)" "b = \<lparr>Min = 0, Max = 0\<rparr> \<or> backoff_ok b" "unbound E c"
    and "fst (APIReader_claim E (ObjectKeyFromObject (claim_meta c)) w) = Inr fresh" "unbound E fresh"
    and "Run (claim_chain b E) (New w sl d r c) = (s', res, [])"
  shows "0 < RequeueAfter res \<or> Phase (status s') = MicroVMClaimBound"
proof -
  let ?s = "New w sl d r c" and ?bo = "chain_backoff b"
  let ?good = "\<lambda>t. snd (snd t) \<noteq> [] \<or> 0 < RequeueAfter (fst (snd t)) \<or> Phase (status (fst t)) = MicroVMClaimBound"
  obtain s1 where steps: "run_steps (Steps (claim_chain b E)) ?s no_result = (s1, res, [])"
    and same: "Phase (status s') = Phase (status s1)"
    using assms(6) by (rule Run_Synced)
  have bo: "backoff_ok ?bo" by (rule chain_backoff_ok [OF assms(2)])
  have pend: "?good (run_steps (Pending_Reconcile ?bo E # fs) s out)"
    if "pending_cause s \<or> 0 < RequeueAfter out" for s out fs
  proof (rule run_steps_stage)
    fix s' res err
    assume "Pending_Reconcile ?bo E s = (s', res, err)"
    from Pending_waits [OF this _ bo] that show "?good (s', Merge out res, err)" by simp blast
  next
    fix s' res
    assume "Pending_Reconcile ?bo E s = (s', res, [])"
    from Pending_waits [OF this _ bo] that have "0 < RequeueAfter (Merge out res)" by simp blast
    from run_steps_positive [OF this, of fs s'] show "?good (run_steps fs s' (Merge out res))" by blast
  qed
  have nd: "\<not> deleting (objmeta ?s)" and fin: "has_finalizer E (Object ?s)"
    using assms(3) by (simp_all add: unbound_def)
  have ub: "unbound E (Object ?s)"
    and fresh: "fst (APIReader_claim E (ObjectKeyFromObject (objmeta ?s)) (World ?s)) = Inr fresh"
    using assms(3,4) by simp_all
  have bind: "?good (run_steps (Bind_Reconcile 0 E # Pending_Reconcile ?bo E # fs) ?s no_result)" for fs
  proof (rule run_steps_stage)
    fix s' res err
    assume "Bind_Reconcile 0 E ?s = (s', res, err)" "err \<noteq> [] \<or> Stop res"
    from Bind_waits [OF this(1) ub fresh assms(5)] this(2) show "?good (s', Merge no_result res, err)" by auto
  next
    fix s' res
    assume "Bind_Reconcile 0 E ?s = (s', res, [])" "\<not> Stop res"
    from Bind_waits [OF this(1) ub fresh assms(5)] this(2)
    show "?good (run_steps (Pending_Reconcile ?bo E # fs) s' (Merge no_result res))"
      by (intro pend) auto
  qed
  have "?good (run_steps (Steps (claim_chain b E)) ?s no_result)"
    unfolding steps_before_Bind [OF assms(1) nd fin] by (rule bind)
  then show ?thesis using steps same by simp
qed

end
