(* ===== verification/ClaimConditions.thy ===== *)
theory ClaimConditions
  imports ClaimWaits
begin

section \<open>What the conditions of a claim report\<close>

text \<open>
  The condition Synced after a reconcile, and the condition Bound of a claim that is pending
  with the wait that follows from it.
\<close>

lemma after_chain_Synced:
  obtains s1 where "after_chain b E w sl d r c = fst (Synced_Reconcile E s1)"
  by (simp add: Run_def claim_chain_def Let_def split_beta)

lemma Synced_BatteryCall [simp]: "BatteryCall (fst (Synced_Reconcile E s)) = BatteryCall s"
  by (auto simp: Synced_Reconcile_def Now_eq split: option.split)

lemma find_set_condition:
  assumes "kube_lib (kube E)" "now \<noteq> 0"
  shows "FindStatusCondition (kube E) (Conditions (status (set_condition E now t k rs m s))) t =
     Some (settled (FindStatusCondition (kube E) (Conditions (status s)) t)
       \<lparr>cond_Type = t, cond_Status = k, cond_Reason = rs, cond_Message = m,
        cond_ObservedGeneration = om_Generation (objmeta s), cond_LastTransitionTime = now\<rparr>)"
  using kube_lib.find_set_same [OF assms(1), of "\<lparr>cond_Type = t, cond_Status = k, cond_Reason = rs, cond_Message = m,
        cond_ObservedGeneration = om_Generation (objmeta s), cond_LastTransitionTime = now\<rparr>"] assms(2)
  by (simp add: Conditions_set_condition)

lemma Synced_condition:
  assumes "kube_lib (kube E)" "\<forall>w. fst (Clock_Now E w) \<noteq> 0" "BatteryCall s = Some (m, err)"
  shows "\<exists>cond. FindStatusCondition (kube E) (Conditions (status (fst (Synced_Reconcile E s)))) ConditionSynced = Some cond \<and>
    (cond_Status cond, cond_Reason cond) =
      (case err of
         None \<Rightarrow> (ConditionTrue, ReasonSynced)
       | Some e \<Rightarrow>
           if errors_Is e ErrNotFound \<or> errors_Is e ErrExhausted \<or> errors_Is e ErrAborted
           then (ConditionTrue, ReasonSynced)
           else if failedInTransit e then (ConditionFalse, ReasonBatteryUnavailable)
           else (ConditionFalse, ReasonBatteryError))"
  using assms(2,3)
  by (auto simp: Synced_Reconcile_def Now_eq answered_def find_set_condition [OF assms(1)] split: option.split)

text \<open>The reason the requirements give for each failure of ClaimVM.\<close>

fun documented_reason :: "battery_error \<Rightarrow> string option" where
  "documented_reason (Wraps ErrExhausted m) = Some ReasonPoolExhausted"
| "documented_reason (Wraps ErrNotFound m) = Some ReasonPoolNotFound"
| "documented_reason (Wraps ErrAborted m) = Some ReasonClaimAborted"
| "documented_reason (Wraps ErrUnavailable m) = Some ReasonBatteryUnavailable"
| "documented_reason (Ctx c) = Some ReasonBatteryUnavailable"
| "documented_reason e = None"

lemma pendingReason_documented:
  "map_option fst (pendingReason pd pool err) =
     (if pd then Some ReasonPoolDeleting else Option.bind err documented_reason)"
  by (cases err; cases "the err" rule: documented_reason.cases) (auto simp: pendingReason_def)

lemma Pending_reports:
  assumes "kube_lib (kube E)" "fst (Clock_Now E (World s)) = now" "now \<noteq> 0"
    and "(if PoolDeleting s then Some ReasonPoolDeleting else Option.bind (claimFailure s) documented_reason) = Some reason"
  shows "\<exists>s' cond. Pending_Reconcile b E s = (s', requeue (after b (now - cond_LastTransitionTime cond)), []) \<and>
    Phase (status s') = MicroVMClaimPending \<and> LeaseID (status s') = LeaseID (status s) \<and>
    FindStatusCondition (kube E) (Conditions (status s')) ConditionBound = Some cond \<and>
    cond_Status cond = ConditionFalse \<and> cond_Reason cond = reason \<and>
    cond_LastTransitionTime cond =
      (case FindStatusCondition (kube E) (Conditions (status s)) ConditionBound of
         Some p \<Rightarrow> if cond_Status p = ConditionFalse then cond_LastTransitionTime p else now
       | None \<Rightarrow> now)"
proof -
  obtain message where r: "pendingReason (PoolDeleting s) (PoolRefName (spec s)) (claimFailure s) = Some (reason, message)"
    using pendingReason_documented [of "PoolDeleting s" "PoolRefName (spec s)" "claimFailure s"] assms(4)
    by (auto simp: map_option_case split: option.splits prod.splits if_splits)
  have c: "PoolDeleting s \<or> claimFailure s \<noteq> None" using assms(4) by (cases "claimFailure s") (auto split: if_splits)
  show ?thesis
    using assms(2,3) c
    by (auto simp: Pending_Reconcile_def r Now_eq Let_def find_set_condition [OF assms(1)] settled_def
        split: option.split)
qed

end
