(* ===== verification/ClaimMemory.thy ===== *)
theory ClaimMemory
  imports ClaimFacts
begin

section \<open>State in memory, recovery and the write\<close>

text \<open>
  What the Claim Controller keeps between reconciles and how it writes a claim: the slots
  that bound the reconciles inside ClaimVM, under any interleaving; the set of deleted
  MicroVMs; what a recovery records; and the status that \<open>Patch\<close> leaves behind.
\<close>

subsection \<open>Slots\<close>

text \<open>
  The slots and the reconciles that are between \<open>tryAcquire\<close> and \<open>release\<close>. \<open>Bind\<close> takes a
  slot before ClaimVM and gives it back when it returns (\<open>withSlot\<close>); reconciles interleave
  in any order.
\<close>

type_synonym 'r slot_state = "BindSlots \<times> 'r set"

inductive slot_step :: "'r slot_state \<Rightarrow> 'r slot_state \<Rightarrow> bool" where
  acquire: "r \<notin> H \<Longrightarrow> tryAcquire b = (True, b') \<Longrightarrow> slot_step (b, H) (b', insert r H)"
| refused: "r \<notin> H \<Longrightarrow> tryAcquire b = (False, b') \<Longrightarrow> slot_step (b, H) (b', H)"
| finish: "r \<in> H \<Longrightarrow> slot_step (b, H) (release b, H - {r})"

inductive_cases slot_stepE: "slot_step (b, H) t"

definition slots_inv :: "nat \<Rightarrow> 'r slot_state \<Rightarrow> bool" where
  "slots_inv n t \<longleftrightarrow>
     slots_cap (fst t) = n \<and> finite (snd t) \<and> slots_taken (fst t) = card (snd t) \<and> card (snd t) \<le> n"

lemma slot_step_inv: "slot_step t t' \<Longrightarrow> slots_inv n t \<Longrightarrow> slots_inv n t'"
proof (induction rule: slot_step.induct)
  case (finish r H b)
  then have "0 < card H" by (auto simp: slots_inv_def card_gt_0_iff)
  with finish show ?case by (auto simp: slots_inv_def release_def)
qed (auto simp: slots_inv_def tryAcquire_def split: if_splits)

lemma slot_steps_inv: "slot_step\<^sup>*\<^sup>* t t' \<Longrightarrow> slots_inv n t \<Longrightarrow> slots_inv n t'"
  by (induction rule: rtranclp_induct) (auto intro: slot_step_inv)

lemma NewBindSlots_inv: "NewBindSlots n = Inr b \<Longrightarrow> slots_inv (nat (n - 1)) (b, {})"
  by (auto simp: NewBindSlots_def slots_inv_def split: if_splits)

lemma slots_bound:
  assumes "NewBindSlots n = Inr b" "slot_step\<^sup>*\<^sup>* (b, {}) (b', H)"
  shows "finite H \<and> int (card H) \<le> n - 1 \<and> slots_taken b' = card H \<and> (fst (tryAcquire b') \<longleftrightarrow> int (card H) < n - 1)"
proof -
  have "slots_inv (nat (n - 1)) (b', H)"
    using slot_steps_inv [OF assms(2) NewBindSlots_inv [OF assms(1)]] .
  moreover have "2 \<le> n" using assms(1) by (auto simp: NewBindSlots_def split: if_splits)
  ultimately show ?thesis by (auto simp: slots_inv_def tryAcquire_def)
qed

text \<open>A reconcile leaves the slots as it found them, whatever ClaimVM answers.\<close>

lemma tryAcquire_release: "tryAcquire b = (True, b') \<Longrightarrow> release b' = b"
  by (auto simp: tryAcquire_def release_def split: if_splits)

lemma callClaimVM_Slots [simp]: "Slots (fst (callClaimVM E fresh s)) = Slots s"
  by (auto simp: callClaimVM_def recordBinding_def split_beta Let_def Now_eq split: sum.split)

lemma withSlot_Slots:
  assumes "\<And>s. Slots (fst (f s)) = Slots s"
  shows "Slots (fst (withSlot d f s)) = Slots s"
proof (cases "Slots s")
  case None
  then show ?thesis using assms by (simp add: withSlot_def)
next
  case (Some b)
  obtain ok b' where t: "tryAcquire b = (ok, b')" by (cases "tryAcquire b")
  then show ?thesis
    using assms [of "s\<lparr>Slots := Some b'\<rparr>"] Some tryAcquire_release
    by (cases ok) (auto simp: withSlot_def split_beta)
qed

lemma poolDeleting_Slots [simp]: "Slots (snd (poolDeleting E s)) = Slots s"
  by (auto simp: poolDeleting_def Let_def split_beta)

lemma Bind_Slots: "Slots (fst (Bind_Reconcile d E s)) = Slots s"
proof -
  have "Slots (fst (withSlot d (callClaimVM E fresh) s')) = Slots s'" for fresh s'
    by (rule withSlot_Slots) simp
  moreover have "poolDeleting E s' = (p, s2) \<Longrightarrow> Slots s2 = Slots s'" for s' p s2
    using poolDeleting_Slots [of E s'] by simp
  ultimately show ?thesis
    by (auto simp: Bind_Reconcile_def Let_def split: prod.split sum.split)
qed

subsection \<open>Deleted MicroVMs\<close>

definition retention :: "DeletedVMs \<Rightarrow> duration" where
  "retention d = (if Retention d \<le> 0 then 3600 * second else Retention d)"

fun add_all :: "(time \<times> string) list \<Rightarrow> DeletedVMs \<Rightarrow> DeletedVMs" where
  "add_all [] d = d"
| "add_all ((now, uid) # es) d = add_all es (DeletedVMs_Add now uid d)"

lemma retention_Add [simp]: "retention (DeletedVMs_Add now uid d) = retention d"
  by (simp add: retention_def DeletedVMs_Add_def Let_def)

lemma seen_Add:
  "seen (DeletedVMs_Add now uid d) u =
     (if u = uid then Some now
      else case seen d u of None \<Rightarrow> None | Some t \<Rightarrow> if now - t > retention d then None else Some t)"
  by (simp add: DeletedVMs_Add_def Let_def retention_def split: option.split)

text \<open>Reported at \<open>t\<close> or later.\<close>

definition seen_since :: "time \<Rightarrow> string \<Rightarrow> DeletedVMs \<Rightarrow> bool" where
  "seen_since t u d \<longleftrightarrow> (\<exists>t'\<ge>t. seen d u = Some t')"

lemma seen_since_Add:
  "seen_since t u d \<Longrightarrow> t \<le> now \<Longrightarrow> now - t \<le> retention d \<Longrightarrow> seen_since t u (DeletedVMs_Add now uid d)"
  by (auto simp: seen_since_def seen_Add)

lemma seen_since_add_all:
  "seen_since t u d \<Longrightarrow> \<forall>e\<in>set es. t \<le> fst e \<and> fst e - t \<le> retention d \<Longrightarrow> seen_since t u (add_all es d)"
  by (induction es d rule: add_all.induct) (auto intro: seen_since_Add)

lemma seen_since_new: "seen_since now uid (DeletedVMs_Add now uid d)"
  by (simp add: seen_since_def seen_Add)

lemma seen_since_Has: "seen_since t u d \<Longrightarrow> DeletedVMs_Has u d"
  by (auto simp: seen_since_def DeletedVMs_Has_def)

lemma Has_add_all_reported:
  "DeletedVMs_Has u (add_all es d) \<Longrightarrow> DeletedVMs_Has u d \<or> u \<in> snd ` set es"
proof (induction es d rule: add_all.induct)
  case (2 now uid es d)
  then show ?case by (auto simp: DeletedVMs_Has_def seen_Add split: if_splits option.splits)
qed simp

subsection \<open>Recovery\<close>

lemma sendAll_sound: "sendAll room xs = (ys, all) \<Longrightarrow> set ys \<subseteq> set xs \<and> (all \<longrightarrow> ys = xs)"
  by (auto simp: sendAll_def split: option.splits dest: in_set_takeD)

text \<open>
  What a recovery records of a Lease was said of the Lease of a Bound claim by battery's list,
  which was asked for after the claims were read.
\<close>

lemma recovery_records:
  assumes "rr_Leases (recovery_run listClaims B room ce w) = Some r"
  obtains claims w1 leases w2 where
    "listClaims w = (Inr claims, w1)" "ListLeases B None w1 = (Inr leases, w2)"
    "r = Record (map (\<lambda>c. LeaseID (claim_status c)) (filter holdsLease claims)) leases"
    "rr_Sent (recovery_run listClaims B room ce w) = fst (sendAll room (filter holdsLease claims))"
    "rr_Err (recovery_run listClaims B room ce w) = [] \<longleftrightarrow> snd (sendAll room (filter holdsLease claims))"
  using assms by (auto simp: recovery_run_def Let_def split: prod.splits sum.splits)

subsection \<open>The write\<close>

text \<open>
  What the API server promises of the writes: a merge patch is empty exactly when nothing
  changed, and the status subresource is stored as it was sent.
\<close>

definition writes_status :: "'w claim_writer \<Rightarrow> bool" where
  "writes_status W \<longleftrightarrow>
     (\<forall>base obj. patch_changes W base obj = Inr False \<longrightarrow> claim_status base = claim_status obj) \<and>
     (\<forall>base obj w stored. fst (Client_Status_Patch W base obj w) = Inr stored \<longrightarrow>
        claim_status stored = claim_status obj)"

lemma patchStatus_status:
  assumes "writes_status W" "patchStatus W desired s = (s', [])"
  shows "status s' = desired"
proof -
  let ?base = "Object s" and ?obj = "set_status desired (Object s)"
  have obj: "claim_status ?obj = desired" by (simp add: set_status_def)
  show ?thesis
  proof (cases "patch_changes W ?base ?obj")
    case (Inl e)
    then show ?thesis using assms(2) by (simp add: patchStatus_def changes_def Let_def)
  next
    case (Inr b)
    then show ?thesis
      using assms obj
      by (auto simp: patchStatus_def changes_def writes_status_def Let_def split: prod.splits sum.splits if_splits)
        (metis fst_conv)
  qed
qed

lemma Patch_status:
  assumes "writes_status W" "Patch W s = (s', [])"
  shows "status s' = status s"
  using assms patchStatus_status [OF assms(1)]
  by (auto simp: Patch_def Let_def set_status_def split: sum.splits if_splits prod.splits)

end
