(* ===== verification/ClaimProps.thy ===== *)
theory ClaimProps
  imports ClaimConditions ClaimMemory
begin

section \<open>Theorems about the Claim Controller\<close>

text \<open>
  The properties of the Claim Controller, each with a witness: a concrete claim and a
  concrete environment in which its hypotheses hold.
\<close>

subsection \<open>A concrete environment\<close>

text \<open>
  A battery that always gives the same answers, a clock that ticks at every reading, an
  API server that holds one claim, and Nodes without a report.
\<close>

definition scripted :: "(battery_error + Claim) \<Rightarrow> (battery_error + time) \<Rightarrow> battery_error option \<Rightarrow>
  (battery_error + LeaseRecord list) \<Rightarrow> 'w battery_client" where
  "scripted claim beat rel leases =
     \<lparr>CreatePool = (\<lambda>_ w. (Inl (Plain ''no pools''), w)), UpdatePool = (\<lambda>_ w. (Inl (Plain ''no pools''), w)),
      DeletePool = (\<lambda>_ w. (None, w)), GetPool = (\<lambda>_ w. (Inl (Plain ''no pools''), w)),
      ListPools = (\<lambda>_ w. (Inr [], w)), ClaimVM = (\<lambda>_ _ w. (claim, w)), Heartbeat = (\<lambda>_ w. (beat, w)),
      ReleaseVM = (\<lambda>_ w. (rel, w)), ListLeases = (\<lambda>_ w. (leases, w))\<rparr>"

definition demo_meta :: ObjectMeta where
  "demo_meta = \<lparr>om_Namespace = ''ns'', om_Name = ''c'', om_UID = ''u'', om_Generation = 1,
     om_DeletionTimestamp = None, om_Finalizers = [ReleaseFinalizer], om_Labels = Map.empty,
     om_Annotations = Map.empty\<rparr>"

definition new_claim :: MicroVMClaim where
  "new_claim = \<lparr>claim_meta = demo_meta,
     claim_spec = \<lparr>PoolRefName = ''p'', RenewTime = None, ServiceAccountName = ''sa''\<rparr>,
     claim_status = \<lparr>Phase = PhaseUnset, LeaseID = [], MicroVM = None, Host = None, BoundTime = None,
       LeaseExpiresAt = None, ObservedRenewTime = None, Conditions = []\<rparr>\<rparr>"

definition bound_claim :: MicroVMClaim where
  "bound_claim = new_claim\<lparr>claim_status := (claim_status new_claim)\<lparr>Phase := MicroVMClaimBound, LeaseID := ''l'',
     MicroVM := Some ''vm'', Host := Some \<lparr>NodeName = ''n'', AgentAddress = []\<rparr>, BoundTime := Some 7,
     LeaseExpiresAt := Some 90\<rparr>\<rparr>"

definition deleted_claim :: MicroVMClaim where
  "deleted_claim = bound_claim\<lparr>claim_meta := demo_meta\<lparr>om_DeletionTimestamp := Some 95\<rparr>\<rparr>"

definition demo_env :: "time battery_client \<Rightarrow> MicroVMClaim \<Rightarrow> time claim_env" where
  "demo_env B c = \<lparr>kube = list_kube, Battery = B, APIReader_claim = (\<lambda>_ w. (Inr c, w)),
     APIReader_pool = (\<lambda>_ w. (Inr demo_meta, w)), Client_node = (\<lambda>_ w. (Inr demo_meta, w)),
     Clock_Now = (\<lambda>w. (w, w + 1))\<rparr>"


definition demo_lease :: "battery_error + Claim" where
  "demo_lease = Inr \<lparr>cl_LeaseID = ''l'', cl_VMUID = ''vm'', cl_Host = \<lparr>hr_Name = ''n'', hr_Address = ''a''\<rparr>\<rparr>"

definition gone :: battery_error where "gone = Wraps ErrNotFound ''lease''"
definition down :: battery_error where "down = Wraps ErrUnavailable ''connection refused''"

definition good_battery :: "'w battery_client" where
  "good_battery = scripted demo_lease (Inr 200) None (Inr [])"

definition down_battery :: "'w battery_client" where
  "down_battery = scripted (Inl down) (Inl down) (Some down) (Inl down)"

subsection \<open>The chain and its specification\<close>

text \<open>
  C1. The Claim Controller's chain refines its specification: whatever the API server, the
  cache, the clock and battery answer, one reconcile changes a claim only by a sequence of
  the changes that \<open>claim_eff\<close> permits, each with the evidence it asks for.
\<close>

theorem claim_chain_refines:
  "(claim_eff E)\<^sup>*\<^sup>* (New w sl d r c) (fst (Run (claim_chain b E) (New w sl d r c)))"
  by (rule after_chain_eff)

text \<open>
  C2. A claim becomes Expired only on evidence: battery's events reported its MicroVM deleted,
  or recovery did not find its Lease, or, during this reconcile, a Heartbeat for a
  pending renewal was answered NotFound, or, with no renewal pending and the recorded
  expiry passed, battery's list of the Pool's Leases did not have the Lease or had it expired.
\<close>

theorem expired_only_if_ended:
  assumes "Phase (claim_status c) \<noteq> MicroVMClaimExpired"
    and "Phase (status (after_chain b E w sl d r c)) = MicroVMClaimExpired"
  shows "lease_ended E w (World (after_chain b E w sl d r c)) ((after_chain b E w sl d r c)\<lparr>Recovered := r\<rparr>)"
  using effs_expired [OF after_chain_eff [of E w sl d r c b]] assms by simp

theorem expired_only_if_ended_witness:
  "Phase (claim_status bound_claim) \<noteq> MicroVMClaimExpired \<and>
   Phase (status (after_chain DefaultBackoff (demo_env good_battery bound_claim) 100 None None None bound_claim))
     = MicroVMClaimExpired \<and>
   lease_ended (demo_env good_battery bound_claim) 100
     (World (after_chain DefaultBackoff (demo_env good_battery bound_claim) 100 None None None bound_claim))
     ((after_chain DefaultBackoff (demo_env good_battery bound_claim) 100 None None None bound_claim)\<lparr>Recovered := None\<rparr>)"
proof -
  have 1: "Phase (claim_status bound_claim) \<noteq> MicroVMClaimExpired" by code_simp
  have 2: "Phase (status (after_chain DefaultBackoff (demo_env good_battery bound_claim) 100 None None None bound_claim))
     = MicroVMClaimExpired" by code_simp
  show ?thesis using expired_only_if_ended [OF 1 2] 1 2 by blast
qed

text \<open>
  C3. A claim gets a Lease only from battery's answer to a ClaimVM, called for the claim's Pool
  with the uid of the claim as read from the API server in the same reconcile, and that
  read showed the claim without a Lease, not being deleted and with the release finalizer
  written; the MicroVM and the Host recorded are those of that answer.
\<close>

theorem lease_only_from_ClaimVM:
  assumes "LeaseID (claim_status c) = []" and "LeaseID (status (after_chain b E w sl d r c)) \<noteq> []"
  shows "claimed_from E w (World (after_chain b E w sl d r c)) c (status (after_chain b E w sl d r c))"
  using effs_bind [OF after_chain_eff [of E w sl d r c b]] assms by simp

theorem lease_only_from_ClaimVM_witness:
  "LeaseID (claim_status new_claim) = [] \<and>
   LeaseID (status (after_chain DefaultBackoff (demo_env good_battery new_claim) 100 None None None new_claim)) \<noteq> [] \<and>
   claimed_from (demo_env good_battery new_claim) 100
     (World (after_chain DefaultBackoff (demo_env good_battery new_claim) 100 None None None new_claim)) new_claim
     (status (after_chain DefaultBackoff (demo_env good_battery new_claim) 100 None None None new_claim))"
proof -
  have 1: "LeaseID (claim_status new_claim) = []" by code_simp
  have 2: "LeaseID (status (after_chain DefaultBackoff (demo_env good_battery new_claim) 100 None None None new_claim)) \<noteq> []"
    by code_simp
  show ?thesis using lease_only_from_ClaimVM [OF 1 2] 1 2 by blast
qed

text \<open>
  C4. The release finalizer leaves a claim only when the claim is being deleted, and only if it
  has no Lease or battery answered ReleaseVM for that Lease, in this reconcile, with
  success or with NotFound.
\<close>

theorem finalizer_kept_until_released:
  assumes "kube_lib (kube E)" "ContainsFinalizer (kube E) (om_Finalizers (claim_meta c)) ReleaseFinalizer"
    and "\<not> ContainsFinalizer (kube E) (om_Finalizers (objmeta (after_chain b E w sl d r c))) ReleaseFinalizer"
  shows "deleting (claim_meta c) \<and>
    (LeaseID (claim_status c) = [] \<or>
     released E w (World (after_chain b E w sl d r c)) (LeaseID (claim_status c)))"
  using effs_finalizer [OF after_chain_eff [of E w sl d r c b]] assms by (simp add: may_unfinalize_def)

theorem finalizer_kept_until_released_witness:
  "kube_lib (kube (demo_env good_battery deleted_claim)) \<and>
   \<not> has_finalizer (demo_env good_battery deleted_claim)
     (Object (after_chain DefaultBackoff (demo_env good_battery deleted_claim) 100 None None None deleted_claim)) \<and>
   released (demo_env good_battery deleted_claim) 100
     (World (after_chain DefaultBackoff (demo_env good_battery deleted_claim) 100 None None None deleted_claim)) ''l''"
proof -
  have 1: "kube_lib (kube (demo_env good_battery deleted_claim))"
    using lists.kube_lib_axioms by (simp add: demo_env_def)
  have 2: "has_finalizer (demo_env good_battery deleted_claim) deleted_claim" by code_simp
  have 3: "\<not> has_finalizer (demo_env good_battery deleted_claim)
     (Object (after_chain DefaultBackoff (demo_env good_battery deleted_claim) 100 None None None deleted_claim))"
    by code_simp
  have 4: "LeaseID (claim_status deleted_claim) = ''l''" by code_simp
  show ?thesis using finalizer_kept_until_released [OF 1 2 3] 1 3 4 by simp
qed

text \<open>
  C5. While battery cannot be reached, and nothing in memory speaks against the claim, a
  reconcile changes nothing about its Lease: the Lease id, the MicroVM, the Node, the
  times and, for a claim with a Lease, the phase stay as they are, and a claim with a
  Lease keeps the release finalizer.
\<close>

theorem unreachable_changes_no_lease:
  assumes "unreachable (Battery E)" "no_news d r (claim_status c)" "kube_lib (kube E)"
  shows "same_lease (claim_status c) (status (after_chain b E w sl d r c)) \<and>
    (LeaseID (claim_status c) \<noteq> [] \<longrightarrow> has_finalizer E c \<longrightarrow> has_finalizer E (Object (after_chain b E w sl d r c)))"
proof -
  note eff = after_chain_eff [of E w sl d r c b]
  have "\<not> may_unfinalize E v v' c" if "LeaseID (claim_status c) \<noteq> []" for v v'
    using that by (auto simp: may_unfinalize_def released_def unreachable_asked [OF assms(1)])
  then show ?thesis
    using effs_unreachable [OF eff assms(1)] effs_finalizer [OF eff assms(3)] assms(2) by auto
qed

theorem unreachable_changes_no_lease_witness:
  "unreachable (Battery (demo_env down_battery bound_claim)) \<and> no_news None None (claim_status bound_claim) \<and>
   same_lease (claim_status bound_claim)
     (status (after_chain DefaultBackoff (demo_env down_battery bound_claim) 100 None None None bound_claim)) \<and>
   has_finalizer (demo_env down_battery bound_claim)
     (Object (after_chain DefaultBackoff (demo_env down_battery bound_claim) 100 None None None bound_claim))"
proof -
  have 1: "unreachable (Battery (demo_env down_battery bound_claim))"
    by (simp add: demo_env_def unreachable_def down_battery_def scripted_def down_def)
  have 2: "no_news None None (claim_status bound_claim)" by (simp add: no_news_def)
  have 3: "kube_lib (kube (demo_env down_battery bound_claim))"
    using lists.kube_lib_axioms by (simp add: demo_env_def)
  have 4: "LeaseID (claim_status bound_claim) \<noteq> []" "has_finalizer (demo_env down_battery bound_claim) bound_claim"
    by code_simp+
  show ?thesis
    using unreachable_changes_no_lease [OF 1 2 3, of DefaultBackoff 100 None] 1 2 4 by simp
qed

text \<open>
  C6. The expiry a claim shows is battery's: a \<open>leaseExpiresAt\<close> that a reconcile leaves is the
  one the claim had, for the same Lease, or one that battery gave for that Lease in its
  answer to a Heartbeat or in its list of Leases.
\<close>

theorem expiry_only_from_battery:
  assumes "LeaseExpiresAt (status (after_chain b E w sl d r c)) = Some t"
  shows "LeaseExpiresAt (claim_status c) = Some t \<and>
           LeaseID (status (after_chain b E w sl d r c)) = LeaseID (claim_status c) \<or>
         battery_expiry E w (World (after_chain b E w sl d r c))
           ((after_chain b E w sl d r c)\<lparr>Recovered := r\<rparr>) t"
  using effs_expiry [OF after_chain_eff [of E w sl d r c b]] assms by simp

definition renewed_claim :: MicroVMClaim where
  "renewed_claim = bound_claim\<lparr>claim_spec := (claim_spec bound_claim)\<lparr>RenewTime := Some 99\<rparr>\<rparr>"

theorem expiry_only_from_battery_witness:
  "battery_expiry (demo_env good_battery renewed_claim) 100
     (World (after_chain DefaultBackoff (demo_env good_battery renewed_claim) 100 None None None renewed_claim))
     ((after_chain DefaultBackoff (demo_env good_battery renewed_claim) 100 None None None renewed_claim)
        \<lparr>Recovered := None\<rparr>) 200"
proof -
  have 1: "LeaseExpiresAt (status (after_chain DefaultBackoff (demo_env good_battery renewed_claim) 100
      None None None renewed_claim)) = Some 200" by code_simp
  have 2: "LeaseExpiresAt (claim_status renewed_claim) \<noteq> Some 200" by code_simp
  show ?thesis using expiry_only_from_battery [OF 1] 2 by blast
qed

text \<open>
  C7. A Lease once recorded stays: a reconcile of a claim that has a Lease id keeps the Lease
  id, the MicroVM, the Node and the time of binding, on every path.
\<close>

theorem lease_never_replaced:
  assumes "LeaseID (claim_status c) \<noteq> []"
  shows "LeaseID (status (after_chain b E w sl d r c)) = LeaseID (claim_status c) \<and>
    MicroVM (status (after_chain b E w sl d r c)) = MicroVM (claim_status c) \<and>
    BoundTime (status (after_chain b E w sl d r c)) = BoundTime (claim_status c) \<and>
    map_option NodeName (Host (status (after_chain b E w sl d r c))) = map_option NodeName (Host (claim_status c))"
  using effs_lease [OF after_chain_eff [of E w sl d r c b]] assms by (simp add: same_binding_def)

theorem lease_never_replaced_witness:
  "LeaseID (claim_status bound_claim) \<noteq> [] \<and>
   LeaseID (status (after_chain DefaultBackoff (demo_env good_battery bound_claim) 100 None None None bound_claim)) = ''l''"
proof -
  have 1: "LeaseID (claim_status bound_claim) \<noteq> []" "LeaseID (claim_status bound_claim) = ''l''" by code_simp+
  show ?thesis
    using lease_never_replaced [OF 1(1), of DefaultBackoff "demo_env good_battery bound_claim" 100 None None None] 1
    by simp
qed

text \<open>
  C8. A claim's life only moves forward, from no phase to Pending to Bound to Expired, and a
  claim carries a Lease id exactly from Bound on, if battery gives every Lease a name.
\<close>

theorem phase_moves_forward:
  assumes "names_leases (Battery E)" "phase_ok c"
  shows "phase_ok (Object (after_chain b E w sl d r c)) \<and>
    phase_rank (Phase (claim_status c)) \<le> phase_rank (Phase (status (after_chain b E w sl d r c)))"
  using effs_phase [OF after_chain_eff [of E w sl d r c b]] assms by simp

theorem phase_moves_forward_witness:
  "names_leases (Battery (demo_env good_battery new_claim)) \<and> phase_ok new_claim \<and>
   phase_ok (Object (after_chain DefaultBackoff (demo_env good_battery new_claim) 100 None None None new_claim))"
proof -
  have 1: "names_leases (Battery (demo_env good_battery new_claim))"
    by (simp add: names_leases_def demo_env_def good_battery_def scripted_def demo_lease_def)
  have 2: "phase_ok new_claim" by code_simp
  show ?thesis using phase_moves_forward [OF 1 2] 1 2 by blast
qed

subsection \<open>Calls and waits\<close>

text \<open>
  C9. The calls one reconcile makes to battery: none; one ReleaseVM of the Lease of a claim
  being deleted; one ClaimVM on the Pool of a claim without a Lease; or, for a Bound claim,
  at most one Heartbeat of its Lease and then at most one ListLeases of its Pool.
\<close>

theorem calls_of_a_reconcile:
  "calls_ok c (snd (World (fst (Run (claim_chain b (logged E)) (New (w, []) sl d r c)))))"
  by (rule chain_calls)

text \<open>
  C10. A Bound claim is never forgotten: a reconcile of a claim that holds a Lease and its
  finalizer either fails, so that the work queue retries it, or leaves it without the
  Lease, or asks to run again after a positive time.
\<close>

theorem bound_claim_requeued:
  assumes "kube_lib (kube E)" "b = \<lparr>Min = 0, Max = 0\<rparr> \<or> backoff_ok b" "holdsLease c" "has_finalizer E c"
    and "Run (claim_chain b E) (New w sl d r c) = (s', res, [])" "holdsLease (Object s')"
  shows "0 < RequeueAfter res"
  using assms by (rule chain_waits_Bound)

definition holding_battery :: "'w battery_client" where
  "holding_battery = scripted demo_lease (Inr 200) None
     (Inr [\<lparr>lr_LeaseID = ''l'', lr_VMUID = ''vm'', lr_Pool = \<lparr>ref_Name = ''p'', ref_Namespace = ''ns''\<rparr>,
            lr_ClaimedAt = 7, lr_LastHeartbeatAt = 80, lr_ExpiresAt = 200, lr_RequestID = ''u''\<rparr>])"

theorem bound_claim_requeued_witness:
  "holdsLease bound_claim \<and>
   0 < RequeueAfter (fst (snd (Run (claim_chain DefaultBackoff (demo_env holding_battery bound_claim))
         (New 100 None None None bound_claim))))"
proof -
  let ?E = "demo_env holding_battery bound_claim" and ?s = "New 100 None None None bound_claim"
  have 1: "kube_lib (kube ?E)" using lists.kube_lib_axioms by (simp add: demo_env_def)
  have 2: "DefaultBackoff = \<lparr>Min = 0, Max = 0\<rparr> \<or> backoff_ok DefaultBackoff" by code_simp
  have 3: "holdsLease bound_claim" "has_finalizer ?E bound_claim" by code_simp+
  have "snd (snd (Run (claim_chain DefaultBackoff ?E) ?s)) = []" by code_simp
  then have 4: "Run (claim_chain DefaultBackoff ?E) ?s =
    (fst (Run (claim_chain DefaultBackoff ?E) ?s), fst (snd (Run (claim_chain DefaultBackoff ?E) ?s)), [])"
    by (metis prod.collapse)
  have 5: "holdsLease (Object (fst (Run (claim_chain DefaultBackoff ?E) ?s)))" by code_simp
  show ?thesis using bound_claim_requeued [OF 1 2 3 4 5] 3(1) by blast
qed

text \<open>
  C11. A claim that could not be bound is tried again: a reconcile of a claim that the cache
  and the API server both show unbound, not being deleted and with its finalizer either
  fails, or binds it, or asks to run again after a positive time.
\<close>

theorem unbound_claim_requeued:
  assumes "kube_lib (kube E)" "b = \<lparr>Min = 0, Max = 0\<rparr> \<or> backoff_ok b" "unbound E c"
    and "fst (APIReader_claim E (ObjectKeyFromObject (claim_meta c)) w) = Inr fresh" "unbound E fresh"
    and "Run (claim_chain b E) (New w sl d r c) = (s', res, [])"
  shows "0 < RequeueAfter res \<or> Phase (status s') = MicroVMClaimBound"
  using assms by (rule chain_waits_unbound)

theorem unbound_claim_requeued_witness:
  "unbound (demo_env down_battery new_claim) new_claim \<and>
   Phase (status (after_chain DefaultBackoff (demo_env down_battery new_claim) 100 None None None new_claim))
     = MicroVMClaimPending \<and>
   0 < RequeueAfter (fst (snd (Run (claim_chain DefaultBackoff (demo_env down_battery new_claim))
         (New 100 None None None new_claim))))"
proof -
  let ?E = "demo_env down_battery new_claim" and ?s = "New 100 None None None new_claim"
  have 1: "kube_lib (kube ?E)" using lists.kube_lib_axioms by (simp add: demo_env_def)
  have 2: "DefaultBackoff = \<lparr>Min = 0, Max = 0\<rparr> \<or> backoff_ok DefaultBackoff" by code_simp
  have 3: "unbound ?E new_claim" by code_simp
  have 4: "fst (APIReader_claim ?E (ObjectKeyFromObject (claim_meta new_claim)) 100) = Inr new_claim"
    by (simp add: demo_env_def)
  have "snd (snd (Run (claim_chain DefaultBackoff ?E) ?s)) = []" by code_simp
  then have 5: "Run (claim_chain DefaultBackoff ?E) ?s =
    (fst (Run (claim_chain DefaultBackoff ?E) ?s), fst (snd (Run (claim_chain DefaultBackoff ?E) ?s)), [])"
    by (metis prod.collapse)
  have 6: "Phase (status (fst (Run (claim_chain DefaultBackoff ?E) ?s))) = MicroVMClaimPending" by code_simp
  show ?thesis using unbound_claim_requeued [OF 1 2 3 4 3 5] 3 6 by simp
qed

text \<open>
  C12. The waits of retries double: when every retry of a failure comes after the wait the
  controller asks for and fails again, the wait before retry \<open>n + 2\<close> is \<open>Min\<close> doubled \<open>n\<close>
  times, and never more than \<open>Max\<close>.
\<close>

theorem backoff_doubles:
  assumes "backoff_ok b"
  shows "after b (retry_time b (Suc n)) = min (Min b * 2 ^ n) (Max b)"
  using assms by (rule wait_doubles)

theorem backoff_doubles_witness: "after DefaultBackoff (retry_time DefaultBackoff 4) = 8 * second"
proof -
  have "backoff_ok DefaultBackoff" by code_simp
  from backoff_doubles [OF this, of 3] have
    "after DefaultBackoff (retry_time DefaultBackoff 4) = min (Min DefaultBackoff * 2 ^ 3) (Max DefaultBackoff)"
    by (simp add: numeral_eq_Suc)
  also have "\<dots> = 8 * second" by code_simp
  finally show ?thesis .
qed

subsection \<open>Conditions\<close>



text \<open>
  C14. A claim that cannot be bound says why and since when: \<open>Pending\<close> sets phase Pending and
  the condition Bound to False with the documented reason, keeps the time at which the
  condition first became False, and asks to run again after the backoff of the time
  elapsed since then.
\<close>

theorem pending_reports_reason:
  assumes "kube_lib (kube E)" "fst (Clock_Now E (World s)) = now" "now \<noteq> 0"
    and "(if PoolDeleting s then Some ReasonPoolDeleting else Option.bind (claimFailure s) documented_reason) = Some reason"
  shows "\<exists>s' cond. Pending_Reconcile b E s = (s', requeue (after b (now - cond_LastTransitionTime cond)), []) \<and>
    Phase (status s') = MicroVMClaimPending \<and> LeaseID (status s') = LeaseID (status s) \<and>
    FindStatusCondition (kube E) (Conditions (status s')) ConditionBound = Some cond \<and>
    cond_Status cond = ConditionFalse \<and> cond_Reason cond = reason \<and>
    cond_LastTransitionTime cond =
      (case FindStatusCondition (kube E) (Conditions (status s)) ConditionBound of
         Some p \<Rightarrow> if cond_Status p = ConditionFalse then cond_LastTransitionTime p else now
       | None \<Rightarrow> now)"
  using assms by (rule Pending_reports)

definition exhausted_scope :: "time claim_scope" where
  "exhausted_scope = Called methodClaimVM (Some (Wraps ErrExhausted ''none'')) (New 100 None None None new_claim)"

theorem pending_reports_reason_witness:
  "\<exists>s'. \<exists>cond :: Condition. Pending_Reconcile DefaultBackoff (demo_env down_battery new_claim) exhausted_scope =
      (s', requeue (after DefaultBackoff (100 - cond_LastTransitionTime cond)), []) \<and>
    Phase (status s') = MicroVMClaimPending \<and> cond_Reason cond = ReasonPoolExhausted"
proof -
  let ?E = "demo_env down_battery new_claim"
  have 1: "kube_lib (kube ?E)" using lists.kube_lib_axioms by (simp add: demo_env_def)
  have 2: "fst (Clock_Now ?E (World exhausted_scope)) = 100" by code_simp
  have 3: "(if PoolDeleting exhausted_scope then Some ReasonPoolDeleting
     else Option.bind (claimFailure exhausted_scope) documented_reason) = Some ReasonPoolExhausted"
    by code_simp
  have 4: "(100 :: time) \<noteq> 0" by simp
  show ?thesis using pending_reports_reason [OF 1 2 4 3, of DefaultBackoff] by blast
qed

subsection \<open>State in memory and the write\<close>



text \<open>
  C16. What a recovery records is what battery said: a Lease id recorded as gone is that of a
  claim that was Bound in the list of claims, and battery's list, asked for afterwards,
  does not have it; a recorded Lease is one of that list; and when recovery reports no
  error, every Bound claim was sent to the work queue.
\<close>

theorem recovery_records_battery:
  assumes "rr_Leases (recovery_run listClaims B room ce w) = Some r"
  shows "\<exists>claims w1 leases w2.
    listClaims w = (Inr claims, w1) \<and> ListLeases B None w1 = (Inr leases, w2) \<and>
    (\<forall>lid. r lid \<noteq> None \<longleftrightarrow> (\<exists>c\<in>set claims. holdsLease c \<and> LeaseID (claim_status c) = lid)) \<and>
    (\<forall>lid. r lid = Some None \<longrightarrow> (\<forall>l\<in>set leases. lr_LeaseID l \<noteq> lid)) \<and>
    (\<forall>lid l. r lid = Some (Some l) \<longrightarrow> l \<in> set leases \<and> lr_LeaseID l = lid) \<and>
    (rr_Err (recovery_run listClaims B room ce w) = [] \<longrightarrow>
       rr_Sent (recovery_run listClaims B room ce w) = filter holdsLease claims)"
proof -
  from recovery_records [OF assms] obtain claims w1 leases w2 where
    *: "listClaims w = (Inr claims, w1)" "ListLeases B None w1 = (Inr leases, w2)"
    "r = Record (map (\<lambda>c. LeaseID (claim_status c)) (filter holdsLease claims)) leases"
    "rr_Sent (recovery_run listClaims B room ce w) = fst (sendAll room (filter holdsLease claims))"
    "rr_Err (recovery_run listClaims B room ce w) = [] \<longleftrightarrow> snd (sendAll room (filter holdsLease claims))"
    by blast
  have "\<forall>lid. r lid \<noteq> None \<longleftrightarrow> (\<exists>c\<in>set claims. holdsLease c \<and> LeaseID (claim_status c) = lid)"
    using *(3) by (auto simp: Record_apply)
  moreover have "\<forall>lid. r lid = Some None \<longrightarrow> (\<forall>l\<in>set leases. lr_LeaseID l \<noteq> lid)"
    using *(3) by (auto simp: Record_apply byID_None_iff split: if_splits)
  moreover have "\<forall>lid l. r lid = Some (Some l) \<longrightarrow> l \<in> set leases \<and> lr_LeaseID l = lid"
    using *(3) by (auto simp: Record_apply split: if_splits dest: byID_Some_D)
  moreover have "snd (sendAll room (filter holdsLease claims)) \<longrightarrow>
      fst (sendAll room (filter holdsLease claims)) = filter holdsLease claims"
    using sendAll_sound [OF surjective_pairing] by blast
  ultimately show ?thesis
    using *(1,2,4,5)
    by (intro exI [of _ claims] exI [of _ w1] exI [of _ leases] exI [of _ w2]) simp
qed

theorem recovery_records_battery_witness:
  "rr_Leases (recovery_run (\<lambda>w. (Inr [bound_claim, new_claim], w)) good_battery None Canceled (1 :: nat)) \<noteq> None \<and>
   rr_Sent (recovery_run (\<lambda>w. (Inr [bound_claim, new_claim], w)) good_battery None Canceled (1 :: nat)) = [bound_claim]"
proof -
  let ?run = "recovery_run (\<lambda>w. (Inr [bound_claim, new_claim], w)) good_battery None Canceled (1 :: nat)"
  have b: "filter holdsLease [bound_claim, new_claim] = [bound_claim]" 
    by (simp add: holdsLease_def bound_claim_def new_claim_def demo_meta_def deleting_def)
  obtain r where r: "rr_Leases ?run = Some r"
    by (simp add: recovery_run_def good_battery_def scripted_def Let_def sendAll_def)
  have e: "rr_Err ?run = []"
    by (simp add: recovery_run_def good_battery_def scripted_def Let_def sendAll_def)
  show ?thesis using recovery_records_battery [OF r] r e b by auto
qed




subsection \<open>Shared parts\<close>

text \<open>
  C18. The wait a chain asks for is the shortest of the positive waits its subreconcilers
  asked for, those that ran before the chain was stopped and those that always run at its
  end, and no wait if none of them asked for one.
\<close>

theorem chain_wait_is_shortest:
  "RequeueAfter (fst (snd (Run c s))) =
     (let waits = {RequeueAfter r | r. 0 < RequeueAfter r \<and>
             r \<in> set (trace_steps (Steps c) s @ trace_finally (Finally c) (fst (run_steps (Steps c) s no_result)))}
      in if waits = {} then 0 else Lattices_Big.Min waits)"
proof -
  let ?rs = "trace_steps (Steps c) s @ trace_finally (Finally c) (fst (run_steps (Steps c) s no_result))"
  have run: "RequeueAfter (fst (snd (Run c s))) = foldl shorter 0 (map RequeueAfter ?rs)"
    by (simp add: Run_def split_beta run_finally_result run_steps_result RequeueAfter_foldl_Merge)
  have waits: "{RequeueAfter r | r. 0 < RequeueAfter r \<and> r \<in> set ?rs} = {d \<in> set (map RequeueAfter ?rs). 0 < d}"
    by auto
  show ?thesis
    unfolding run Let_def waits by (rule foldl_shorter_Min)
qed

text \<open>
  C19. \<open>mapErr\<close> keeps what the controllers decide on: an error counts as failed in transit
  exactly when the call's status was Unavailable, Canceled or DeadlineExceeded, whatever
  the context, and as NotFound, exhausted or aborted exactly when the status said so.
\<close>

theorem mapErr_keeps_meaning:
  "(failedInTransit (mapErr1 ctx e) \<longleftrightarrow>
      (\<exists>m. e = Status c_Unavailable m \<or> e = Status c_Canceled m \<or> e = Status c_DeadlineExceeded m)) \<and>
   (errors_Is (mapErr1 ctx e) ErrNotFound \<longleftrightarrow> (\<exists>m. e = Status c_NotFound m)) \<and>
   (errors_Is (mapErr1 ctx e) ErrExhausted \<longleftrightarrow> (\<exists>m. e = Status c_ResourceExhausted m)) \<and>
   (errors_Is (mapErr1 ctx e) ErrAborted \<longleftrightarrow> (\<exists>m. e = Status c_Aborted m))"
  by (auto simp: mapErr1_def split: grpc_error.split grpc_code.split option.split)

text \<open>
  C20. A Pool's specification survives the trip over the wire: converted to battery's message
  and back it is the same, once a heartbeat setting that is not positive is read as unset.
\<close>

theorem spec_round_trip:
  "specFromProto z (specToProto p) =
     p\<lparr>ps_HeartbeatInterval := max 0 (ps_HeartbeatInterval p),
          ps_HeartbeatExpiryThreshold := max 0 (ps_HeartbeatExpiryThreshold p)\<rparr>"
  by (simp add: specFromProto_def specToProto_def)

end
