(* ===== verification/FakeEvents.thy ===== *)
theory FakeEvents
  imports BatteryClient "HOL-Library.AList"
begin

section \<open>The fake battery's event bus\<close>

text \<open>
  \<open>internal/fakebattery/events.go\<close>: the bus that delivers events to the open Subscribe
  streams and keeps the recent events of every Pool for new ones. A buffered channel is the
  list of the values in it, oldest first; a Go map is an association list, looked up with
  \<^const>\<open>map_of\<close>.

  \<open>keyOf\<close> and \<open>ref\<close> convert between the structs \<open>PoolRef\<close> and \<open>poolKey\<close>, which have the same
  two fields, so that a key is a \<open>PoolRef\<close> here.
\<close>

type_synonym poolKey = PoolRef

text \<open>A payload is kept as its keys and values; the code renders it to JSON.\<close>

datatype payload_value = PStr string | PInt int

record fake_event =
  fe_Id :: int
  fe_Pool :: poolKey
  fe_VmUid :: string
  fe_Type :: EventType
  fe_CreatedAt :: time
  fe_Payload :: "(string \<times> payload_value) list"

definition subscriberBuffer :: nat where "subscriberBuffer = 256"

record subscriber =
  sub_id :: int
  sub_filter :: "poolKey option"
  sub_ch :: "fake_event list"
  sub_dropped :: bool

record eventBus =
  bus_replay :: nat
  bus_recent :: "(poolKey \<times> fake_event list) list"
  bus_subs :: "(int \<times> subscriber) list"
  bus_nextSub :: int

definition newEventBus :: "nat \<Rightarrow> eventBus" where
  "newEventBus replay = \<lparr>bus_replay = replay, bus_recent = [], bus_subs = [], bus_nextSub = 0\<rparr>"

definition matches :: "subscriber \<Rightarrow> poolKey \<Rightarrow> bool" where
  "matches s key = (case sub_filter s of None \<Rightarrow> True | Some k \<Rightarrow> k = key)"

definition drop_sub :: "subscriber \<Rightarrow> subscriber" where
  "drop_sub s = s\<lparr>sub_dropped := True\<rparr>"

text \<open>A read of a key that a Go map of slices does not have gives the nil slice.\<close>

definition recent :: "eventBus \<Rightarrow> poolKey \<Rightarrow> fake_event list" where
  "recent e key = (case map_of (bus_recent e) key of None \<Rightarrow> [] | Some es \<Rightarrow> es)"

definition deliver :: "poolKey \<Rightarrow> fake_event \<Rightarrow> subscriber \<Rightarrow> subscriber" where
  "deliver key ev s =
     (if \<not> matches s key then s
      else if length (sub_ch s) < subscriberBuffer then s\<lparr>sub_ch := sub_ch s @ [ev]\<rparr>
      else drop_sub s)"

definition publish :: "poolKey \<Rightarrow> fake_event \<Rightarrow> eventBus \<Rightarrow> eventBus" where
  "publish key ev e =
     (let log = recent e key @ [ev];
          log' = (if length log > bus_replay e then drop (length log - bus_replay e) log else log)
      in e\<lparr>bus_recent := AList.update key log' (bus_recent e),
           bus_subs := map (\<lambda>(i, s). (i, deliver key ev s)) (bus_subs e)\<rparr>)"

text \<open>
  The backlog of a subscriber without a filter is the recent events of every Pool, Pool by
  Pool in the order in which the code ranges over its map, which is the argument \<open>order\<close>.
\<close>

definition subscribe ::
  "poolKey list \<Rightarrow> poolKey option \<Rightarrow> eventBus \<Rightarrow> (subscriber \<times> fake_event list) \<times> eventBus" where
  "subscribe order flt e =
     (let n = bus_nextSub e + 1;
          s = \<lparr>sub_id = n, sub_filter = flt, sub_ch = [], sub_dropped = False\<rparr>;
          backlog = (case flt of Some k \<Rightarrow> recent e k | None \<Rightarrow> concat (map (recent e) order))
      in ((s, backlog), e\<lparr>bus_nextSub := n, bus_subs := AList.update n s (bus_subs e)\<rparr>))"

definition unsubscribe :: "int \<Rightarrow> eventBus \<Rightarrow> eventBus" where
  "unsubscribe i e = e\<lparr>bus_subs := AList.delete i (bus_subs e)\<rparr>"

definition dropAll :: "eventBus \<Rightarrow> eventBus" where
  "dropAll e = e\<lparr>bus_subs := map (\<lambda>(i, s). (i, drop_sub s)) (bus_subs e)\<rparr>"

definition open_streams :: "eventBus \<Rightarrow> nat" where
  "open_streams e = length (bus_subs e)"

text \<open>
  One turn of the loop of \<open>eventsServer.Subscribe\<close> that finds an event in the channel: it
  sends the oldest one. A turn may also find the stream dropped, which ends it.
\<close>

definition receive :: "int \<Rightarrow> eventBus \<Rightarrow> (fake_event \<times> eventBus) option" where
  "receive i e =
     (case map_of (bus_subs e) i of
        None \<Rightarrow> None
      | Some s \<Rightarrow>
          (case sub_ch s of
             [] \<Rightarrow> None
           | ev # evs \<Rightarrow> Some (ev, e\<lparr>bus_subs := AList.update i (s\<lparr>sub_ch := evs\<rparr>) (bus_subs e)\<rparr>)))"

subsection \<open>No gaps\<close>

text \<open>
  What a stream is sent, over any sequence of publications and sends, is the events of its
  Pool in the order they were published, without a gap, until it is dropped.
\<close>

datatype bus_op =
  Publish poolKey fake_event | Receive int | Subscribe "poolKey list" "poolKey option" | Unsubscribe int | DropAll

text \<open>The bus after an operation, and the event it sent to a stream.\<close>

fun bus_step :: "bus_op \<Rightarrow> eventBus \<Rightarrow> eventBus \<times> (int \<times> fake_event) list" where
  "bus_step (Publish k ev) e = (publish k ev e, [])"
| "bus_step (Receive i) e = (case receive i e of None \<Rightarrow> (e, []) | Some (ev, e') \<Rightarrow> (e', [(i, ev)]))"
| "bus_step (Subscribe order flt) e = (snd (subscribe order flt e), [])"
| "bus_step (Unsubscribe i) e = (unsubscribe i e, [])"
| "bus_step DropAll e = (dropAll e, [])"

fun bus_run :: "bus_op list \<Rightarrow> eventBus \<Rightarrow> eventBus \<times> (int \<times> fake_event) list" where
  "bus_run [] e = (e, [])"
| "bus_run (x # xs) e = (case bus_step x e of (e1, out1) \<Rightarrow> case bus_run xs e1 of (e2, out2) \<Rightarrow> (e2, out1 @ out2))"

definition sent_to :: "int \<Rightarrow> (int \<times> fake_event) list \<Rightarrow> fake_event list" where
  "sent_to i out = map snd (filter (\<lambda>p. fst p = i) out)"

fun published_for :: "subscriber \<Rightarrow> bus_op list \<Rightarrow> fake_event list" where
  "published_for s [] = []"
| "published_for s (Publish k ev # xs) = (if matches s k then ev # published_for s xs else published_for s xs)"
| "published_for s (x # xs) = published_for s xs"

lemma sent_to_simps [simp]:
  "sent_to i [] = []" "sent_to i (xs @ ys) = sent_to i xs @ sent_to i ys"
  "sent_to i [(j, ev)] = (if j = i then [ev] else [])"
  by (auto simp: sent_to_def)

lemma map_of_map_snd: "map_of (map (\<lambda>(i, s). (i, f s)) xs) i = map_option f (map_of xs i)"
  by (induction xs) auto

lemma map_of_delete_Some: "map_of (AList.delete j xs) i = Some s \<Longrightarrow> map_of xs i = Some s"
  by (auto simp: delete_conv split: if_splits)

lemma deliver_kept:
  "\<not> sub_dropped (deliver k ev s) \<Longrightarrow>
   \<not> sub_dropped s \<and> sub_filter (deliver k ev s) = sub_filter s \<and>
   sub_ch (deliver k ev s) = sub_ch s @ (if matches s k then [ev] else [])"
  by (auto simp: deliver_def drop_sub_def split: if_splits)

lemma bus_step_nextSub: "bus_nextSub e \<le> bus_nextSub (fst (bus_step x e))"
  by (cases x) (auto simp: publish_def subscribe_def unsubscribe_def dropAll_def receive_def Let_def split: option.split list.split)

lemma bus_step_stream:
  assumes "map_of (bus_subs (fst (bus_step x e))) i = Some s'" "\<not> sub_dropped s'" "i \<le> bus_nextSub e"
  shows "\<exists>s. map_of (bus_subs e) i = Some s \<and> \<not> sub_dropped s \<and> sub_filter s = sub_filter s' \<and>
    sub_ch s @ published_for s [x] = sent_to i (snd (bus_step x e)) @ sub_ch s'"
proof (cases x)
  case (Publish k ev)
  then obtain s where "map_of (bus_subs e) i = Some s" "s' = deliver k ev s"
    using assms(1) by (auto simp: publish_def Let_def map_of_map_snd)
  then show ?thesis using Publish assms(2) deliver_kept [of k ev s] by auto
next
  case (Receive j)
  show ?thesis
  proof (cases "receive j e")
    case None
    then show ?thesis using assms Receive by auto
  next
    case (Some r)
    then show ?thesis
      using assms Receive
      by (auto simp: receive_def update_conv split: option.splits list.splits if_splits prod.splits)
  qed
next
  case (Subscribe order flt)
  then show ?thesis using assms by (auto simp: subscribe_def Let_def update_conv)
next
  case (Unsubscribe j)
  then show ?thesis using assms by (auto simp: unsubscribe_def dest: map_of_delete_Some)
next
  case DropAll
  then show ?thesis using assms by (auto simp: dropAll_def map_of_map_snd drop_sub_def)
qed

lemma published_for_append: "published_for s (xs @ ys) = published_for s xs @ published_for s ys"
  by (induction s xs rule: published_for.induct) auto

lemma published_for_cong: "sub_filter s = sub_filter s' \<Longrightarrow> published_for s xs = published_for s' xs"
  by (induction s xs rule: published_for.induct) (auto simp: matches_def)

lemma bus_run_stream:
  assumes "map_of (bus_subs (fst (bus_run xs e))) i = Some s'" "\<not> sub_dropped s'" "i \<le> bus_nextSub e"
  shows "\<exists>s. map_of (bus_subs e) i = Some s \<and> \<not> sub_dropped s \<and> sub_filter s = sub_filter s' \<and>
    sub_ch s @ published_for s xs = sent_to i (snd (bus_run xs e)) @ sub_ch s'"
  using assms
proof (induction xs arbitrary: e)
  case Nil
  then show ?case by auto
next
  case (Cons x xs)
  obtain e1 out1 where x: "bus_step x e = (e1, out1)" by (cases "bus_step x e")
  obtain e2 out2 where xs: "bus_run xs e1 = (e2, out2)" by (cases "bus_run xs e1")
  have "map_of (bus_subs (fst (bus_run xs e1))) i = Some s'" using Cons.prems(1) by (simp add: x xs)
  from Cons.IH [OF this Cons.prems(2)] bus_step_nextSub [of e x] Cons.prems(3) x obtain s1 where
    s1: "map_of (bus_subs e1) i = Some s1" "\<not> sub_dropped s1" "sub_filter s1 = sub_filter s'"
      "sub_ch s1 @ published_for s1 xs = sent_to i out2 @ sub_ch s'" by (auto simp: xs)
  have "map_of (bus_subs (fst (bus_step x e))) i = Some s1" using s1(1) x by simp
  from bus_step_stream [OF this s1(2) Cons.prems(3)] obtain s where
    s: "map_of (bus_subs e) i = Some s" "\<not> sub_dropped s" "sub_filter s = sub_filter s1"
      "sub_ch s @ published_for s [x] = sent_to i out1 @ sub_ch s1" by (auto simp: x)
  have "sub_ch s @ published_for s (x # xs) = sub_ch s @ published_for s [x] @ published_for s1 xs"
    using published_for_append [of s "[x]" xs] published_for_cong [OF s(3)] by simp
  also have "\<dots> = (sent_to i out1 @ sub_ch s1) @ published_for s1 xs"
    using s(4) by (metis append_assoc)
  also have "\<dots> = sent_to i (out1 @ out2) @ sub_ch s'" using s1(4) by simp
  finally show ?case using s s1(3) by (simp add: x xs)
qed

text \<open>The recent events of a Pool are the last of those published for it.\<close>

lemma recent_publish:
  "recent (publish k ev e) k' =
     (if k' = k then drop (length (recent e k) + 1 - bus_replay e) (recent e k @ [ev]) else recent e k')"
  by (auto simp: recent_def publish_def Let_def update_conv split: option.splits)

end
