(* ===== verification/FakeState.thy ===== *)
theory FakeState
  imports FakeEvents
begin

section \<open>The fake battery's state\<close>

text \<open>
  \<open>internal/fakebattery/state.go\<close>, \<open>hosts.go\<close> and the types of \<open>battery.go\<close>. The maps of the
  struct \<open>Battery\<close> are association lists with distinct keys. The order of such a list means
  nothing: a loop whose result depends on the order in which Go ranges over a map takes
  that order as an argument. A pointer to a \<open>vmState\<close> is the MicroVM's \<open>id\<close>, which is never used
  again. A pointer to a \<open>poolState\<close> is a number, and \<open>fk_heap\<close> is what it points to: a ClaimVM
  in flight keeps the pointer it has read, also when the Pool is deleted and another of the
  same name is created.

  Every operation is a sequence of critical sections, each under \<open>b.mu\<close>, and calls to a Host
  between them. One definition is one critical section, on the state as it is when the lock
  is taken; the instant \<open>now\<close> stands for the clock, which is read inside it. Counters of
  type \<open>int32\<close> and \<open>int64\<close> are integers: they count MicroVMs and events.
\<close>

datatype VMPhase =
  PROVISIONING | CREATE_HOOK_RUNNING | AVAILABLE | PRE_LEASE_HOOK_RUNNING | LEASED
| QUARANTINED | DELETING | FAILED

datatype HookKind = HookCreate | HookPreLease

datatype Placement = PlacementLeastVMs | PlacementRoundRobin

record poolState =
  pl_key :: poolKey
  pl_spec :: PoolSpec
  pl_nextEvent :: int
  pl_rr :: nat
  pl_fresh :: bool
  pl_reconciler :: "nat option" \<comment> \<open>the context of the Pool's provisioning\<close>
  pl_warned :: "string \<rightharpoonup> time"

record vmState =
  vm_id :: int
  vm_uid :: string
  vm_pool :: poolKey
  vm_host :: string
  vm_phase :: VMPhase
  vm_leaseID :: string
  vm_createPolicy :: HookFailurePolicy
  vm_deleteEvent :: "EventType option" \<comment> \<open>None is the zero that stands for no event\<close>
  vm_deleteInFlight :: bool
  vm_released :: bool
  vm_createdAt :: time
  vm_updated :: time

record HookFailure =
  hf_Pool :: PoolRef
  hf_Hook :: HookKind
  hf_Remaining :: int

record Faults =
  ClaimLatency :: duration
  UnavailableFor :: duration
  HookFailures :: "HookFailure list"
  DropEventsStream :: bool
  RefuseHeartbeats :: bool

subsection \<open>Hosts\<close>

record HostTLS =
  tls_Insecure :: bool
  tls_CertFile :: string
  tls_KeyFile :: string
  tls_CaFile :: string

text \<open>Of a Host's connection only whether there is one matters to the registry.\<close>

record host =
  h_name :: string
  h_address :: string
  h_tls :: "HostTLS option"
  h_cordoned :: bool
  h_cordonedReason :: string
  h_cordonedAt :: time
  h_updatedAt :: time
  h_connected :: bool
  h_dials :: int

type_synonym Hosts = "(string \<times> host) list"

definition newHost :: "string \<Rightarrow> host" where
  "newHost name = \<lparr>h_name = name, h_address = [], h_tls = None, h_cordoned = False, h_cordonedReason = [],
     h_cordonedAt = 0, h_updatedAt = 0, h_connected = False, h_dials = 0\<rparr>"

definition Hosts_Add :: "string \<Rightarrow> string \<Rightarrow> bool \<Rightarrow> Hosts \<Rightarrow> Hosts" where
  "Hosts_Add name address conn hs =
     (let e = (case map_of hs name of None \<Rightarrow> newHost name | Some e \<Rightarrow> e)
      in AList.update name (e\<lparr>h_address := address, h_connected := conn\<rparr>) hs)"

definition Hosts_Remove :: "string \<Rightarrow> Hosts \<Rightarrow> Hosts" where
  "Hosts_Remove name hs = AList.delete name hs"

definition SetCordoned :: "time \<Rightarrow> string \<Rightarrow> bool \<Rightarrow> string \<Rightarrow> Hosts \<Rightarrow> bool \<times> Hosts" where
  "SetCordoned wallNow name cordoned reason hs =
     (case map_of hs name of
        None \<Rightarrow> (False, hs)
      | Some e \<Rightarrow>
          (True, AList.update name
             (if cordoned
              then e\<lparr>h_cordoned := True, h_cordonedReason := reason, h_cordonedAt := wallNow\<rparr>
              else e\<lparr>h_cordoned := False, h_cordonedReason := [], h_cordonedAt := 0\<rparr>) hs))"

definition held :: "Hosts \<Rightarrow> string \<Rightarrow> bool" where
  "held hs name \<longleftrightarrow> map_of hs name \<noteq> None"

definition eligible :: "Hosts \<Rightarrow> string \<Rightarrow> bool" where
  "eligible hs name = (case map_of hs name of None \<Rightarrow> False | Some e \<Rightarrow> \<not> h_cordoned e)"

text \<open>\<open>get\<close> gives the Host with its clients, or \<open>errUnknownHost\<close>.\<close>

definition Hosts_get :: "Hosts \<Rightarrow> string \<Rightarrow> host option" where
  "Hosts_get hs name =
     (case map_of hs name of None \<Rightarrow> None | Some e \<Rightarrow> if h_connected e then Some e else None)"

subsection \<open>The struct Battery\<close>

text \<open>
  A goroutine that works on a MicroVM is a task, with what it will do next. \<open>provision\<close> is
  four of them, each ending where the code waits for a Host; a deletion is two, and a
  ClaimVM that runs its pre-lease hooks is one. A task holds the pointer to its MicroVM: the
  id, and the two fields that are never written again, the Pool and the Host.
\<close>

type_synonym vm_ptr = "int \<times> poolKey \<times> string"

datatype task =
  ProvStart nat vm_ptr \<comment> \<open>the context of \<open>provision\<close> and its MicroVM\<close>
| ProvCreate nat vm_ptr "string list" \<comment> \<open>CreateMicroVM is on the Host; with the create hooks\<close>
| ProvWait nat vm_ptr "string list" \<comment> \<open>waiting for CREATED\<close>
| ProvHooks nat vm_ptr "string list" \<comment> \<open>running the create hooks\<close>
| DelStart int "EventType option" \<comment> \<open>\<open>deleteVM\<close> before it takes the lock\<close>
| DelHost int string string \<comment> \<open>DeleteMicroVM of a uid is on a Host\<close>
| ClaimHooks string nat vm_ptr "string list" \<comment> \<open>ClaimVM with a request id, for a Pool, runs the pre-lease hooks\<close>

record fake =
  fk_placement :: Placement
  fk_hosts :: Hosts
  fk_faults :: Faults
  fk_unavailableUntil :: time \<comment> \<open>0 is the zero time\<close>
  fk_pools :: "(poolKey \<times> nat) list"
  fk_heap :: "nat \<Rightarrow> poolState"
  fk_nextPool :: nat
  fk_vms :: "(int \<times> vmState) list"
  fk_vmByUID :: "string \<rightharpoonup> int"
  fk_leases :: "(string \<times> LeaseRecord) list"
  fk_nextVM :: int
  fk_started :: bool
  fk_running :: bool \<comment> \<open>\<open>runCtx\<close> is set and not done\<close>
  fk_stopped :: bool
  fk_events :: eventBus
  fk_kicked :: bool
  fk_nextCtx :: nat
  fk_stoppedCtx :: "nat list" \<comment> \<open>the contexts that \<open>stopReconcilerLocked\<close> cancelled\<close>
  fk_tasks :: "task list"

definition no_faults :: Faults where
  "no_faults = \<lparr>ClaimLatency = 0, UnavailableFor = 0, HookFailures = [], DropEventsStream = False,
     RefuseHeartbeats = False\<rparr>"

definition zero_spec :: PoolSpec where
  "zero_spec = \<lparr>ps_Ref = \<lparr>ref_Name = [], ref_Namespace = []\<rparr>, ps_Template = None, ps_Size = 0,
     ps_FlintlockHosts = [], ps_Replenishment = \<lparr>rs_Type = IMMEDIATE_ON_LEASE, rs_MinSize = None\<rparr>,
     ps_CreateCommands = [], ps_PreLeaseCommands = [], ps_HookFailurePolicy = DELETE_AND_REPLACE,
     ps_HeartbeatInterval = 0, ps_HeartbeatExpiryThreshold = 0\<rparr>"

definition new_pool :: "PoolSpec \<Rightarrow> poolState" where
  "new_pool p = \<lparr>pl_key = ps_Ref p, pl_spec = p, pl_nextEvent = 0, pl_rr = 0, pl_fresh = True,
     pl_reconciler = None, pl_warned = Map.empty\<rparr>"

definition New_fake :: "Placement \<Rightarrow> Hosts \<Rightarrow> nat \<Rightarrow> fake" where
  "New_fake placement hosts replay =
     \<lparr>fk_placement = placement, fk_hosts = hosts, fk_faults = no_faults, fk_unavailableUntil = 0, fk_pools = [],
      fk_heap = (\<lambda>_. new_pool zero_spec), fk_nextPool = 0, fk_vms = [], fk_vmByUID = Map.empty, fk_leases = [],
      fk_nextVM = 0, fk_started = False, fk_running = False, fk_stopped = False,
      fk_events = newEventBus (if replay = 0 then 100 else replay), fk_kicked = False, fk_nextCtx = 0,
      fk_stoppedCtx = [], fk_tasks = []\<rparr>"

text \<open>\<open>b.pools[key]\<close>: the pointer, None when there is no such Pool.\<close>

abbreviation pool_of :: "fake \<Rightarrow> poolKey \<Rightarrow> nat option" where
  "pool_of b \<equiv> map_of (fk_pools b)"

abbreviation pool_at :: "fake \<Rightarrow> nat \<Rightarrow> poolState" where
  "pool_at b \<equiv> fk_heap b"

abbreviation vm_of :: "fake \<Rightarrow> int \<Rightarrow> vmState option" where
  "vm_of b \<equiv> map_of (fk_vms b)"

abbreviation lease_of :: "fake \<Rightarrow> string \<Rightarrow> LeaseRecord option" where
  "lease_of b \<equiv> map_of (fk_leases b)"

text \<open>\<open>b.vmByUID[uid]\<close>, nil when there is none.\<close>

definition vmByUID :: "fake \<Rightarrow> string \<Rightarrow> vmState option" where
  "vmByUID b uid = Option.bind (fk_vmByUID b uid) (vm_of b)"

definition upd_vm :: "int \<Rightarrow> (vmState \<Rightarrow> vmState) \<Rightarrow> fake \<Rightarrow> fake" where
  "upd_vm i f b = b\<lparr>fk_vms := AList.map_entry i f (fk_vms b)\<rparr>"

definition upd_pool :: "nat \<Rightarrow> (poolState \<Rightarrow> poolState) \<Rightarrow> fake \<Rightarrow> fake" where
  "upd_pool p f b = b\<lparr>fk_heap := (fk_heap b)(p := f (fk_heap b p))\<rparr>"

definition spawn :: "task list \<Rightarrow> fake \<Rightarrow> fake" where
  "spawn ts b = b\<lparr>fk_tasks := fk_tasks b @ ts\<rparr>"

definition kickReconcile :: "fake \<Rightarrow> fake" where
  "kickReconcile b = b\<lparr>fk_kicked := True\<rparr>"

definition dropLeaseLocked :: "string \<Rightarrow> fake \<Rightarrow> fake" where
  "dropLeaseLocked leaseID b =
     (case lease_of b leaseID of
        None \<Rightarrow> b
      | Some ls \<Rightarrow>
          (let b1 = b\<lparr>fk_leases := AList.delete leaseID (fk_leases b)\<rparr>
           in case pool_of b1 (lr_Pool ls) of
                None \<Rightarrow> b1
              | Some p \<Rightarrow> upd_pool p (\<lambda>ps. ps\<lparr>pl_warned := (pl_warned ps)(leaseID := None)\<rparr>) b1))"

record counts =
  c_available :: int
  c_leased :: int
  c_provisioning :: int
  c_quarantined :: int
  c_deleting :: int

definition counts_status :: "counts \<Rightarrow> PoolStatus" where
  "counts_status c = \<lparr>st_Available = c_available c, st_Leased = c_leased c,
     st_Provisioning = c_provisioning c, st_Quarantined = c_quarantined c\<rparr>"

fun count_vm :: "VMPhase \<Rightarrow> counts \<Rightarrow> counts" where
  "count_vm AVAILABLE c = c\<lparr>c_available := c_available c + 1\<rparr>"
| "count_vm LEASED c = c\<lparr>c_leased := c_leased c + 1\<rparr>"
| "count_vm PRE_LEASE_HOOK_RUNNING c = c\<lparr>c_leased := c_leased c + 1\<rparr>"
| "count_vm PROVISIONING c = c\<lparr>c_provisioning := c_provisioning c + 1\<rparr>"
| "count_vm CREATE_HOOK_RUNNING c = c\<lparr>c_provisioning := c_provisioning c + 1\<rparr>"
| "count_vm QUARANTINED c = c\<lparr>c_quarantined := c_quarantined c + 1\<rparr>"
| "count_vm DELETING c = c\<lparr>c_deleting := c_deleting c + 1\<rparr>"
| "count_vm FAILED c = c"

definition countsLocked :: "poolKey \<Rightarrow> fake \<Rightarrow> counts" where
  "countsLocked key b =
     foldl (\<lambda>c (i, vm). if vm_pool vm \<noteq> key then c else count_vm (vm_phase vm) c)
       \<lparr>c_available = 0, c_leased = 0, c_provisioning = 0, c_quarantined = 0, c_deleting = 0\<rparr> (fk_vms b)"

definition poolLocked :: "PoolRef \<Rightarrow> fake \<Rightarrow> grpc_error + nat" where
  "poolLocked ref b =
     (case pool_of b ref of
        None \<Rightarrow> Inl (Status c_NotFound (''pool '' @ PoolRef_String ref @ '' not found''))
      | Some p \<Rightarrow> Inr p)"

definition aliveLocked :: "int \<Rightarrow> fake \<Rightarrow> bool" where
  "aliveLocked i b = (case vm_of b i of None \<Rightarrow> False | Some vm \<Rightarrow> pool_of b (vm_pool vm) \<noteq> None)"

definition older :: "vmState \<Rightarrow> vmState \<Rightarrow> bool" where
  "older x y \<longleftrightarrow> vm_updated x < vm_updated y \<or> vm_updated x = vm_updated y \<and> vm_id x < vm_id y"

definition oldestAvailableLocked :: "poolKey \<Rightarrow> fake \<Rightarrow> vmState option" where
  "oldestAvailableLocked key b =
     foldl (\<lambda>best (i, vm).
         if vm_pool vm \<noteq> key \<or> vm_phase vm \<noteq> AVAILABLE then best
         else case best of None \<Rightarrow> Some vm | Some x \<Rightarrow> if older vm x then Some vm else best)
       None (fk_vms b)"

text \<open>The MicroVMs of a Pool on a Host that are not DELETING or FAILED: \<open>perHost[h]\<close>.\<close>

definition perHost :: "poolKey \<Rightarrow> fake \<Rightarrow> string \<Rightarrow> nat" where
  "perHost key b h =
     length (filter (\<lambda>(i, vm). vm_pool vm = key \<and> vm_phase vm \<noteq> DELETING \<and> vm_phase vm \<noteq> FAILED \<and> vm_host vm = h)
               (fk_vms b))"

text \<open>
  \<open>pickHostLocked\<close> answers the Host, or None when there is no candidate, and the Pool with its
  cursor moved.
\<close>

definition pickHostLocked :: "poolState \<Rightarrow> fake \<Rightarrow> string option \<times> poolState" where
  "pickHostLocked ps b =
     (case filter (eligible (fk_hosts b)) (ps_FlintlockHosts (pl_spec ps)) of
        [] \<Rightarrow> (None, ps)
      | c # cs \<Rightarrow>
          (case fk_placement b of
             PlacementRoundRobin \<Rightarrow>
               (Some ((c # cs) ! (pl_rr ps mod length (c # cs))), ps\<lparr>pl_rr := pl_rr ps + 1\<rparr>)
           | PlacementLeastVMs \<Rightarrow>
               (Some (foldl (\<lambda>best h. if perHost (pl_key ps) b h < perHost (pl_key ps) b best then h else best) c cs), ps)))"

text \<open>\<open>emitLocked\<close>: an event of a Pool the fake holds, with the Pool's next id.\<close>

definition emitLocked ::
  "time \<Rightarrow> poolKey \<Rightarrow> string \<Rightarrow> EventType \<Rightarrow> (string \<times> payload_value) list \<Rightarrow> fake \<Rightarrow> fake" where
  "emitLocked now key vmUID typ payload b =
     (case pool_of b key of
        None \<Rightarrow> b
      | Some p \<Rightarrow>
          (let n = pl_nextEvent (pool_at b p) + 1;
               ev = \<lparr>fe_Id = n, fe_Pool = key, fe_VmUid = vmUID, fe_Type = typ, fe_CreatedAt = now, fe_Payload = payload\<rparr>
           in upd_pool p (\<lambda>ps. ps\<lparr>pl_nextEvent := n\<rparr>) (b\<lparr>fk_events := publish key ev (fk_events b)\<rparr>)))"

definition setPhaseLocked :: "time \<Rightarrow> int \<Rightarrow> VMPhase \<Rightarrow> fake \<Rightarrow> fake" where
  "setPhaseLocked now i phase b = upd_vm i (\<lambda>vm. vm\<lparr>vm_phase := phase, vm_updated := now\<rparr>) b"

text \<open>
  \<open>reconcilerLocked\<close> gives the context the Pool's provisioning runs under, a new one if it has
  none; \<open>stopReconcilerLocked\<close> cancels it. Once the control loop's own context is done, the
  cancellation comes too late to be the cause.
\<close>

definition reconcilerLocked :: "nat \<Rightarrow> fake \<Rightarrow> nat \<times> fake" where
  "reconcilerLocked p b =
     (case pl_reconciler (pool_at b p) of
        Some ctx \<Rightarrow> (ctx, b)
      | None \<Rightarrow> (fk_nextCtx b,
                 upd_pool p (\<lambda>ps. ps\<lparr>pl_reconciler := Some (fk_nextCtx b)\<rparr>) (b\<lparr>fk_nextCtx := fk_nextCtx b + 1\<rparr>)))"

definition stopReconcilerLocked :: "nat \<Rightarrow> fake \<Rightarrow> fake" where
  "stopReconcilerLocked p b =
     (case pl_reconciler (pool_at b p) of
        None \<Rightarrow> b
      | Some ctx \<Rightarrow>
          upd_pool p (\<lambda>ps. ps\<lparr>pl_reconciler := None\<rparr>)
            (if fk_running b then b\<lparr>fk_stoppedCtx := ctx # fk_stoppedCtx b\<rparr> else b))"

definition reconcilerStopped :: "nat \<Rightarrow> fake \<Rightarrow> bool" where
  "reconcilerStopped ctx b \<longleftrightarrow> ctx \<in> set (fk_stoppedCtx b)"

end
