(* ===== verification/FakeReconcile.thy ===== *)
theory FakeReconcile
  imports FakeState
begin

section \<open>The fake battery's control loop and provisioning\<close>

text \<open>
  \<open>internal/fakebattery/reconcile.go\<close> and \<open>hooks.go\<close>: the replenishment strategies, the
  provisioning and the deletion of a MicroVM, and the tick. What a Host answers is an
  argument of the critical section that follows the call. A payload keeps an instant as it
  is; the code prints it.
\<close>

subsection \<open>Strategies\<close>

record strategy =
  sg_typ :: ReplenishmentStrategyType
  sg_size :: int
  sg_minSize :: int

definition strategyOf :: "PoolSpec \<Rightarrow> strategy" where
  "strategyOf spec =
     \<lparr>sg_typ = rs_Type (ps_Replenishment spec), sg_size = ps_Size spec,
      sg_minSize = (case rs_MinSize (ps_Replenishment spec) of None \<Rightarrow> 0 | Some m \<Rightarrow> m)\<rparr>"

definition onClaimed :: "strategy \<Rightarrow> nat" where
  "onClaimed s = (if sg_typ s = IMMEDIATE_ON_LEASE then 1 else 0)"

definition onDeleted :: "strategy \<Rightarrow> nat" where
  "onDeleted s = (if sg_typ s = REPLACE_ON_DELETE then 1 else 0)"

definition tickDeficit :: "strategy \<Rightarrow> counts \<Rightarrow> nat" where
  "tickDeficit s c =
     (case sg_typ s of
        IMMEDIATE_ON_LEASE \<Rightarrow> nat (sg_size s - (c_available c + c_provisioning c))
      | MIN_SIZE_THRESHOLD \<Rightarrow>
          if c_available c \<ge> sg_minSize s then 0
          else nat (sg_size s - (c_available c + c_leased c + c_provisioning c))
      | REPLACE_ON_DELETE \<Rightarrow>
          nat (sg_size s - (c_available c + c_leased c + c_provisioning c + c_deleting c))
      | ReplenishmentUnknown _ \<Rightarrow> 0)"

definition warningWindow :: "PoolSpec \<Rightarrow> duration" where
  "warningWindow spec =
     (if ps_HeartbeatInterval spec > 0 then ps_HeartbeatInterval spec else ps_HeartbeatExpiryThreshold spec div 2)"

subsection \<open>Reserving MicroVMs\<close>

definition newVM :: "time \<Rightarrow> int \<Rightarrow> poolKey \<Rightarrow> string \<Rightarrow> HookFailurePolicy \<Rightarrow> vmState" where
  "newVM now i key h policy =
     \<lparr>vm_id = i, vm_uid = [], vm_pool = key, vm_host = h, vm_phase = PROVISIONING, vm_leaseID = [],
      vm_createPolicy = policy, vm_deleteEvent = None, vm_deleteInFlight = False, vm_released = False,
      vm_createdAt = now, vm_updated = now\<rparr>"

text \<open>The loop of \<open>provisionNLocked\<close>, which ends early when no Host can be picked.\<close>

fun reserve :: "time \<Rightarrow> nat \<Rightarrow> nat \<Rightarrow> fake \<Rightarrow> vm_ptr list \<times> fake" where
  "reserve now p 0 b = ([], b)"
| "reserve now p (Suc n) b =
     (case pickHostLocked (pool_at b p) b of
        (None, _) \<Rightarrow> ([], b)
      | (Some h, ps') \<Rightarrow>
          (let i = fk_nextVM b + 1; key = pl_key ps';
               b1 = upd_pool p (\<lambda>_. ps')
                      (b\<lparr>fk_nextVM := i,
                         fk_vms := AList.update i (newVM now i key h (ps_HookFailurePolicy (pl_spec ps'))) (fk_vms b)\<rparr>)
           in case reserve now p n b1 of (vs, b2) \<Rightarrow> ((i, key, h) # vs, b2)))"

definition provisionNLocked :: "time \<Rightarrow> nat \<Rightarrow> nat \<Rightarrow> string \<Rightarrow> fake \<Rightarrow> fake" where
  "provisionNLocked now p n reason b =
     (if n = 0 \<or> fk_stopped b \<or> \<not> fk_running b then b
      else case reserve now p n b of (reserved, b1) \<Rightarrow>
        if reserved = [] then b1
        else
          (let b2 = emitLocked now (pl_key (pool_at b1 p)) [] POOL_REPLENISHING
                      [(''count'', PInt (int (length reserved))), (''reason'', PStr reason)] b1
           in case reconcilerLocked p b2 of (ctx, b3) \<Rightarrow> spawn (map (ProvStart ctx) reserved) b3))"

subsection \<open>Deleting a MicroVM\<close>

definition finishDeletionLocked :: "time \<Rightarrow> int \<Rightarrow> fake \<Rightarrow> fake" where
  "finishDeletionLocked now i b =
     (case vm_of b i of
        None \<Rightarrow> b
      | Some vm \<Rightarrow>
          (let b1 = b\<lparr>fk_vms := AList.delete i (fk_vms b),
                      fk_vmByUID := (if vm_uid vm \<noteq> [] then (fk_vmByUID b)(vm_uid vm := None) else fk_vmByUID b)\<rparr>;
               b2 = (if vm_leaseID vm \<noteq> [] then dropLeaseLocked (vm_leaseID vm) b1 else b1);
               payload = (''host'', PStr (vm_host vm)) #
                         (if vm_leaseID vm \<noteq> [] then [(''lease_id'', PStr (vm_leaseID vm))] else [])
           in case pool_of b2 (vm_pool vm) of
                None \<Rightarrow> b2
              | Some p \<Rightarrow>
                  (let b3 = (case vm_deleteEvent vm of
                               None \<Rightarrow> b2
                             | Some e \<Rightarrow> emitLocked now (vm_pool vm) (vm_uid vm) e payload b2)
                   in provisionNLocked now p (onDeleted (strategyOf (pl_spec (pool_at b3 p)))) ''vm deleted'' b3)))"

text \<open>
  The two halves of \<open>deleteVM\<close>: up to the call to the Host, and after it. The first says
  whether the MicroVM is gone already, or a deletion is in flight, or what to call.
\<close>

datatype deletion = DeletionDone | DeletionInFlight | DeletionOnHost string string

definition deleteVM_begin :: "time \<Rightarrow> int \<Rightarrow> EventType option \<Rightarrow> fake \<Rightarrow> deletion \<times> fake" where
  "deleteVM_begin now i event b =
     (case vm_of b i of
        None \<Rightarrow> (DeletionDone, b)
      | Some vm \<Rightarrow>
          (let b1 = upd_vm i (\<lambda>vm. vm\<lparr>vm_phase := DELETING, vm_updated := now,
                      vm_deleteEvent := (case event of None \<Rightarrow> vm_deleteEvent vm | Some e \<Rightarrow> Some e)\<rparr>) b
           in if vm_deleteInFlight vm then (DeletionInFlight, b1)
              else (DeletionOnHost (vm_host vm) (vm_uid vm), upd_vm i (\<lambda>vm. vm\<lparr>vm_deleteInFlight := True\<rparr>) b1)))"

text \<open>
  \<open>deleteOnHost\<close>: whether the deletion is confirmed. \<open>said\<close> is what the Host says, where a
  MicroVM it no longer knows counts as deleted.
\<close>

definition deleteOnHost :: "Hosts \<Rightarrow> string \<Rightarrow> string \<Rightarrow> bool \<Rightarrow> bool" where
  "deleteOnHost hs h uid said =
     (if uid = [] then True else case Hosts_get hs h of None \<Rightarrow> False | Some _ \<Rightarrow> said)"

definition deleteVM_end :: "time \<Rightarrow> int \<Rightarrow> bool \<Rightarrow> fake \<Rightarrow> fake" where
  "deleteVM_end now i confirmed b =
     (let b1 = upd_vm i (\<lambda>vm. vm\<lparr>vm_deleteInFlight := False\<rparr>) b
      in if confirmed then finishDeletionLocked now i b1 else b1)"

subsection \<open>Hooks\<close>

definition zero_ref :: PoolRef where "zero_ref = \<lparr>ref_Name = [], ref_Namespace = []\<rparr>"

fun consume :: "poolKey \<Rightarrow> HookKind \<Rightarrow> HookFailure list \<Rightarrow> bool \<times> HookFailure list" where
  "consume key kind [] = (False, [])"
| "consume key kind (hf # hfs) =
     (if hf_Hook hf \<noteq> kind \<or> hf_Remaining hf \<le> 0 \<or> (hf_Pool hf \<noteq> zero_ref \<and> hf_Pool hf \<noteq> key)
      then (case consume key kind hfs of (r, hfs') \<Rightarrow> (r, hf # hfs'))
      else if hf_Remaining hf - 1 = 0 then (True, hfs)
      else (True, hf\<lparr>hf_Remaining := hf_Remaining hf - 1\<rparr> # hfs))"

definition consumeHookFailure :: "poolKey \<Rightarrow> HookKind \<Rightarrow> fake \<Rightarrow> bool \<times> fake" where
  "consumeHookFailure key kind b =
     (case consume key kind (HookFailures (fk_faults b)) of (r, hfs) \<Rightarrow>
        (r, b\<lparr>fk_faults := (fk_faults b)\<lparr>HookFailures := hfs\<rparr>\<rparr>))"

text \<open>
  The rest of \<open>runHooks\<close>, after the injected failures: the error of the commands on the
  Host, if there are any commands. \<open>said\<close> is the error the Host's guest gives.
\<close>

definition runHooks_result :: "Hosts \<Rightarrow> string \<Rightarrow> string list \<Rightarrow> string option \<Rightarrow> string option" where
  "runHooks_result hs h cmds said =
     (if cmds = [] then None
      else case Hosts_get hs h of None \<Rightarrow> Some ''unknown host'' | Some _ \<Rightarrow> said)"

fun HookKind_String :: "HookKind \<Rightarrow> string" where
  "HookKind_String HookCreate = ''create''"
| "HookKind_String HookPreLease = ''pre_lease''"

fun policy_String :: "HookFailurePolicy \<Rightarrow> string" where
  "policy_String DELETE_AND_REPLACE = ''DELETE_AND_REPLACE''"
| "policy_String QUARANTINE = ''QUARANTINE''"
| "policy_String (HookPolicyUnknown i) = show_int i"

definition applyHookFailurePolicy :: "time \<Rightarrow> int \<Rightarrow> HookKind \<Rightarrow> string \<Rightarrow> fake \<Rightarrow> fake" where
  "applyHookFailurePolicy now i hook cause b =
     (case vm_of b i of
        None \<Rightarrow> b
      | Some vm \<Rightarrow>
          (case pool_of b (vm_pool vm) of
             None \<Rightarrow> b
           | Some p \<Rightarrow>
               (let policy = (if hook = HookCreate then vm_createPolicy vm
                              else ps_HookFailurePolicy (pl_spec (pool_at b p)));
                    b1 = upd_vm i (\<lambda>vm. vm\<lparr>vm_leaseID := []\<rparr>) b;
                    b2 = emitLocked now (vm_pool vm) (vm_uid vm) VM_HOOK_FAILED
                           [(''hook'', PStr (HookKind_String hook)), (''error'', PStr cause),
                            (''policy'', PStr (policy_String policy))] b1
                in if policy = QUARANTINE then setPhaseLocked now i QUARANTINED b2
                   else spawn [DelStart i None] (setPhaseLocked now i DELETING b2))))"

subsection \<open>Provisioning\<close>

definition dropReserved :: "int \<Rightarrow> fake \<Rightarrow> fake" where
  "dropReserved i b = b\<lparr>fk_vms := AList.delete i (fk_vms b)\<rparr>"

definition provision_start :: "nat \<Rightarrow> vm_ptr \<Rightarrow> fake \<Rightarrow> fake" where
  "provision_start ctx v b =
     (case v of (i, key, h) \<Rightarrow>
        case Hosts_get (fk_hosts b) h of
          None \<Rightarrow> dropReserved i b
        | Some _ \<Rightarrow>
            (case pool_of b key of
               None \<Rightarrow> dropReserved i b
             | Some p \<Rightarrow> spawn [ProvCreate ctx v (ps_CreateCommands (pl_spec (pool_at b p)))] b))"

text \<open>
  After CreateMicroVM: \<open>uid\<close> is the new MicroVM's, or None when the call failed. A MicroVM
  whose record has gone is deleted on the Host, which changes nothing here.
\<close>

definition provision_created :: "time \<Rightarrow> nat \<Rightarrow> vm_ptr \<Rightarrow> string list \<Rightarrow> string option \<Rightarrow> fake \<Rightarrow> fake" where
  "provision_created now ctx v cmds created b =
     (case v of (i, key, h) \<Rightarrow>
        case created of
          None \<Rightarrow> dropReserved i b
        | Some uid \<Rightarrow>
            if uid = [] then dropReserved i b
            else if \<not> aliveLocked i b then b
            else
              (let b1 = emitLocked now key uid VM_PROVISIONED [(''host'', PStr h)]
                          (upd_vm i (\<lambda>vm. vm\<lparr>vm_uid := uid, vm_updated := now\<rparr>)
                             (b\<lparr>fk_vmByUID := (fk_vmByUID b)(uid \<mapsto> i)\<rparr>))
               in if reconcilerStopped ctx b1
                  then applyHookFailurePolicy now i HookCreate
                         ''fake battery: pool reconciler stopped by UpdatePool'' b1
                  else if \<not> fk_running b1 then b1
                  else spawn [ProvWait ctx v cmds] b1))"

text \<open>After the wait for CREATED, which fails with an error or not at all; then the hooks begin.\<close>

definition provision_waited :: "time \<Rightarrow> nat \<Rightarrow> vm_ptr \<Rightarrow> string list \<Rightarrow> string option \<Rightarrow> fake \<Rightarrow> fake" where
  "provision_waited now ctx v cmds failed b =
     (case v of (i, key, h) \<Rightarrow>
        case failed of
          Some cause \<Rightarrow> applyHookFailurePolicy now i HookCreate cause b
        | None \<Rightarrow>
            if \<not> aliveLocked i b then b
            else
              (case consumeHookFailure key HookCreate (setPhaseLocked now i CREATE_HOOK_RUNNING b) of
                 (True, b1) \<Rightarrow> applyHookFailurePolicy now i HookCreate ''fault injection: create hook failed'' b1
               | (False, b1) \<Rightarrow> spawn [ProvHooks ctx v cmds] b1))"

definition provision_hooked :: "time \<Rightarrow> nat \<Rightarrow> vm_ptr \<Rightarrow> string list \<Rightarrow> string option \<Rightarrow> fake \<Rightarrow> fake" where
  "provision_hooked now ctx v cmds said b =
     (case v of (i, key, h) \<Rightarrow>
        case runHooks_result (fk_hosts b) h cmds said of
          Some cause \<Rightarrow> applyHookFailurePolicy now i HookCreate cause b
        | None \<Rightarrow>
            if reconcilerStopped ctx b
            then applyHookFailurePolicy now i HookCreate
                   ''fake battery: pool reconciler stopped by UpdatePool'' b
            else
              (case vm_of b i of
                 None \<Rightarrow> b
               | Some vm \<Rightarrow>
                   if \<not> aliveLocked i b then b
                   else emitLocked now key (vm_uid vm) VM_AVAILABLE [(''host'', PStr h)]
                          (setPhaseLocked now i AVAILABLE b)))"

subsection \<open>The tick\<close>

text \<open>One Lease of the tick's first loop; the second component collects the expired MicroVMs.\<close>

definition tick_lease :: "time \<Rightarrow> string \<Rightarrow> fake \<times> int list \<Rightarrow> fake \<times> int list" where
  "tick_lease now lid st =
     (case st of (b, expired) \<Rightarrow>
        case lease_of b lid of
          None \<Rightarrow> (b, expired)
        | Some ls \<Rightarrow>
            (case pool_of b (lr_Pool ls) of
               None \<Rightarrow> (b, expired)
             | Some p \<Rightarrow>
                 if \<not> lr_ExpiresAt ls > now then
                   (dropLeaseLocked lid b,
                    (case vmByUID b (lr_VMUID ls) of
                       None \<Rightarrow> expired
                     | Some vm \<Rightarrow> if vm_phase vm = LEASED then expired @ [vm_id vm] else expired))
                 else if lr_ExpiresAt ls - now \<le> warningWindow (pl_spec (pool_at b p)) \<and>
                         pl_warned (pool_at b p) lid \<noteq> Some (lr_ExpiresAt ls) then
                   (emitLocked now (lr_Pool ls) (lr_VMUID ls) VM_EXPIRING_SOON
                      [(''lease_id'', PStr lid), (''expires_at'', PInt (lr_ExpiresAt ls))]
                      (upd_pool p
                         (\<lambda>ps. ps\<lparr>pl_warned := (pl_warned ps)(lid \<mapsto> lr_ExpiresAt ls)\<rparr>) b),
                    expired)
                 else (b, expired)))"

definition tick_pool :: "time \<Rightarrow> poolKey \<Rightarrow> fake \<Rightarrow> fake" where
  "tick_pool now key b =
     (case pool_of b key of
        None \<Rightarrow> b
      | Some p \<Rightarrow>
          (let ps = pool_at b p;
               c = countsLocked (pl_key ps) b;
               deficit = tickDeficit (strategyOf (pl_spec ps)) c;
               b1 = (if deficit > 0 \<and> \<not> pl_fresh ps
                     then emitLocked now (pl_key ps) [] POOL_SIZE_BELOW_TARGET
                            [(''target'', PInt (ps_Size (pl_spec ps))), (''available'', PInt (c_available c)),
                             (''leased'', PInt (c_leased c)), (''provisioning'', PInt (c_provisioning c)),
                             (''quarantined'', PInt (c_quarantined c))] b
                     else b)
           in provisionNLocked now p deficit ''tick'' (upd_pool p (\<lambda>ps. ps\<lparr>pl_fresh := False\<rparr>) b1)))"

definition pending_deletions :: "fake \<Rightarrow> int list" where
  "pending_deletions b =
     map fst (filter (\<lambda>(i, vm). vm_phase vm = DELETING \<and> vm_uid vm \<noteq> [] \<and> \<not> vm_deleteInFlight vm) (fk_vms b))"

text \<open>
  \<open>tick\<close> ranges over \<open>b.leases\<close> in the order \<open>leaseOrder\<close> and over \<open>b.pools\<close> in the order
  \<open>poolOrder\<close>.
\<close>

definition tick :: "string list \<Rightarrow> poolKey list \<Rightarrow> time \<Rightarrow> fake \<Rightarrow> fake" where
  "tick leaseOrder poolOrder now b =
     (case fold (tick_lease now) leaseOrder (b, []) of (b1, expired) \<Rightarrow>
        let pending = pending_deletions b1;
            b2 = fold (tick_pool now) poolOrder b1
        in spawn (map (\<lambda>i. DelStart i (Some VM_DELETED_DUE_TO_EXPIRY)) expired @ map (\<lambda>i. DelStart i None) pending) b2)"

end
