(* ===== verification/FakeOps.thy ===== *)
theory FakeOps
  imports FakeReconcile "HOL-Library.List_Lexorder" "HOL-Library.Char_ord" "HOL-Library.Product_Lexorder"
begin

section \<open>The fake battery's operations\<close>

text \<open>
  \<open>internal/fakebattery/ops.go\<close>, \<open>hostadmin.go\<close> and the fault switches and shutdown of
  \<open>battery.go\<close>: what the gRPC handlers call. Strings are compared byte by byte, which is the
  lexicographic order on lists of characters.
\<close>

subsection \<open>Pools\<close>

definition errInvalid :: "string \<Rightarrow> grpc_error" where "errInvalid m = Status c_InvalidArgument m"

definition validateSpec :: "PoolSpec \<Rightarrow> grpc_error + PoolSpec" where
  "validateSpec p =
     (if ref_Name (ps_Ref p) = [] then Inl (errInvalid ''spec.name is required'')
      else if ref_Namespace (ps_Ref p) = [] then Inl (errInvalid ''spec.namespace is required'')
      else if rs_Type (ps_Replenishment p) = MIN_SIZE_THRESHOLD \<and>
              (case rs_MinSize (ps_Replenishment p) of None \<Rightarrow> True | Some m \<Rightarrow> m \<le> 0)
      then Inl (errInvalid ''spec.replenishment_strategy: MIN_SIZE_THRESHOLD requires a positive min_size'')
      else if rs_Type (ps_Replenishment p) \<notin> {IMMEDIATE_ON_LEASE, REPLACE_ON_DELETE, MIN_SIZE_THRESHOLD}
      then Inl (errInvalid ''spec.replenishment_strategy: unknown replenishment strategy'')
      else if ps_HookFailurePolicy p \<notin> {DELETE_AND_REPLACE, QUARANTINE}
      then Inl (errInvalid ''spec.hook_failure_policy: invalid value'')
      else case ps_Template p of
        None \<Rightarrow> Inl (errInvalid ''spec.microvm_template is required'')
      | Some t \<Rightarrow>
          if ps_Size p < 0 then Inl (errInvalid ''spec.size must not be negative'')
          else if ps_HeartbeatExpiryThreshold p \<le> 0
          then Inl (errInvalid ''spec.heartbeat_expiry_threshold must be positive'')
          else Inr (p\<lparr>ps_Template := Some (t\<lparr>mvm_AllowGuestAgent := True\<rparr>)\<rparr>))"

fun unknown_hosts :: "Hosts \<Rightarrow> string list \<Rightarrow> string list \<Rightarrow> string list" where
  "unknown_hosts hs [] unknown = unknown"
| "unknown_hosts hs (n # ns) unknown =
     unknown_hosts hs ns (if \<not> held hs n \<and> n \<notin> set unknown then unknown @ [n] else unknown)"

fun join :: "string \<Rightarrow> string list \<Rightarrow> string" where
  "join sep [] = []"
| "join sep [x] = x"
| "join sep (x # xs) = x @ sep @ join sep xs"

definition checkFlintlockHostsLocked :: "PoolSpec \<Rightarrow> fake \<Rightarrow> grpc_error option" where
  "checkFlintlockHostsLocked p b =
     (let unknown = unknown_hosts (fk_hosts b) (ps_FlintlockHosts p) []
      in if unknown \<noteq> []
         then Some (errInvalid (''spec.flintlock_hosts: unknown hosts '' @ join '', '' unknown @
                      ''; add them with HostAdmin.AddHost first''))
         else None)"

definition zero_status :: PoolStatus where
  "zero_status = \<lparr>st_Available = 0, st_Leased = 0, st_Provisioning = 0, st_Quarantined = 0\<rparr>"

definition createPool :: "PoolSpec \<Rightarrow> fake \<Rightarrow> (grpc_error + Pool) \<times> fake" where
  "createPool p0 b =
     (case validateSpec p0 of
        Inl e \<Rightarrow> (Inl e, b)
      | Inr p \<Rightarrow>
          (case checkFlintlockHostsLocked p b of
             Some e \<Rightarrow> (Inl e, b)
           | None \<Rightarrow>
               (case pool_of b (ps_Ref p) of
                  Some _ \<Rightarrow> (Inl (Status c_AlreadyExists (''pool '' @ PoolRef_String (ps_Ref p) @ '' already exists'')), b)
                | None \<Rightarrow>
                    (Inr \<lparr>pool_Spec = p, pool_Status = zero_status\<rparr>,
                     kickReconcile (b\<lparr>fk_pools := AList.update (ps_Ref p) (fk_nextPool b) (fk_pools b),
                        fk_heap := (fk_heap b)(fk_nextPool b := new_pool p), fk_nextPool := fk_nextPool b + 1\<rparr>)))))"

definition updatePool :: "PoolSpec \<Rightarrow> fake \<Rightarrow> (grpc_error + Pool) \<times> fake" where
  "updatePool p0 b =
     (case validateSpec p0 of
        Inl e \<Rightarrow> (Inl e, b)
      | Inr p \<Rightarrow>
          (case checkFlintlockHostsLocked p b of
             Some e \<Rightarrow> (Inl e, b)
           | None \<Rightarrow>
               (case poolLocked (ps_Ref p) b of
                  Inl e \<Rightarrow> (Inl e, b)
                | Inr a \<Rightarrow>
                    (let b1 = kickReconcile (upd_pool a (\<lambda>ps. ps\<lparr>pl_spec := p, pl_fresh := True\<rparr>)
                                (stopReconcilerLocked a b))
                     in (Inr \<lparr>pool_Spec = p, pool_Status = counts_status (countsLocked (ps_Ref p) b1)\<rparr>, b1)))))"

text \<open>One MicroVM of a Pool that is being deleted.\<close>

definition drain_vm :: "time \<Rightarrow> poolKey \<Rightarrow> vmState \<Rightarrow> fake \<Rightarrow> fake" where
  "drain_vm now key vm b =
     (let i = vm_id vm;
          b1 = setPhaseLocked now i DELETING b;
          b2 = (if vm_leaseID vm \<noteq> [] then upd_vm i (\<lambda>vm. vm\<lparr>vm_leaseID := []\<rparr>) (dropLeaseLocked (vm_leaseID vm) b1)
                else b1);
          b3 = upd_vm i (\<lambda>vm. vm\<lparr>vm_deleteEvent := None\<rparr>) b2
      in if vm_uid vm \<noteq> []
         then emitLocked now key (vm_uid vm) VM_DELETED_ON_POOL_DELETE [(''host'', PStr (vm_host vm))] b3
         else b3)"

definition pool_vms :: "poolKey \<Rightarrow> fake \<Rightarrow> vmState list" where
  "pool_vms key b = filter (\<lambda>vm. vm_pool vm = key) (map snd (fk_vms b))"

definition leasing :: "VMPhase \<Rightarrow> bool" where
  "leasing p \<longleftrightarrow> p = LEASED \<or> p = PRE_LEASE_HOOK_RUNNING"

text \<open>
  \<open>deletePool\<close>: the critical section that removes the Pool, and then a deletion of each of its
  MicroVMs, which are tasks here. The call answers when they have been tried.
\<close>

definition deletePool :: "time \<Rightarrow> PoolRef \<Rightarrow> bool \<Rightarrow> fake \<Rightarrow> grpc_error option \<times> fake" where
  "deletePool now ref force b =
     (case poolLocked ref b of
        Inl e \<Rightarrow> (Some e, b)
      | Inr p \<Rightarrow>
          (let vms = sort_key vm_id (pool_vms ref b);
               leased = length (filter (\<lambda>vm. leasing (vm_phase vm)) vms)
           in if leased > 0 \<and> \<not> force
              then (Some (Status c_FailedPrecondition (''pool '' @ PoolRef_String ref @ '' has '' @
                      show_int (int leased) @ '' leased VMs, release them or delete with force'')), b)
              else
                (let b1 = fold (drain_vm now ref) vms (stopReconcilerLocked p b);
                     b2 = fold dropLeaseLocked (map fst (filter (\<lambda>(l, ls). lr_Pool ls = ref) (fk_leases b1))) b1
                 in (None, spawn (map (\<lambda>vm. DelStart (vm_id vm) None) vms)
                             (b2\<lparr>fk_pools := AList.delete ref (fk_pools b2)\<rparr>)))))"

definition getPool :: "PoolRef \<Rightarrow> fake \<Rightarrow> grpc_error + Pool" where
  "getPool ref b =
     (case poolLocked ref b of
        Inl e \<Rightarrow> Inl e
      | Inr p \<Rightarrow> Inr \<lparr>pool_Spec = pl_spec (pool_at b p), pool_Status = counts_status (countsLocked ref b)\<rparr>)"

definition listPools :: "string \<Rightarrow> fake \<Rightarrow> Pool list" where
  "listPools namespace b =
     sort_key (\<lambda>p. (ref_Namespace (ps_Ref (pool_Spec p)), ref_Name (ps_Ref (pool_Spec p))))
       (map (\<lambda>(key, p). \<lparr>pool_Spec = pl_spec (pool_at b p), pool_Status = counts_status (countsLocked key b)\<rparr>)
         (filter (\<lambda>(key, p). namespace = [] \<or> ref_Namespace key = namespace) (fk_pools b)))"

subsection \<open>Claiming\<close>

definition maxRequestIDLength :: nat where "maxRequestIDLength = 255"

record claimResult =
  cr_leaseID :: string
  cr_vmUID :: string
  cr_host :: string
  cr_address :: string

definition leaseByRequestIDLocked :: "string \<Rightarrow> fake \<Rightarrow> LeaseRecord option" where
  "leaseByRequestIDLocked rid b = find (\<lambda>ls. lr_RequestID ls = rid) (map snd (fk_leases b))"

definition replayLocked :: "LeaseRecord \<Rightarrow> poolKey \<Rightarrow> fake \<Rightarrow> grpc_error + claimResult" where
  "replayLocked rec key b =
     (if lr_Pool rec \<noteq> key
      then Inl (errInvalid (''request_id '' @ lr_RequestID rec @ '' was used to claim from pool '' @
                  PoolRef_String (lr_Pool rec) @ '', not '' @ PoolRef_String key))
      else
        (let gone = Inl (Status c_Aborted (''lease '' @ lr_LeaseID rec @ '' for request_id '' @ lr_RequestID rec @
                          '' is being released, retry''))
         in case vmByUID b (lr_VMUID rec) of
              None \<Rightarrow> gone
            | Some vm \<Rightarrow>
                if vm_phase vm = DELETING then gone
                else Inr \<lparr>cr_leaseID = lr_LeaseID rec, cr_vmUID = vm_uid vm, cr_host = vm_host vm, cr_address = []\<rparr>))"

text \<open>The Host's address in the answer; the network interfaces are left out.\<close>

definition withInterfaces :: "fake \<Rightarrow> claimResult \<Rightarrow> claimResult" where
  "withInterfaces b res =
     (case Hosts_get (fk_hosts b) (cr_host res) of None \<Rightarrow> res | Some h \<Rightarrow> res\<lparr>cr_address := h_address h\<rparr>)"

definition claim_answer :: "fake \<Rightarrow> grpc_error + claimResult \<Rightarrow> grpc_error + claimResult" where
  "claim_answer b r = map_sum id (withInterfaces b) r"

text \<open>
  The first half of \<open>claimVM\<close>, to the start of the pre-lease hooks: an answer, or None when the
  call goes on as the task it has started. A failure injected into the hooks is taken here.
\<close>

definition claimVM_begin :: "time \<Rightarrow> PoolRef \<Rightarrow> string \<Rightarrow> fake \<Rightarrow> (grpc_error + claimResult) option \<times> fake" where
  "claimVM_begin now ref rid b =
     (if length rid > maxRequestIDLength
      then (Some (Inl (errInvalid (''request_id is '' @ show_int (int (length rid)) @ '' bytes, at most 255 allowed''))), b)
      else case poolLocked ref b of
        Inl e \<Rightarrow> (Some (Inl e), b)
      | Inr p \<Rightarrow>
          (case (if rid \<noteq> [] then leaseByRequestIDLocked rid b else None) of
             Some ls \<Rightarrow> (Some (claim_answer b (replayLocked ls ref b)), b)
           | None \<Rightarrow>
               (case oldestAvailableLocked ref b of
                  None \<Rightarrow> (Some (Inl (Status c_ResourceExhausted (''no available vm in pool '' @ PoolRef_String ref))), b)
                | Some vm \<Rightarrow>
                    (case consumeHookFailure (vm_pool vm) HookPreLease
                            (setPhaseLocked now (vm_id vm) PRE_LEASE_HOOK_RUNNING b) of
                       (True, b1) \<Rightarrow>
                         (Some (Inl (Status c_Internal ''pre-lease hook: fault injection: pre_lease hook failed'')),
                          applyHookFailurePolicy now (vm_id vm) HookPreLease
                            ''fault injection: pre_lease hook failed'' b1)
                     | (False, b1) \<Rightarrow>
                         (None, spawn [ClaimHooks rid p (vm_id vm, ref, vm_host vm)
                                  (ps_PreLeaseCommands (pl_spec (pool_at b p)))] b1)))))"

text \<open>
  The second half, after the hooks: \<open>said\<close> is the error of the commands and \<open>leaseID\<close> the
  random token that \<open>newLeaseID\<close> draws.
\<close>

definition claimVM_end ::
  "time \<Rightarrow> string \<Rightarrow> string \<Rightarrow> nat \<Rightarrow> vm_ptr \<Rightarrow> string list \<Rightarrow> string option \<Rightarrow> fake \<Rightarrow>
   (grpc_error + claimResult) \<times> fake" where
  "claimVM_end now leaseID rid p v cmds said b =
     (case v of (i, key, h) \<Rightarrow>
        case runHooks_result (fk_hosts b) h cmds said of
          Some cause \<Rightarrow>
            (Inl (Status c_Internal (''pre-lease hook: '' @ cause)), applyHookFailurePolicy now i HookPreLease cause b)
        | None \<Rightarrow>
            (case (vm_of b i, pool_of b key) of
               (Some vm, Some _) \<Rightarrow>
                 (case (if rid \<noteq> [] then leaseByRequestIDLocked rid b else None) of
                    Some ls \<Rightarrow>
                      (let b1 = setPhaseLocked now i AVAILABLE (upd_vm i (\<lambda>vm. vm\<lparr>vm_leaseID := []\<rparr>) b)
                       in (claim_answer b1 (replayLocked ls key b1), b1))
                  | None \<Rightarrow>
                      (let rec = \<lparr>lr_LeaseID = leaseID, lr_VMUID = vm_uid vm, lr_Pool = key, lr_ClaimedAt = now,
                                  lr_LastHeartbeatAt = now,
                                  lr_ExpiresAt = now + ps_HeartbeatExpiryThreshold (pl_spec (pool_at b p)),
                                  lr_RequestID = rid\<rparr>;
                           b1 = setPhaseLocked now i LEASED
                                  (upd_vm i (\<lambda>vm. vm\<lparr>vm_leaseID := leaseID\<rparr>)
                                     (b\<lparr>fk_leases := AList.update leaseID rec (fk_leases b)\<rparr>));
                           b2 = emitLocked now key (vm_uid vm) VM_CLAIMED
                                  [(''lease_id'', PStr leaseID), (''host'', PStr h)] b1;
                           b3 = provisionNLocked now p (onClaimed (strategyOf (pl_spec (pool_at b p)))) ''claim'' b2
                       in (claim_answer b3 (Inr \<lparr>cr_leaseID = leaseID, cr_vmUID = vm_uid vm, cr_host = h, cr_address = []\<rparr>),
                           b3)))
             | _ \<Rightarrow> (Inl (Status c_NotFound (''pool '' @ PoolRef_String key @ '' was deleted during the claim'')), b)))"

subsection \<open>Leases\<close>

definition listLeases :: "PoolRef option \<Rightarrow> fake \<Rightarrow> LeaseRecord list" where
  "listLeases pool b =
     (if RefuseHeartbeats (fk_faults b) then []
      else sort_key lr_LeaseID
             (filter (\<lambda>ls. case pool of None \<Rightarrow> True | Some p \<Rightarrow> lr_Pool ls = p) (map snd (fk_leases b))))"

definition heartbeat :: "time \<Rightarrow> string \<Rightarrow> fake \<Rightarrow> (grpc_error + time) \<times> fake" where
  "heartbeat now leaseID b =
     (if RefuseHeartbeats (fk_faults b)
      then (Inl (Status c_NotFound (''lease '' @ leaseID @ '' not found (fault injection: heartbeats refused)'')), b)
      else case lease_of b leaseID of
        None \<Rightarrow> (Inl (Status c_NotFound (''lease '' @ leaseID @ '' not found'')), b)
      | Some ls \<Rightarrow>
          (case pool_of b (lr_Pool ls) of
             None \<Rightarrow> (Inl (Status c_NotFound (''pool '' @ PoolRef_String (lr_Pool ls) @ '' of lease '' @ leaseID @
                            '' not found'')), b)
           | Some p \<Rightarrow>
               (let e = now + ps_HeartbeatExpiryThreshold (pl_spec (pool_at b p))
                in (Inr e, b\<lparr>fk_leases :=
                       AList.map_entry leaseID (\<lambda>ls. ls\<lparr>lr_LastHeartbeatAt := now, lr_ExpiresAt := e\<rparr>) (fk_leases b)\<rparr>))))"

text \<open>
  The first half of \<open>releaseVM\<close>: an answer, or the MicroVM whose deletion the call then waits
  for.
\<close>

definition releaseVM_begin :: "time \<Rightarrow> string \<Rightarrow> fake \<Rightarrow> (grpc_error option + int) \<times> fake" where
  "releaseVM_begin now leaseID b =
     (case lease_of b leaseID of
        None \<Rightarrow> (Inl (Some (Status c_NotFound (''lease '' @ leaseID @ '' not found''))), b)
      | Some ls \<Rightarrow>
          (case vmByUID b (lr_VMUID ls) of
             None \<Rightarrow> (Inl None, dropLeaseLocked leaseID b)
           | Some vm \<Rightarrow>
               (Inr (vm_id vm),
                if vm_released vm then b
                else emitLocked now (lr_Pool ls) (vm_uid vm) VM_RELEASED [(''lease_id'', PStr leaseID)]
                       (upd_vm (vm_id vm) (\<lambda>vm. vm\<lparr>vm_released := True\<rparr>) b))))"

text \<open>\<open>unavailable\<close>, which the interceptors of every call check first.\<close>

definition unavailable :: "time \<Rightarrow> fake \<Rightarrow> grpc_error option" where
  "unavailable now b =
     (if fk_unavailableUntil b \<noteq> 0 \<and> now < fk_unavailableUntil b
      then Some (Status c_Unavailable ''fault injection: battery unavailable'') else None)"

definition SetFaults :: "time \<Rightarrow> Faults \<Rightarrow> fake \<Rightarrow> fake" where
  "SetFaults now f b =
     (let b1 = b\<lparr>fk_faults := f\<lparr>DropEventsStream := False\<rparr>,
                 fk_unavailableUntil := (if UnavailableFor f > 0 then now + UnavailableFor f else 0)\<rparr>
      in if DropEventsStream f then b1\<lparr>fk_events := dropAll (fk_events b1)\<rparr> else b1)"

subsection \<open>Starting and stopping\<close>

definition Run_begin :: "fake \<Rightarrow> bool \<times> fake" where
  "Run_begin b = (if fk_started b then (False, b) else (True, b\<lparr>fk_started := True, fk_running := True\<rparr>))"

text \<open>The context given to \<open>Run\<close> is cancelled; \<open>Run\<close> then calls \<open>stop\<close>.\<close>

definition cancel_run :: "fake \<Rightarrow> fake" where
  "cancel_run b = b\<lparr>fk_running := False\<rparr>"

definition stop_begin :: "fake \<Rightarrow> fake" where
  "stop_begin b = b\<lparr>fk_running := False, fk_stopped := True\<rparr>"

text \<open>\<open>cleanupAll\<close> deletes every MicroVM and then forgets every Lease.\<close>

definition cleanup_begin :: "fake \<Rightarrow> fake" where
  "cleanup_begin b = spawn (map (\<lambda>(i, vm). DelStart i None) (fk_vms b)) b"

definition cleanup_end :: "fake \<Rightarrow> fake" where
  "cleanup_end b = fold dropLeaseLocked (map fst (fk_leases b)) b"

subsection \<open>Hosts\<close>

record host_spec =
  hs_Name :: string
  hs_Address :: string
  hs_Tls :: "HostTLS option"

definition tls_of :: "host_spec \<Rightarrow> HostTLS" where
  "tls_of h = (case hs_Tls h of
     None \<Rightarrow> \<lparr>tls_Insecure = False, tls_CertFile = [], tls_KeyFile = [], tls_CaFile = []\<rparr> | Some t \<Rightarrow> t)"

definition validateHostSpec :: "host_spec \<Rightarrow> grpc_error option" where
  "validateHostSpec h =
     (if hs_Name h = [] then Some (errInvalid ''host.name is required'')
      else if hs_Address h = [] then Some (errInvalid (''host '' @ hs_Name h @ '': address is required''))
      else
        (let t = tls_of h
         in if tls_Insecure t
            then if tls_CertFile t \<noteq> [] \<or> tls_KeyFile t \<noteq> [] \<or> tls_CaFile t \<noteq> []
                 then Some (errInvalid (''host '' @ hs_Name h @ '': tls: insecure hosts must not set cert_file/key_file/ca_file''))
                 else None
            else if tls_CaFile t = []
            then Some (errInvalid (''host '' @ hs_Name h @ '': tls: ca_file is required unless insecure is set''))
            else if (tls_CertFile t = []) \<noteq> (tls_KeyFile t = [])
            then Some (errInvalid (''host '' @ hs_Name h @ '': tls: cert_file and key_file must be set together''))
            else None))"

text \<open>
  \<open>dialHost\<close>: an error, or whether there is a connection. \<open>dial\<close> is the test's \<open>Config.Dial\<close>, if
  it gives one: whether it gives a connection for the address.
\<close>

definition dialHost :: "(string \<Rightarrow> bool) option \<Rightarrow> string \<Rightarrow> string \<Rightarrow> bool \<Rightarrow> grpc_error + bool" where
  "dialHost dial name address skip =
     (let refused = (if skip then Inr False
                     else Inl (Status c_FailedPrecondition (''validate host '' @ name)))
      in case dial of None \<Rightarrow> refused | Some f \<Rightarrow> if f address then Inr True else refused)"

definition vmCountLocked :: "string \<Rightarrow> fake \<Rightarrow> int" where
  "vmCountLocked name b = int (length (filter (\<lambda>(i, vm). vm_host vm = name) (fk_vms b)))"

definition addHost :: "(string \<Rightarrow> bool) option \<Rightarrow> time \<Rightarrow> host_spec \<Rightarrow> bool \<Rightarrow> fake \<Rightarrow> (grpc_error + host) \<times> fake" where
  "addHost dial now h skip b =
     (case validateHostSpec h of
        Some e \<Rightarrow> (Inl e, b)
      | None \<Rightarrow>
          (let exists = Inl (Status c_AlreadyExists (''host '' @ hs_Name h @ '' already exists''))
           in if held (fk_hosts b) (hs_Name h) then (exists, b)
              else case dialHost dial (hs_Name h) (hs_Address h) skip of
                Inl e \<Rightarrow> (Inl e, b)
              | Inr conn \<Rightarrow>
                  (let e = (newHost (hs_Name h))\<lparr>h_address := hs_Address h, h_tls := hs_Tls h, h_updatedAt := now,
                             h_connected := conn, h_dials := (if conn then 1 else 0)\<rparr>
                   in (Inr e, kickReconcile (b\<lparr>fk_hosts := AList.update (hs_Name h) e (fk_hosts b)\<rparr>)))))"

definition updateHost :: "(string \<Rightarrow> bool) option \<Rightarrow> time \<Rightarrow> host_spec \<Rightarrow> bool \<Rightarrow> fake \<Rightarrow> (grpc_error + host) \<times> fake" where
  "updateHost dial now h skip b =
     (if hs_Name h = [] then (Inl (errInvalid ''host.name is required''), b)
      else case map_of (fk_hosts b) (hs_Name h) of
        None \<Rightarrow> (Inl (Status c_NotFound (''host '' @ hs_Name h @ '' not found'')), b)
      | Some e0 \<Rightarrow>
          (case validateHostSpec h of
             Some e \<Rightarrow> (Inl e, b)
           | None \<Rightarrow>
               (case dialHost dial (hs_Name h) (hs_Address h) skip of
                  Inl e \<Rightarrow> (Inl e, b)
                | Inr conn \<Rightarrow>
                    (let e = e0\<lparr>h_address := hs_Address h, h_tls := hs_Tls h, h_updatedAt := now,
                               h_connected := conn, h_dials := (if conn then h_dials e0 + 1 else h_dials e0)\<rparr>
                     in (Inr e, kickReconcile (b\<lparr>fk_hosts := AList.update (hs_Name h) e (fk_hosts b)\<rparr>))))))"

definition removeHost :: "string \<Rightarrow> fake \<Rightarrow> grpc_error option \<times> fake" where
  "removeHost name b =
     (if name = [] then (Some (errInvalid ''name is required''), b)
      else if \<not> held (fk_hosts b) name
      then (Some (Status c_NotFound (''host '' @ name @ '' not found'')), b)
      else
        (let pools = sort (map (\<lambda>(key, p). PoolRef_String key)
                       (filter (\<lambda>(key, p). name \<in> set (ps_FlintlockHosts (pl_spec (pool_at b p)))) (fk_pools b)));
             count = vmCountLocked name b;
             reasons = (if pools \<noteq> [] then [''named in flintlock_hosts by pools '' @ join '', '' pools] else []) @
                       (if count > 0 then [''vm_count is '' @ show_int count] else [])
         in if pools \<noteq> [] \<or> count > 0
            then (Some (Status c_FailedPrecondition (''host '' @ name @ '' is still in use ('' @ join ''; '' reasons @
                    ''): cordon it, drop it from each pool spec, and wait for vm_count to reach 0'')), b)
            else (None, b\<lparr>fk_hosts := Hosts_Remove name (fk_hosts b)\<rparr>)))"

definition setCordoned :: "time \<Rightarrow> string \<Rightarrow> bool \<Rightarrow> string \<Rightarrow> fake \<Rightarrow> (grpc_error + host) \<times> fake" where
  "setCordoned now name cordoned reason b =
     (if name = [] then (Inl (errInvalid ''name is required''), b)
      else case map_of (fk_hosts b) name of
        None \<Rightarrow> (Inl (Status c_FailedPrecondition (''host '' @ name @ '' is not registered'')), b)
      | Some e0 \<Rightarrow>
          (let e = (if cordoned
                    then e0\<lparr>h_cordoned := True, h_updatedAt := now, h_cordonedReason := reason, h_cordonedAt := now\<rparr>
                    else e0\<lparr>h_cordoned := False, h_updatedAt := now, h_cordonedReason := [], h_cordonedAt := 0\<rparr>);
               b1 = b\<lparr>fk_hosts := AList.update name e (fk_hosts b)\<rparr>
           in (Inr e, if cordoned then b1 else kickReconcile b1)))"

end
