(* ===== verification/FakeInv.thy ===== *)
theory FakeInv
  imports FakeOps
begin

section \<open>Leases and MicroVMs of the fake battery stay consistent\<close>

text \<open>
  The invariant that ties the Leases, the MicroVMs, the index by uid and the goroutines
  together, as a predicate on the maps, with one lemma for each kind of change of them.
\<close>

subsection \<open>The invariant\<close>

fun owner :: "task \<Rightarrow> vm_ptr option" where
  "owner (ProvStart c v) = Some v"
| "owner (ProvCreate c v cmds) = Some v"
| "owner (ProvWait c v cmds) = Some v"
| "owner (ProvHooks c v cmds) = Some v"
| "owner (ClaimHooks r p v cmds) = Some v"
| "owner (DelStart i e) = None"
| "owner (DelHost i h u) = None"

text \<open>The MicroVMs that a provisioning or a claim in flight works on.\<close>

definition owned :: "task list \<Rightarrow> int list" where
  "owned T = map fst (List.map_filter owner T)"

text \<open>Before CreateMicroVM has answered, a MicroVM has no uid.\<close>

fun unborn :: "task \<Rightarrow> bool" where
  "unborn (ProvStart c v) = True"
| "unborn (ProvCreate c v cmds) = True"
| "unborn _ = False"

text \<open>The phases in which a MicroVM is in no one's hands.\<close>

fun at_rest :: "VMPhase \<Rightarrow> bool" where
  "at_rest AVAILABLE = True"
| "at_rest LEASED = True"
| "at_rest QUARANTINED = True"
| "at_rest _ = False"

definition task_ok :: "(int \<rightharpoonup> vmState) \<Rightarrow> int \<Rightarrow> task \<Rightarrow> bool" where
  "task_ok V N t \<longleftrightarrow>
     (\<forall>i k h. owner t = Some (i, k, h) \<longrightarrow>
        i \<le> N \<and>
        (\<forall>vm. V i = Some vm \<longrightarrow> vm_pool vm = k \<and> vm_host vm = h \<and> (unborn t \<longleftrightarrow> vm_uid vm = [])))"

definition vm_ok :: "(string \<rightharpoonup> int) \<Rightarrow> int \<Rightarrow> int list \<Rightarrow> int \<Rightarrow> vmState \<Rightarrow> bool" where
  "vm_ok U N os i vm \<longleftrightarrow>
     vm_id vm = i \<and> i \<le> N \<and> (vm_uid vm \<noteq> [] \<longrightarrow> U (vm_uid vm) = Some i) \<and>
     (at_rest (vm_phase vm) \<longrightarrow> vm_uid vm \<noteq> [] \<and> i \<notin> set os)"

text \<open>
  A Lease is that of a MicroVM the fake holds, which knows the Lease, is leased or being
  deleted, and is not in the hands of any other claim.
\<close>

definition lease_ok ::
  "(int \<rightharpoonup> vmState) \<Rightarrow> (string \<rightharpoonup> int) \<Rightarrow> int list \<Rightarrow> string \<Rightarrow> LeaseRecord \<Rightarrow> bool" where
  "lease_ok V U os l r \<longleftrightarrow>
     lr_LeaseID r = l \<and> l \<noteq> [] \<and>
     (\<exists>i vm. U (lr_VMUID r) = Some i \<and> V i = Some vm \<and> vm_leaseID vm = l \<and> vm_pool vm = lr_Pool r \<and>
        vm_phase vm \<in> {LEASED, DELETING} \<and> i \<notin> set os)"

definition linv ::
  "(int \<rightharpoonup> vmState) \<Rightarrow> (string \<rightharpoonup> int) \<Rightarrow> (string \<rightharpoonup> LeaseRecord) \<Rightarrow> int \<Rightarrow> task list \<Rightarrow> bool" where
  "linv V U L N T \<longleftrightarrow>
     (\<forall>i vm. V i = Some vm \<longrightarrow> vm_ok U N (owned T) i vm) \<and>
     (\<forall>u i. U u = Some i \<longrightarrow> u \<noteq> [] \<and> (\<exists>vm. V i = Some vm \<and> vm_uid vm = u)) \<and>
     (\<forall>l r. L l = Some r \<longrightarrow> lease_ok V U (owned T) l r) \<and>
     (\<forall>l l' r r'. L l = Some r \<longrightarrow> L l' = Some r' \<longrightarrow> lr_RequestID r = lr_RequestID r' \<longrightarrow>
        lr_RequestID r \<noteq> [] \<longrightarrow> l = l') \<and>
     distinct (owned T) \<and> (\<forall>t\<in>set T. task_ok V N t) \<and>
     (\<forall>i vm r. V i = Some vm \<longrightarrow> L (vm_leaseID vm) = Some r \<longrightarrow> U (lr_VMUID r) = Some i)"

lemma linvD:
  assumes "linv V U L N T"
  shows "V i = Some vm \<Longrightarrow> vm_ok U N (owned T) i vm"
    and "U u = Some i \<Longrightarrow> u \<noteq> [] \<and> (\<exists>vm. V i = Some vm \<and> vm_uid vm = u)"
    and "L l = Some r \<Longrightarrow> lease_ok V U (owned T) l r"
    and "L l = Some r \<Longrightarrow> L l' = Some r' \<Longrightarrow> lr_RequestID r = lr_RequestID r' \<Longrightarrow> lr_RequestID r \<noteq> [] \<Longrightarrow> l = l'"
    and "distinct (owned T)"
    and "t \<in> set T \<Longrightarrow> task_ok V N t"
    and "V i = Some vm \<Longrightarrow> L (vm_leaseID vm) = Some r \<Longrightarrow> U (lr_VMUID r) = Some i"
  using assms unfolding linv_def by blast+

lemma linvI:
  assumes "\<And>i vm. V i = Some vm \<Longrightarrow> vm_ok U N (owned T) i vm"
    and "\<And>u i. U u = Some i \<Longrightarrow> u \<noteq> [] \<and> (\<exists>vm. V i = Some vm \<and> vm_uid vm = u)"
    and "\<And>l r. L l = Some r \<Longrightarrow> lease_ok V U (owned T) l r"
    and "\<And>l l' r r'. L l = Some r \<Longrightarrow> L l' = Some r' \<Longrightarrow> lr_RequestID r = lr_RequestID r' \<Longrightarrow>
           lr_RequestID r \<noteq> [] \<Longrightarrow> l = l'"
    and "distinct (owned T)" and "\<And>t. t \<in> set T \<Longrightarrow> task_ok V N t"
    and "\<And>i vm r. V i = Some vm \<Longrightarrow> L (vm_leaseID vm) = Some r \<Longrightarrow> U (lr_VMUID r) = Some i"
  shows "linv V U L N T"
  using assms unfolding linv_def by blast

definition lease_on :: "(string \<rightharpoonup> int) \<Rightarrow> (string \<rightharpoonup> LeaseRecord) \<Rightarrow> int \<Rightarrow> bool" where
  "lease_on U L i \<longleftrightarrow> (\<exists>l r. L l = Some r \<and> U (lr_VMUID r) = Some i)"

lemma owned_simps [simp]:
  "owned [] = []" "owned (T @ T') = owned T @ owned T'"
  "owned (t # T) = (case owner t of None \<Rightarrow> owned T | Some v \<Rightarrow> fst v # owned T)"
  by (auto simp: owned_def map_filter_def split: option.split)

lemma set_owned: "i \<in> set (owned T) \<longleftrightarrow> (\<exists>t\<in>set T. \<exists>k h. owner t = Some (i, k, h))"
  by (induction T) (auto split: option.split)

lemma owned_remove1_subset: "set (owned (remove1 t T)) \<subseteq> set (owned T)"
  using set_remove1_subset [of t T] unfolding set_owned subset_iff by blast

lemma distinct_owned_remove1: "distinct (owned T) \<Longrightarrow> distinct (owned (remove1 t T))"
proof (induction T)
  case (Cons a T)
  then show ?case using owned_remove1_subset [of t T] by (auto split: option.splits)
qed simp

lemma owner_released:
  assumes "distinct (owned T)" "t \<in> set T" "owner t = Some (i, k, h)"
  shows "i \<notin> set (owned (remove1 t T))"
  using assms
proof (induction T)
  case (Cons a T)
  then show ?case
    by (auto simp: set_owned split: option.splits)
qed simp

subsection \<open>Changes that keep it\<close>

text \<open>A change of one MicroVM that keeps its identity.\<close>

lemma linv_upd_vm:
  assumes inv: "linv V U L N T" and vm: "V i = Some vm"
    and same: "vm_id vm' = vm_id vm" "vm_uid vm' = vm_uid vm" "vm_pool vm' = vm_pool vm" "vm_host vm' = vm_host vm"
    and phase: "at_rest (vm_phase vm') \<Longrightarrow> vm_uid vm \<noteq> [] \<and> i \<notin> set (owned T)"
    and lease: "lease_on U L i \<Longrightarrow> vm_leaseID vm' = vm_leaseID vm \<and> vm_phase vm' \<in> {LEASED, DELETING}"
    and lid: "vm_leaseID vm' = vm_leaseID vm \<or> L (vm_leaseID vm') = None"
  shows "linv (V(i \<mapsto> vm')) U L N T"
proof -
  have v: "vm_ok U N (owned T) j v" if "(V(i \<mapsto> vm')) j = Some v" for j v
    using that linvD(1) [OF inv] vm same phase by (cases "j = i") (auto simp: vm_ok_def)
  have u: "u \<noteq> [] \<and> (\<exists>v. (V(i \<mapsto> vm')) j = Some v \<and> vm_uid v = u)" if "U u = Some j" for u j
    using linvD(2) [OF inv that] vm same by auto
  have l: "lease_ok (V(i \<mapsto> vm')) U (owned T) l r" if "L l = Some r" for l r
  proof -
    from linvD(3) [OF inv that] obtain j v where
      j: "lr_LeaseID r = l" "l \<noteq> []" "U (lr_VMUID r) = Some j" "V j = Some v" "vm_leaseID v = l"
        "vm_pool v = lr_Pool r" "vm_phase v \<in> {LEASED, DELETING}" "j \<notin> set (owned T)"
      by (auto simp: lease_ok_def)
    have "j = i \<Longrightarrow> lease_on U L i" using that j(3) by (auto simp: lease_on_def)
    with j vm same lease show ?thesis by (cases "j = i") (auto simp: lease_ok_def)
  qed
  have t: "task_ok (V(i \<mapsto> vm')) N t" if "t \<in> set T" for t
    using linvD(6) [OF inv that] vm same by (auto simp: task_ok_def)
  have k: "U (lr_VMUID r) = Some j" if "(V(i \<mapsto> vm')) j = Some v" "L (vm_leaseID v) = Some r" for j v r
    using that linvD(7) [OF inv, of j] vm lid by (cases "j = i") auto
  show ?thesis by (rule linvI [OF v u l linvD(4) [OF inv] linvD(5) [OF inv] t k])
qed

lemma linv_drop_lease:
  assumes "linv V U L N T"
  shows "linv V U (L(l := None)) N T"
proof (rule linvI)
  fix l1 r1 assume "(L(l := None)) l1 = Some r1"
  then show "lease_ok V U (owned T) l1 r1" using linvD(3) [OF assms] by (simp split: if_splits)
next
  fix l1 l2 r1 r2
  assume "(L(l := None)) l1 = Some r1" "(L(l := None)) l2 = Some r2" "lr_RequestID r1 = lr_RequestID r2" "lr_RequestID r1 \<noteq> []"
  then show "l1 = l2" using linvD(4) [OF assms, of l1 r1 l2 r2] by (simp split: if_splits)
next
  fix i vm r assume "V i = Some vm" "(L(l := None)) (vm_leaseID vm) = Some r"
  then show "U (lr_VMUID r) = Some i" using linvD(7) [OF assms, of i vm r] by (simp split: if_splits)
qed (use linvD(1,2,5,6) [OF assms] in blast)+

text \<open>A change of a Lease that keeps what it is about.\<close>

lemma linv_upd_lease:
  assumes inv: "linv V U L N T" and r: "L l = Some r"
    and same: "lr_LeaseID r' = lr_LeaseID r" "lr_VMUID r' = lr_VMUID r" "lr_Pool r' = lr_Pool r" "lr_RequestID r' = lr_RequestID r"
  shows "linv V U (L(l \<mapsto> r')) N T"
proof (rule linvI)
  fix l1 r1 assume "(L(l \<mapsto> r')) l1 = Some r1"
  then show "lease_ok V U (owned T) l1 r1"
    using linvD(3) [OF inv, of l1] r same by (auto simp: lease_ok_def split: if_splits)
next
  fix l1 l2 r1 r2
  assume a: "(L(l \<mapsto> r')) l1 = Some r1" "(L(l \<mapsto> r')) l2 = Some r2" "lr_RequestID r1 = lr_RequestID r2" "lr_RequestID r1 \<noteq> []"
  have "\<exists>q. L k = Some q \<and> lr_RequestID q = lr_RequestID s" if "(L(l \<mapsto> r')) k = Some s" for k s
    using that r same by (auto split: if_splits)
  from this [OF a(1)] this [OF a(2)] show "l1 = l2" using linvD(4) [OF inv] a(3,4) by metis
next
  fix i vm r1 assume "V i = Some vm" "(L(l \<mapsto> r')) (vm_leaseID vm) = Some r1"
  then show "U (lr_VMUID r1) = Some i" using linvD(7) [OF inv, of i vm] r same by (auto split: if_splits)
qed (use linvD(1,2,5,6) [OF inv] in blast)+

text \<open>A new Lease, on a MicroVM that no claim holds and no other Lease names.\<close>

lemma linv_add_lease:
  assumes inv: "linv V U L N T" and vm: "V i = Some vm" "vm_uid vm \<noteq> []" "i \<notin> set (owned T)" "\<not> lease_on U L i"
    and new: "L l = None" "l \<noteq> []" "lr_LeaseID r = l" "lr_VMUID r = vm_uid vm" "lr_Pool r = vm_pool vm"
    and rid: "\<And>l' r'. L l' = Some r' \<Longrightarrow> lr_RequestID r \<noteq> [] \<Longrightarrow> lr_RequestID r' \<noteq> lr_RequestID r"
    and unused: "\<And>j v. V j = Some v \<Longrightarrow> vm_leaseID v \<noteq> l"
    and vm': "vm' = vm\<lparr>vm_leaseID := l, vm_phase := LEASED, vm_updated := now\<rparr>"
  shows "linv (V(i \<mapsto> vm')) U (L(l \<mapsto> r)) N T"
proof -
  have U: "U (vm_uid vm) = Some i" using linvD(1) [OF inv vm(1)] vm(2) by (simp add: vm_ok_def)
  have inv': "linv (V(i \<mapsto> vm')) U L N T"
    by (rule linv_upd_vm [OF inv vm(1)]) (use vm vm' new(1) in \<open>simp_all\<close>)
  have new_ok: "lease_ok (V(i \<mapsto> vm')) U (owned T) l r"
    unfolding lease_ok_def
    by (intro conjI exI [of _ i] exI [of _ vm']) (use new U vm vm' in simp_all)
  show ?thesis
  proof (rule linvI)
    fix l1 r1 assume "(L(l \<mapsto> r)) l1 = Some r1"
    then show "lease_ok (V(i \<mapsto> vm')) U (owned T) l1 r1"
      using new_ok linvD(3) [OF inv', of l1 r1] by (cases "l1 = l") simp_all
  next
    fix l1 l2 r1 r2
    assume "(L(l \<mapsto> r)) l1 = Some r1" "(L(l \<mapsto> r)) l2 = Some r2" "lr_RequestID r1 = lr_RequestID r2" "lr_RequestID r1 \<noteq> []"
    then show "l1 = l2"
      using rid [of l1 r1] rid [of l2 r2] linvD(4) [OF inv, of l1 r1 l2 r2]
      by (metis fun_upd_apply option.inject)
  next
    fix j v q assume "(V(i \<mapsto> vm')) j = Some v" "(L(l \<mapsto> r)) (vm_leaseID v) = Some q"
    then show "U (lr_VMUID q) = Some j"
      using unused [of j v] linvD(7) [OF inv, of j v q] new(4) U vm' by (cases "j = i") auto
  qed (use linvD(1,2,5,6) [OF inv'] in blast)+
qed

text \<open>A goroutine that ends.\<close>

lemma linv_end_task:
  assumes "linv V U L N T"
  shows "linv V U L N (remove1 t T)"
proof -
  note sub = owned_remove1_subset [of t T]
  have v: "vm_ok U N (owned (remove1 t T)) i vm" if "V i = Some vm" for i vm
    using linvD(1) [OF assms that] sub by (auto simp: vm_ok_def)
  have l: "lease_ok V U (owned (remove1 t T)) l r" if "L l = Some r" for l r
    using linvD(3) [OF assms that] sub by (fastforce simp: lease_ok_def)
  have t: "task_ok V N s" if "s \<in> set (remove1 t T)" for s
    using linvD(6) [OF assms] set_remove1_subset [of t T] that by blast
  show ?thesis by (rule linvI [OF v linvD(2) [OF assms] l linvD(4) [OF assms] distinct_owned_remove1 [OF linvD(5) [OF assms]] t linvD(7) [OF assms]])
qed

text \<open>A goroutine that starts: one that deletes, or one that takes a MicroVM into its hands.\<close>

lemma linv_spawn_deletion:
  assumes "linv V U L N T" "\<And>t. t \<in> set ts \<Longrightarrow> owner t = None"
  shows "linv V U L N (T @ ts)"
proof -
  have "owned ts = []" using assms(2) by (induction ts) (auto split: option.splits)
  then show ?thesis using assms by (auto simp: linv_def task_ok_def)
qed

lemma linv_spawn_owner:
  assumes inv: "linv V U L N T" and t: "owner t = Some (i, k, h)" "i \<notin> set (owned T)" "task_ok V N t"
    and vm: "\<And>vm. V i = Some vm \<Longrightarrow> \<not> at_rest (vm_phase vm)" and lease: "\<not> lease_on U L i"
  shows "linv V U L N (T @ [t])"
proof -
  have v: "vm_ok U N (owned (T @ [t])) j v" if "V j = Some v" for j v
    using linvD(1) [OF inv that] vm that t by (cases "j = i") (auto simp: vm_ok_def)
  have l: "lease_ok V U (owned (T @ [t])) l r" if "L l = Some r" for l r
    using linvD(3) [OF inv that] lease that t by (auto simp: lease_ok_def lease_on_def)
  have d: "distinct (owned (T @ [t]))" using linvD(5) [OF inv] t by simp
  have ts: "task_ok V N s" if "s \<in> set (T @ [t])" for s using that linvD(6) [OF inv] t(3) by auto
  show ?thesis by (rule linvI [OF v linvD(2) [OF inv] l linvD(4) [OF inv] d ts linvD(7) [OF inv]])
qed

text \<open>A MicroVM that goes, with no Lease on it.\<close>

lemma linv_delete_vm:
  assumes inv: "linv V U L N T" and vm: "V i = Some vm" and lease: "\<not> lease_on U L i"
    and U': "U' = (if vm_uid vm \<noteq> [] then U(vm_uid vm := None) else U)"
  shows "linv (V(i := None)) U' L N T"
proof -
  have Ui: "u = vm_uid vm \<and> vm_uid vm \<noteq> []" if "U u = Some i" for u
    using linvD(2) [OF inv that] vm by auto
  have mem: "U' u = Some j \<longleftrightarrow> U u = Some j \<and> j \<noteq> i" for u j
    using U' Ui linvD(1) [OF inv vm] by (auto simp: vm_ok_def)
  have v: "vm_ok U' N (owned T) j v" if "(V(i := None)) j = Some v" for j v
    using that linvD(1) [OF inv, of j v] mem by (auto simp: vm_ok_def split: if_splits)
  have u: "u \<noteq> [] \<and> (\<exists>v. (V(i := None)) j = Some v \<and> vm_uid v = u)" if "U' u = Some j" for u j
    using that mem linvD(2) [OF inv, of u j] by auto
  have l: "lease_ok (V(i := None)) U' (owned T) l r" if "L l = Some r" for l r
    using linvD(3) [OF inv that] lease that mem by (fastforce simp: lease_ok_def lease_on_def)
  have t: "task_ok (V(i := None)) N t" if "t \<in> set T" for t
    using linvD(6) [OF inv that] by (auto simp: task_ok_def)
  have k: "U' (lr_VMUID r) = Some j" if "(V(i := None)) j = Some v" "L (vm_leaseID v) = Some r" for j v r
    using that linvD(7) [OF inv, of j v r] mem by (auto split: if_splits)
  show ?thesis by (rule linvI [OF v u l linvD(4) [OF inv] linvD(5) [OF inv] t k])
qed

text \<open>A new MicroVM, without a uid.\<close>

lemma linv_new_vm:
  assumes inv: "linv V U L N T" and vm: "vm_id vm = N + 1" "vm_uid vm = []" "vm_phase vm = PROVISIONING" "vm_leaseID vm = []"
  shows "linv (V(N + 1 \<mapsto> vm)) U L (N + 1) T" and "N + 1 \<notin> set (owned T)" and "\<not> lease_on U L (N + 1)"
    and "V (N + 1) = None"
proof -
  show new: "V (N + 1) = None"
    using linvD(1) [OF inv, of "N + 1"] by (cases "V (N + 1)") (auto simp: vm_ok_def)
  show own: "N + 1 \<notin> set (owned T)"
    using linvD(6) [OF inv] by (fastforce simp: set_owned task_ok_def)
  show "\<not> lease_on U L (N + 1)"
    using linvD(2) [OF inv] new by (fastforce simp: lease_on_def)
  have v: "vm_ok U (N + 1) (owned T) j v" if "(V(N + 1 \<mapsto> vm)) j = Some v" for j v
    using that linvD(1) [OF inv, of j v] vm by (auto simp: vm_ok_def split: if_splits)
  have u: "u \<noteq> [] \<and> (\<exists>v. (V(N + 1 \<mapsto> vm)) j = Some v \<and> vm_uid v = u)" if "U u = Some j" for u j
    using linvD(2) [OF inv that] new by auto
  have l: "lease_ok (V(N + 1 \<mapsto> vm)) U (owned T) l r" if "L l = Some r" for l r
    using linvD(3) [OF inv that] new by (fastforce simp: lease_ok_def)
  have t: "task_ok (V(N + 1 \<mapsto> vm)) (N + 1) t" if "t \<in> set T" for t
    using linvD(6) [OF inv that] own that by (fastforce simp: task_ok_def set_owned)
  have "L [] = None" using linvD(3) [OF inv, of "[]"] by (cases "L []") (auto simp: lease_ok_def)
  then have k: "U (lr_VMUID r) = Some j" if "(V(N + 1 \<mapsto> vm)) j = Some v" "L (vm_leaseID v) = Some r" for j v r
    using that linvD(7) [OF inv, of j v r] vm by (auto split: if_splits)
  show "linv (V(N + 1 \<mapsto> vm)) U L (N + 1) T"
    by (rule linvI [OF v u l linvD(4) [OF inv] linvD(5) [OF inv] t k])
qed

text \<open>The uid that a Host has given, to a MicroVM in no one's hands.\<close>

lemma linv_set_uid:
  assumes inv: "linv V U L N T" and vm: "V i = Some vm" "vm_uid vm = []" "i \<notin> set (owned T)"
    and u: "u \<noteq> []" "U u = None" and vm': "vm' = vm\<lparr>vm_uid := u, vm_updated := now\<rparr>"
    and phase: "\<not> at_rest (vm_phase vm)"
  shows "linv (V(i \<mapsto> vm')) (U(u \<mapsto> i)) L N T"
proof -
  have Ui: "U w \<noteq> Some i" for w using linvD(2) [OF inv, of w i] vm by auto
  have v: "vm_ok (U(u \<mapsto> i)) N (owned T) j v" if "(V(i \<mapsto> vm')) j = Some v" for j v
    using that linvD(1) [OF inv] vm vm' u phase by (cases "j = i") (auto simp: vm_ok_def)
  have u': "w \<noteq> [] \<and> (\<exists>v. (V(i \<mapsto> vm')) j = Some v \<and> vm_uid v = w)" if "(U(u \<mapsto> i)) w = Some j" for w j
    using that linvD(2) [OF inv, of w j] Ui u vm' by (auto split: if_splits)
  have l: "lease_ok (V(i \<mapsto> vm')) (U(u \<mapsto> i)) (owned T) l r" if "L l = Some r" for l r
    using linvD(3) [OF inv that] Ui u by (fastforce simp: lease_ok_def)
  have t: "task_ok (V(i \<mapsto> vm')) N t" if "t \<in> set T" for t
    using linvD(6) [OF inv that] vm(3) that by (fastforce simp: task_ok_def set_owned)
  have k: "(U(u \<mapsto> i)) (lr_VMUID r) = Some j" if "(V(i \<mapsto> vm')) j = Some v" "L (vm_leaseID v) = Some r" for j v r
    using that linvD(7) [OF inv, of j] vm vm' u by (cases "j = i") auto
  show ?thesis by (rule linvI [OF v u' l linvD(4) [OF inv] linvD(5) [OF inv] t k])
qed

end
