(* ===== verification/FakeKeep.thy ===== *)
theory FakeKeep
  imports FakeInv
begin

section \<open>Every critical section keeps the invariant\<close>

text \<open>
  The invariant of the fake battery's state, and that each critical section of
  \<open>FakeReconcile\<close> and \<open>FakeOps\<close> keeps it.
\<close>

subsection \<open>What the small operations leave alone\<close>

lemma map_of_map_entry [simp]: "map_of (AList.map_entry k f al) = (map_of al)(k := map_option f (map_of al k))"
  by (induction al) (auto simp: fun_eq_iff)

lemma keys_map_entry [simp]: "map fst (AList.map_entry k f al) = map fst al"
  by (induction al) auto

lemma map_entry_None: "k \<notin> fst ` set al \<Longrightarrow> AList.map_entry k f al = al"
  by (induction al) auto

lemmas alist_simps [simp] = update_conv' delete_conv' distinct_update distinct_delete

text \<open>The part of the state that the invariant is about.\<close>

definition core :: "fake \<Rightarrow> (int \<times> vmState) list \<times> (string \<rightharpoonup> int) \<times> (string \<times> LeaseRecord) list \<times> int \<times> task list" where
  "core b = (fk_vms b, fk_vmByUID b, fk_leases b, fk_nextVM b, fk_tasks b)"

lemma core_eqD:
  assumes "core b = core b'"
  shows "fk_vms b = fk_vms b'" "fk_vmByUID b = fk_vmByUID b'" "fk_leases b = fk_leases b'" "fk_nextVM b = fk_nextVM b'"
    "fk_tasks b = fk_tasks b'"
  using assms by (simp_all add: core_def)

lemma upd_pool_frame [simp]:
  "fk_vms (upd_pool p f b) = fk_vms b" "fk_vmByUID (upd_pool p f b) = fk_vmByUID b"
  "fk_leases (upd_pool p f b) = fk_leases b" "fk_nextVM (upd_pool p f b) = fk_nextVM b"
  "fk_tasks (upd_pool p f b) = fk_tasks b" "fk_pools (upd_pool p f b) = fk_pools b"
  "fk_nextPool (upd_pool p f b) = fk_nextPool b" "fk_hosts (upd_pool p f b) = fk_hosts b"
  "fk_running (upd_pool p f b) = fk_running b" "fk_stopped (upd_pool p f b) = fk_stopped b"
  "fk_placement (upd_pool p f b) = fk_placement b" "fk_faults (upd_pool p f b) = fk_faults b"
  "fk_heap (upd_pool p f b) = (fk_heap b)(p := f (fk_heap b p))" "fk_stoppedCtx (upd_pool p f b) = fk_stoppedCtx b"
  "fk_events (upd_pool p f b) = fk_events b" "fk_nextCtx (upd_pool p f b) = fk_nextCtx b"
  "fk_unavailableUntil (upd_pool p f b) = fk_unavailableUntil b"
  by (simp_all add: upd_pool_def)

lemma upd_vm_frame [simp]:
  "fk_vms (upd_vm i f b) = AList.map_entry i f (fk_vms b)" "fk_vmByUID (upd_vm i f b) = fk_vmByUID b"
  "fk_leases (upd_vm i f b) = fk_leases b" "fk_nextVM (upd_vm i f b) = fk_nextVM b"
  "fk_tasks (upd_vm i f b) = fk_tasks b" "fk_pools (upd_vm i f b) = fk_pools b"
  "fk_nextPool (upd_vm i f b) = fk_nextPool b" "fk_hosts (upd_vm i f b) = fk_hosts b"
  "fk_running (upd_vm i f b) = fk_running b" "fk_stopped (upd_vm i f b) = fk_stopped b"
  "fk_placement (upd_vm i f b) = fk_placement b" "fk_faults (upd_vm i f b) = fk_faults b"
  "fk_heap (upd_vm i f b) = fk_heap b" "fk_stoppedCtx (upd_vm i f b) = fk_stoppedCtx b"
  "fk_events (upd_vm i f b) = fk_events b" "fk_nextCtx (upd_vm i f b) = fk_nextCtx b"
  "fk_unavailableUntil (upd_vm i f b) = fk_unavailableUntil b"
  by (simp_all add: upd_vm_def)

lemma spawn_frame [simp]:
  "fk_vms (spawn ts b) = fk_vms b" "fk_vmByUID (spawn ts b) = fk_vmByUID b"
  "fk_leases (spawn ts b) = fk_leases b" "fk_nextVM (spawn ts b) = fk_nextVM b"
  "fk_tasks (spawn ts b) = fk_tasks b @ ts" "fk_pools (spawn ts b) = fk_pools b"
  "fk_nextPool (spawn ts b) = fk_nextPool b" "fk_hosts (spawn ts b) = fk_hosts b"
  "fk_running (spawn ts b) = fk_running b" "fk_stopped (spawn ts b) = fk_stopped b"
  "fk_placement (spawn ts b) = fk_placement b" "fk_faults (spawn ts b) = fk_faults b"
  "fk_heap (spawn ts b) = fk_heap b" "fk_stoppedCtx (spawn ts b) = fk_stoppedCtx b"
  "fk_events (spawn ts b) = fk_events b" "fk_nextCtx (spawn ts b) = fk_nextCtx b"
  "fk_unavailableUntil (spawn ts b) = fk_unavailableUntil b"
  by (simp_all add: spawn_def)

lemma core_emitLocked [simp]: "core (emitLocked now key u e pl b) = core b"
  by (simp add: emitLocked_def core_def Let_def split: option.split)

lemma core_reconcilerLocked [simp]: "core (snd (reconcilerLocked p b)) = core b"
  by (simp add: reconcilerLocked_def core_def split: option.split)

lemma core_stopReconcilerLocked [simp]: "core (stopReconcilerLocked p b) = core b"
  by (simp add: stopReconcilerLocked_def core_def split: option.split)

lemma core_consumeHookFailure [simp]: "core (snd (consumeHookFailure key kind b)) = core b"
  by (simp add: consumeHookFailure_def core_def split: prod.split)

lemma core_kickReconcile [simp]: "core (kickReconcile b) = core b"
  by (simp add: kickReconcile_def core_def)

lemmas emitLocked_frame [simp] = core_eqD [OF core_emitLocked]
lemmas reconcilerLocked_frame [simp] = core_eqD [OF core_reconcilerLocked]
lemmas stopReconcilerLocked_frame [simp] = core_eqD [OF core_stopReconcilerLocked]
lemmas consumeHookFailure_frame [simp] = core_eqD [OF core_consumeHookFailure]
lemmas kickReconcile_frame [simp] = core_eqD [OF core_kickReconcile]

lemma dropLeaseLocked_frame [simp]:
  "fk_vms (dropLeaseLocked l b) = fk_vms b" "fk_vmByUID (dropLeaseLocked l b) = fk_vmByUID b"
  "fk_nextVM (dropLeaseLocked l b) = fk_nextVM b" "fk_tasks (dropLeaseLocked l b) = fk_tasks b"
  "fk_pools (dropLeaseLocked l b) = fk_pools b" "fk_nextPool (dropLeaseLocked l b) = fk_nextPool b"
  by (simp_all add: dropLeaseLocked_def Let_def split: option.split)

lemma dropLeaseLocked_leases [simp]: "fk_leases (dropLeaseLocked l b) = AList.delete l (fk_leases b)"
proof (cases "lease_of b l")
  case None
  then have "l \<notin> fst ` set (fk_leases b)" by (simp add: map_of_eq_None_iff)
  then show ?thesis using None by (simp add: dropLeaseLocked_def)
next
  case (Some r)
  then show ?thesis by (simp add: dropLeaseLocked_def Let_def split: option.split)
qed

lemma setPhaseLocked_frame [simp]:
  "fk_vms (setPhaseLocked now i ph b) = AList.map_entry i (\<lambda>vm. vm\<lparr>vm_phase := ph, vm_updated := now\<rparr>) (fk_vms b)"
  "fk_vmByUID (setPhaseLocked now i ph b) = fk_vmByUID b"
  "fk_leases (setPhaseLocked now i ph b) = fk_leases b" "fk_nextVM (setPhaseLocked now i ph b) = fk_nextVM b"
  "fk_tasks (setPhaseLocked now i ph b) = fk_tasks b" "fk_pools (setPhaseLocked now i ph b) = fk_pools b"
  by (simp_all add: setPhaseLocked_def)

subsection \<open>The invariant on the state\<close>

definition fake_inv :: "fake \<Rightarrow> bool" where
  "fake_inv b \<longleftrightarrow>
     linv (vm_of b) (fk_vmByUID b) (lease_of b) (fk_nextVM b) (fk_tasks b) \<and>
     distinct (map fst (fk_vms b)) \<and> distinct (map fst (fk_leases b))"

lemma fake_inv_core: "core b = core b' \<Longrightarrow> fake_inv b = fake_inv b'"
  using core_eqD [of b b'] by (simp add: fake_inv_def)

lemma fake_inv_simps [simp]:
  "fake_inv (emitLocked now key u e pl b) = fake_inv b" "fake_inv (snd (reconcilerLocked p b)) = fake_inv b"
  "fake_inv (stopReconcilerLocked p b) = fake_inv b" "fake_inv (snd (consumeHookFailure key kind b)) = fake_inv b"
  "fake_inv (kickReconcile b) = fake_inv b" "fake_inv (upd_pool p f b) = fake_inv b"
  by (rule fake_inv_core; simp add: core_def)+

abbreviation fk_owned :: "fake \<Rightarrow> int list" where
  "fk_owned b \<equiv> owned (fk_tasks b)"

definition leased :: "fake \<Rightarrow> int \<Rightarrow> bool" where
  "leased b i = lease_on (fk_vmByUID b) (lease_of b) i"

lemma fake_invD:
  assumes "fake_inv b"
  shows "linv (vm_of b) (fk_vmByUID b) (lease_of b) (fk_nextVM b) (fk_tasks b)"
    and "distinct (map fst (fk_vms b))" and "distinct (map fst (fk_leases b))"
  using assms by (simp_all add: fake_inv_def)

lemma vm_inv:
  assumes "fake_inv b" "vm_of b i = Some vm"
  shows "vm_id vm = i" "i \<le> fk_nextVM b" "vm_uid vm \<noteq> [] \<Longrightarrow> fk_vmByUID b (vm_uid vm) = Some i"
    "at_rest (vm_phase vm) \<Longrightarrow> vm_uid vm \<noteq> [] \<and> i \<notin> set (fk_owned b)"
  using linvD(1) [OF fake_invD(1) [OF assms(1)] assms(2)] by (auto simp: vm_ok_def)

lemma lease_inv:
  assumes "fake_inv b" "lease_of b l = Some r"
  obtains i vm where "fk_vmByUID b (lr_VMUID r) = Some i" "vm_of b i = Some vm" "vm_leaseID vm = l" "vm_id vm = i"
    "vm_uid vm = lr_VMUID r" "vm_pool vm = lr_Pool r" "vm_phase vm = LEASED \<or> vm_phase vm = DELETING"
    "i \<notin> set (fk_owned b)" "lr_LeaseID r = l" "l \<noteq> []"
proof -
  note inv = fake_invD(1) [OF assms(1)]
  from linvD(3) [OF inv assms(2)] obtain i vm where
    *: "fk_vmByUID b (lr_VMUID r) = Some i" "vm_of b i = Some vm" "vm_leaseID vm = l" "vm_pool vm = lr_Pool r"
    "vm_phase vm = LEASED \<or> vm_phase vm = DELETING" "i \<notin> set (fk_owned b)" "lr_LeaseID r = l" "l \<noteq> []"
    by (auto simp: lease_ok_def)
  moreover have "vm_uid vm = lr_VMUID r" using linvD(2) [OF inv *(1)] *(2) by auto
  ultimately show ?thesis using that vm_inv(1) [OF assms(1) *(2)] by blast
qed

lemma no_empty_lease: "fake_inv b \<Longrightarrow> lease_of b [] = None"
  by (cases "lease_of b []") (auto elim: lease_inv)

lemma known_lease:
  "fake_inv b \<Longrightarrow> vm_of b i = Some vm \<Longrightarrow> lease_of b (vm_leaseID vm) = Some r \<Longrightarrow> fk_vmByUID b (lr_VMUID r) = Some i"
  using linvD(7) fake_invD(1) by blast

lemma task_inv:
  assumes "fake_inv b" "t \<in> set (fk_tasks b)" "owner t = Some (i, k, h)"
  shows "i \<le> fk_nextVM b" "i \<in> set (fk_owned b)"
    and "vm_of b i = Some vm \<Longrightarrow> vm_pool vm = k \<and> vm_host vm = h \<and> (unborn t \<longleftrightarrow> vm_uid vm = [])"
  using linvD(6) [OF fake_invD(1) [OF assms(1)] assms(2)] assms(2,3) by (auto simp: task_ok_def set_owned)

lemma owned_not_leased: "fake_inv b \<Longrightarrow> i \<in> set (fk_owned b) \<Longrightarrow> \<not> leased b i"
  by (auto simp: leased_def lease_on_def elim!: lease_inv)

lemma owned_phase:
  "fake_inv b \<Longrightarrow> i \<in> set (fk_owned b) \<Longrightarrow> vm_of b i = Some vm \<Longrightarrow> \<not> at_rest (vm_phase vm)"
  using vm_inv(4) by blast

text \<open>The Lease of a MicroVM is the one the MicroVM knows.\<close>

lemma leasedD:
  assumes "fake_inv b" "leased b i" "vm_of b i = Some vm"
  shows "\<exists>r. lease_of b (vm_leaseID vm) = Some r \<and> lr_VMUID r = vm_uid vm" "vm_leaseID vm \<noteq> []"
    "vm_phase vm = LEASED \<or> vm_phase vm = DELETING"
proof -
  from assms(2) obtain l r where l: "lease_of b l = Some r" "fk_vmByUID b (lr_VMUID r) = Some i"
    by (auto simp: leased_def lease_on_def)
  show "\<exists>r. lease_of b (vm_leaseID vm) = Some r \<and> lr_VMUID r = vm_uid vm" "vm_leaseID vm \<noteq> []"
    "vm_phase vm = LEASED \<or> vm_phase vm = DELETING"
    using l assms(3) lease_inv [OF assms(1) l(1)] by (metis option.inject)+
qed

subsection \<open>Single changes\<close>

lemma keep_upd_vm:
  assumes inv: "fake_inv b"
    and same: "\<And>vm. vm_of b i = Some vm \<Longrightarrow>
       vm_id (f vm) = vm_id vm \<and> vm_uid (f vm) = vm_uid vm \<and> vm_pool (f vm) = vm_pool vm \<and> vm_host (f vm) = vm_host vm"
    and phase: "\<And>vm. vm_of b i = Some vm \<Longrightarrow> at_rest (vm_phase (f vm)) \<Longrightarrow>
       vm_uid vm \<noteq> [] \<and> i \<notin> set (fk_owned b)"
    and lease: "\<And>vm. vm_of b i = Some vm \<Longrightarrow> leased b i \<Longrightarrow>
       vm_leaseID (f vm) = vm_leaseID vm \<and> (vm_phase (f vm) = LEASED \<or> vm_phase (f vm) = DELETING)"
    and lid: "\<And>vm. vm_of b i = Some vm \<Longrightarrow> vm_leaseID (f vm) = vm_leaseID vm \<or> vm_leaseID (f vm) = []"
  shows "fake_inv (upd_vm i f b)"
proof (cases "vm_of b i")
  case None
  then have "i \<notin> fst ` set (fk_vms b)" by (simp add: map_of_eq_None_iff)
  then have "AList.map_entry i f (fk_vms b) = fk_vms b"
    by (rule map_entry_None)
  then show ?thesis using inv by (simp add: fake_inv_def)
next
  case (Some vm)
  have "linv ((vm_of b)(i \<mapsto> f vm)) (fk_vmByUID b) (lease_of b) (fk_nextVM b) (fk_tasks b)"
    by (rule linv_upd_vm [OF fake_invD(1) [OF inv] Some]) (use same [OF Some] phase [OF Some] lease [OF Some] lid [OF Some] no_empty_lease [OF inv] in \<open>auto simp: leased_def\<close>)
  then show ?thesis using fake_invD(2,3) [OF inv] Some by (simp add: fake_inv_def)
qed

lemma keep_setPhase:
  assumes "fake_inv b" "ph = DELETING \<or> \<not> leased b i" "\<not> at_rest ph"
  shows "fake_inv (setPhaseLocked now i ph b)"
  unfolding setPhaseLocked_def by (rule keep_upd_vm [OF assms(1)]) (use assms(2,3) in auto)

text \<open>A MicroVM that leaves the hands it was in.\<close>

lemma keep_settle:
  assumes "fake_inv b" "i \<notin> set (fk_owned b)" "\<not> leased b i" "\<And>vm. vm_of b i = Some vm \<Longrightarrow> vm_uid vm \<noteq> []"
  shows "fake_inv (setPhaseLocked now i ph b)"
  unfolding setPhaseLocked_def by (rule keep_upd_vm [OF assms(1)]) (use assms(2-4) in auto)

lemma keep_dropLease: "fake_inv b \<Longrightarrow> fake_inv (dropLeaseLocked l b)"
  by (simp add: fake_inv_def linv_drop_lease)

lemma keep_spawn_deletions: "fake_inv b \<Longrightarrow> (\<And>t. t \<in> set ts \<Longrightarrow> owner t = None) \<Longrightarrow> fake_inv (spawn ts b)"
  by (simp add: fake_inv_def linv_spawn_deletion)

lemma keep_spawn_owner:
  assumes "fake_inv b" "owner t = Some (i, k, h)" "i \<notin> set (fk_owned b)" "\<not> leased b i" "vm_of b i = Some vm"
    "vm_pool vm = k" "vm_host vm = h" "unborn t \<longleftrightarrow> vm_uid vm = []" "\<not> at_rest (vm_phase vm)"
  shows "fake_inv (spawn [t] b)"
proof -
  have "linv (vm_of b) (fk_vmByUID b) (lease_of b) (fk_nextVM b) (fk_tasks b @ [t])"
    by (rule linv_spawn_owner [OF fake_invD(1) [OF assms(1)] assms(2,3)])
      (use assms vm_inv(2) [OF assms(1,5)] in \<open>auto simp: task_ok_def leased_def\<close>)
  then show ?thesis using fake_invD(2,3) [OF assms(1)] by (simp add: fake_inv_def)
qed

text \<open>A goroutine that has been woken up is taken off the list before it runs its critical section.\<close>

definition end_task :: "task \<Rightarrow> fake \<Rightarrow> fake" where
  "end_task t b = b\<lparr>fk_tasks := remove1 t (fk_tasks b)\<rparr>"

lemma end_task_frame [simp]:
  "fk_vms (end_task t b) = fk_vms b" "fk_vmByUID (end_task t b) = fk_vmByUID b" "fk_leases (end_task t b) = fk_leases b"
  "fk_nextVM (end_task t b) = fk_nextVM b" "fk_tasks (end_task t b) = remove1 t (fk_tasks b)"
  "fk_pools (end_task t b) = fk_pools b" "fk_heap (end_task t b) = fk_heap b" "fk_hosts (end_task t b) = fk_hosts b"
  "fk_nextPool (end_task t b) = fk_nextPool b" "fk_faults (end_task t b) = fk_faults b"
  "fk_running (end_task t b) = fk_running b" "fk_stopped (end_task t b) = fk_stopped b"
  "leased (end_task t b) i = leased b i"
  by (simp_all add: end_task_def leased_def)

lemma keep_end_task: "fake_inv b \<Longrightarrow> fake_inv (end_task t b)"
  by (simp add: fake_inv_def linv_end_task)

lemma end_task_owner:
  assumes "fake_inv b" "t \<in> set (fk_tasks b)" "owner t = Some (i, k, h)"
  shows "fake_inv (end_task t b)" "i \<notin> set (fk_owned (end_task t b))" "\<not> leased (end_task t b) i"
    and "vm_of (end_task t b) i = Some vm \<Longrightarrow> vm_pool vm = k \<and> vm_host vm = h \<and> (unborn t \<longleftrightarrow> vm_uid vm = []) \<and>
      \<not> at_rest (vm_phase vm)"
proof -
  show "fake_inv (end_task t b)" by (rule keep_end_task [OF assms(1)])
  show "i \<notin> set (fk_owned (end_task t b))"
    using owner_released [OF linvD(5) [OF fake_invD(1) [OF assms(1)]] assms(2,3)] by simp
  show "\<not> leased (end_task t b) i"
    using owned_not_leased [OF assms(1) task_inv(2) [OF assms]] by simp
  show "vm_of (end_task t b) i = Some vm \<Longrightarrow> vm_pool vm = k \<and> vm_host vm = h \<and> (unborn t \<longleftrightarrow> vm_uid vm = []) \<and>
      \<not> at_rest (vm_phase vm)"
    using task_inv [OF assms] owned_phase [OF assms(1)] by simp
qed

lemma leased_simps [simp]:
  "leased (upd_vm j f b) i = leased b i" "leased (setPhaseLocked now j ph b) i = leased b i"
  "leased (emitLocked now key u e pl b) i = leased b i" "leased (spawn ts b) i = leased b i"
  "leased (snd (consumeHookFailure key kind b)) i = leased b i"
  by (simp_all add: leased_def)

subsection \<open>Reserving MicroVMs\<close>

definition fresh_ptr :: "fake \<Rightarrow> vm_ptr \<Rightarrow> bool" where
  "fresh_ptr b v \<longleftrightarrow>
     (case v of (i, k, h) \<Rightarrow>
        i \<notin> set (fk_owned b) \<and> \<not> leased b i \<and>
        (\<exists>vm. vm_of b i = Some vm \<and> vm_pool vm = k \<and> vm_host vm = h \<and> vm_uid vm = [] \<and> vm_phase vm = PROVISIONING))"

lemma keep_reserve_one:
  assumes inv: "fake_inv b"
    and b': "b' = b\<lparr>fk_nextVM := fk_nextVM b + 1,
       fk_vms := AList.update (fk_nextVM b + 1) (newVM now (fk_nextVM b + 1) key h pol) (fk_vms b)\<rparr>"
  shows "fake_inv b'" "fresh_ptr b' (fk_nextVM b + 1, key, h)" "fresh_ptr b v \<Longrightarrow> fresh_ptr b' v"
proof -
  let ?vm = "newVM now (fk_nextVM b + 1) key h pol"
  have vm: "vm_id ?vm = fk_nextVM b + 1" "vm_uid ?vm = []" "vm_phase ?vm = PROVISIONING" "vm_leaseID ?vm = []" "vm_pool ?vm = key" "vm_host ?vm = h"
    by (simp_all add: newVM_def)
  note new = linv_new_vm [OF fake_invD(1) [OF inv] vm(1-4)]
  show "fake_inv b'" using new(1) fake_invD(2,3) [OF inv] by (simp add: fake_inv_def b')
  show "fresh_ptr b' (fk_nextVM b + 1, key, h)"
    using new(2,3) vm by (simp add: fresh_ptr_def b' leased_def)
  show "fresh_ptr b v \<Longrightarrow> fresh_ptr b' v"
    using new(4) by (auto simp: fresh_ptr_def b' leased_def split: prod.splits)
qed

lemma fresh_ptr_upd_pool [simp]: "fresh_ptr (upd_pool p f b) v = fresh_ptr b v"
  by (simp add: fresh_ptr_def leased_def)

lemma keep_reserve:
  assumes "fake_inv b" "reserve now p n b = (vs, b')"
  shows "fake_inv b' \<and> fk_tasks b' = fk_tasks b \<and> fk_leases b' = fk_leases b \<and> fk_pools b' = fk_pools b \<and>
    distinct (map fst vs) \<and> (\<forall>v. fresh_ptr b v \<longrightarrow> fresh_ptr b' v) \<and>
    (\<forall>v\<in>set vs. fresh_ptr b' v \<and> fk_nextVM b < fst v)"
  using assms
proof (induction n arbitrary: b vs b')
  case (Suc n)
  show ?case
  proof (cases "pickHostLocked (pool_at b p) b")
    case (Pair ho ps)
    show ?thesis
    proof (cases ho)
      case None
      then show ?thesis using Suc.prems Pair by simp
    next
      case (Some h)
      let ?i = "fk_nextVM b + 1"
      let ?b1 = "b\<lparr>fk_nextVM := ?i,
         fk_vms := AList.update ?i (newVM now ?i (pl_key ps) h (ps_HookFailurePolicy (pl_spec ps))) (fk_vms b)\<rparr>"
      note one = keep_reserve_one [OF Suc.prems(1) refl, where now = now and key = "pl_key ps" and h = h and pol = "ps_HookFailurePolicy (pl_spec ps)"]
      obtain vs' where r: "reserve now p n (upd_pool p (\<lambda>_. ps) ?b1) = (vs', b')" "vs = (?i, pl_key ps, h) # vs'"
        using Suc.prems(2) Pair Some by (auto simp: Let_def split: prod.splits)
      have "fake_inv (upd_pool p (\<lambda>_. ps) ?b1)" using one(1) by simp
      from Suc.IH [OF this r(1)] show ?thesis using one(2,3) r(2) by auto
    qed
  qed
qed simp

lemma keep_spawn_fresh:
  assumes "fake_inv b" "distinct (map fst vs)" "\<forall>v\<in>set vs. fresh_ptr b v"
  shows "fake_inv (spawn (map (ProvStart ctx) vs) b)"
  using assms
proof (induction vs arbitrary: b)
  case (Cons v vs)
  obtain i k h where v: "v = (i, k, h)" by (cases v)
  then obtain vm where vm: "i \<notin> set (fk_owned b)" "\<not> leased b i" "vm_of b i = Some vm" "vm_pool vm = k" "vm_host vm = h"
    "vm_uid vm = []" "vm_phase vm = PROVISIONING"
    using Cons.prems(3) by (auto simp: fresh_ptr_def)
  have inv: "fake_inv (spawn [ProvStart ctx v] b)"
    by (rule keep_spawn_owner [OF Cons.prems(1) _ vm(1-5)]) (use v vm in simp_all)
  have "fresh_ptr (spawn [ProvStart ctx v] b) v'" if "v' \<in> set vs" for v'
    using Cons.prems(2,3) that v by (force simp: fresh_ptr_def split: prod.splits)
  then have "fake_inv (spawn (map (ProvStart ctx) vs) (spawn [ProvStart ctx v] b))"
    using Cons.IH [OF inv] Cons.prems(2) by simp
  then show ?case by (simp add: spawn_def)
qed (simp add: spawn_def)

lemma fresh_ptr_core: "core b = core b' \<Longrightarrow> fresh_ptr b v = fresh_ptr b' v"
  using core_eqD [of b b'] by (simp add: fresh_ptr_def leased_def)

lemma keep_provisionN:
  assumes "fake_inv b"
  shows "fake_inv (provisionNLocked now p n reason b)"
proof -
  obtain vs b1 where r: "reserve now p n b = (vs, b1)" by (cases "reserve now p n b")
  note keep = keep_reserve [OF assms r]
  let ?b2 = "emitLocked now (pl_key (pool_at b1 p)) [] POOL_REPLENISHING
    [(''count'', PInt (int (length vs))), (''reason'', PStr reason)] b1"
  obtain ctx b3 where c: "reconcilerLocked p ?b2 = (ctx, b3)" by (cases "reconcilerLocked p ?b2")
  have core: "core b3 = core b1" using core_reconcilerLocked [of p ?b2] c by simp
  have "fake_inv (spawn (map (ProvStart ctx) vs) b3)"
    by (rule keep_spawn_fresh) (use keep fake_inv_core [OF core] fresh_ptr_core [OF core] in auto)
  then show ?thesis using assms keep r c by (simp add: provisionNLocked_def Let_def)
qed

subsection \<open>Deletions and hooks\<close>

lemma keep_remove_vm:
  assumes inv: "fake_inv b" and vm: "vm_of b i = Some vm" and lease: "\<not> leased b i"
  shows "fake_inv (b\<lparr>fk_vms := AList.delete i (fk_vms b),
    fk_vmByUID := (if vm_uid vm \<noteq> [] then (fk_vmByUID b)(vm_uid vm := None) else fk_vmByUID b)\<rparr>)"
  using linv_delete_vm [OF fake_invD(1) [OF inv] vm _ refl] lease fake_invD(2,3) [OF inv]
  by (simp add: fake_inv_def leased_def)

lemma not_leased_after_drop:
  assumes "fake_inv b" "vm_of b i = Some vm"
  shows "\<not> leased (if vm_leaseID vm \<noteq> [] then dropLeaseLocked (vm_leaseID vm) b else b) i"
proof
  assume l: "leased (if vm_leaseID vm \<noteq> [] then dropLeaseLocked (vm_leaseID vm) b else b) i"
  then obtain l r where "lease_of b l = Some r" "fk_vmByUID b (lr_VMUID r) = Some i" "l \<noteq> vm_leaseID vm \<or> vm_leaseID vm = []"
    by (auto simp: leased_def lease_on_def split: if_splits)
  then show False using lease_inv [OF assms(1)] assms(2) by (metis option.inject)
qed

lemma keep_replace:
  assumes "fake_inv b"
  shows "fake_inv (case pool_of b k of
      None \<Rightarrow> b
    | Some p \<Rightarrow>
        (let b3 = (case e of None \<Rightarrow> b | Some e \<Rightarrow> emitLocked now k u e pl b)
         in provisionNLocked now p (onDeleted (strategyOf (pl_spec (pool_at b3 p)))) reason b3))"
  using assms by (simp add: Let_def keep_provisionN split: option.split)

lemma finishDeletion_inv:
  assumes "fake_inv b" "vm_of b i = Some vm"
  shows "fake_inv
    (if vm_leaseID vm \<noteq> []
     then dropLeaseLocked (vm_leaseID vm) (b\<lparr>fk_vms := AList.delete i (fk_vms b),
       fk_vmByUID := (if vm_uid vm \<noteq> [] then (fk_vmByUID b)(vm_uid vm := None) else fk_vmByUID b)\<rparr>)
     else b\<lparr>fk_vms := AList.delete i (fk_vms b),
       fk_vmByUID := (if vm_uid vm \<noteq> [] then (fk_vmByUID b)(vm_uid vm := None) else fk_vmByUID b)\<rparr>)"
    (is "fake_inv ?b2")
proof -
  let ?b0 = "if vm_leaseID vm \<noteq> [] then dropLeaseLocked (vm_leaseID vm) b else b"
  have "fake_inv ?b0" using keep_dropLease [OF assms(1)] assms(1) by simp
  then have "fake_inv (?b0\<lparr>fk_vms := AList.delete i (fk_vms ?b0),
    fk_vmByUID := (if vm_uid vm \<noteq> [] then (fk_vmByUID ?b0)(vm_uid vm := None) else fk_vmByUID ?b0)\<rparr>)"
    by (rule keep_remove_vm [OF _ _ not_leased_after_drop [OF assms]]) (use assms(2) in simp)
  moreover have "core ?b2 = core (?b0\<lparr>fk_vms := AList.delete i (fk_vms ?b0),
    fk_vmByUID := (if vm_uid vm \<noteq> [] then (fk_vmByUID ?b0)(vm_uid vm := None) else fk_vmByUID ?b0)\<rparr>)"
    by (simp add: core_def)
  ultimately show ?thesis using fake_inv_core by blast
qed

lemma keep_finishDeletion:
  assumes "fake_inv b"
  shows "fake_inv (finishDeletionLocked now i b)"
proof (cases "vm_of b i")
  case (Some vm)
  show ?thesis
    unfolding finishDeletionLocked_def Some option.case Let_def
    by (rule keep_replace [OF finishDeletion_inv [OF assms Some], unfolded Let_def])
qed (simp add: finishDeletionLocked_def assms)

lemma keep_deleteVM_begin:
  assumes "fake_inv b"
  shows "fake_inv (snd (deleteVM_begin now i e b))"
proof -
  let ?b1 = "upd_vm i (\<lambda>vm. vm\<lparr>vm_phase := DELETING, vm_updated := now,
      vm_deleteEvent := (case e of None \<Rightarrow> vm_deleteEvent vm | Some e \<Rightarrow> Some e)\<rparr>) b"
  have 1: "fake_inv ?b1" by (rule keep_upd_vm [OF assms]) auto
  have 2: "fake_inv (upd_vm i (\<lambda>vm. vm\<lparr>vm_deleteInFlight := True\<rparr>) ?b1)"
    by (rule keep_upd_vm [OF 1]) auto
  show ?thesis using 1 2 assms by (simp add: deleteVM_begin_def Let_def split: option.split)
qed

lemma keep_plain_upd:
  assumes "fake_inv b" "\<And>vm. vm_id (f vm) = vm_id vm" "\<And>vm. vm_uid (f vm) = vm_uid vm" "\<And>vm. vm_pool (f vm) = vm_pool vm"
    "\<And>vm. vm_host (f vm) = vm_host vm" "\<And>vm. vm_phase (f vm) = vm_phase vm" "\<And>vm. vm_leaseID (f vm) = vm_leaseID vm"
  shows "fake_inv (upd_vm i f b)"
proof (rule keep_upd_vm [OF assms(1)])
  fix vm assume "vm_of b i = Some vm" "at_rest (vm_phase (f vm))"
  then show "vm_uid vm \<noteq> [] \<and> i \<notin> set (fk_owned b)" using vm_inv(4) [OF assms(1)] assms(6) by simp
next
  fix vm assume "vm_of b i = Some vm" "leased b i"
  then show "vm_leaseID (f vm) = vm_leaseID vm \<and> (vm_phase (f vm) = LEASED \<or> vm_phase (f vm) = DELETING)"
    using leasedD(3) [OF assms(1)] assms(6,7) by simp
qed (use assms in simp_all)

lemma keep_deleteVM_end: "fake_inv b \<Longrightarrow> fake_inv (deleteVM_end now i confirmed b)"
  by (simp add: deleteVM_end_def Let_def keep_finishDeletion keep_plain_upd)

lemma keep_applyHookFailurePolicy:
  assumes inv: "fake_inv b" and lease: "\<not> leased b i" and own: "i \<notin> set (fk_owned b)"
    and uid: "\<And>vm. vm_of b i = Some vm \<Longrightarrow> vm_uid vm \<noteq> []"
  shows "fake_inv (applyHookFailurePolicy now i hook cause b)"
proof (cases "vm_of b i")
  case (Some vm)
  let ?b1 = "upd_vm i (\<lambda>vm. vm\<lparr>vm_leaseID := []\<rparr>) b"
  have 1: "fake_inv ?b1"
  proof (rule keep_upd_vm [OF inv])
    fix vm assume "vm_of b i = Some vm" "at_rest (vm_phase (vm\<lparr>vm_leaseID := []\<rparr>))"
    then show "vm_uid vm \<noteq> [] \<and> i \<notin> set (fk_owned b)" using vm_inv(4) [OF inv] by simp
  qed (use lease in auto)
  have 2: "fake_inv (emitLocked now k u e pl ?b1)" "\<not> leased (emitLocked now k u e pl ?b1) i" for k u e pl
    using 1 lease by simp_all
  have 3: "fake_inv (setPhaseLocked now i QUARANTINED (emitLocked now k u e pl ?b1))" for k u e pl
    by (rule keep_settle [OF 2(1)]) (use own uid lease in auto)
  show ?thesis
    unfolding applyHookFailurePolicy_def using Some inv
    by (auto simp: Let_def split: option.split intro!: keep_spawn_deletions keep_setPhase 2 3)
qed (simp add: applyHookFailurePolicy_def inv)

subsection \<open>Provisioning\<close>

lemma keep_dropReserved:
  assumes "fake_inv b" "\<not> leased b i" "\<And>vm. vm_of b i = Some vm \<Longrightarrow> vm_uid vm = []"
  shows "fake_inv (dropReserved i b)"
proof (cases "vm_of b i")
  case None
  then have "AList.delete i (fk_vms b) = fk_vms b" by (simp add: map_of_eq_None_iff)
  then show ?thesis using assms(1) by (simp add: dropReserved_def fake_inv_def)
next
  case (Some vm)
  have "core (dropReserved i b) = core (b\<lparr>fk_vms := AList.delete i (fk_vms b),
    fk_vmByUID := (if vm_uid vm \<noteq> [] then (fk_vmByUID b)(vm_uid vm := None) else fk_vmByUID b)\<rparr>)"
    using assms(3) [OF Some] by (simp add: dropReserved_def core_def)
  then show ?thesis using keep_remove_vm [OF assms(1) Some assms(2)] fake_inv_core by blast
qed

lemma keep_provision_start:
  assumes "fake_inv b" "ProvStart ctx v \<in> set (fk_tasks b)"
  shows "fake_inv (provision_start ctx v (end_task (ProvStart ctx v) b))"
proof -
  obtain i k h where v: "v = (i, k, h)" by (cases v)
  let ?t = "ProvStart ctx v" and ?b = "end_task (ProvStart ctx v) b"
  have o: "owner ?t = Some (i, k, h)" using v by simp
  note e = end_task_owner [OF assms o]
  have drop: "fake_inv (dropReserved i ?b)"
    by (rule keep_dropReserved [OF e(1,3)]) (use e(4) in simp)
  show ?thesis
  proof (cases "vm_of ?b i")
    case None
    have t: "task_ok (vm_of ?b) (fk_nextVM ?b) (ProvCreate ctx v cmds)" for cmds
      using None task_inv(1) [OF assms o] v by (simp add: task_ok_def)
    have "fake_inv (spawn [ProvCreate ctx v cmds] ?b)" for cmds
      using linv_spawn_owner [OF fake_invD(1) [OF e(1)] _ e(2) t] e(3) fake_invD(2,3) [OF e(1)] None v
      by (simp add: fake_inv_def leased_def)
    then show ?thesis using drop v by (simp add: provision_start_def split: option.split)
  next
    case (Some vm)
    have "fake_inv (spawn [ProvCreate ctx v cmds] ?b)" for cmds
      by (rule keep_spawn_owner [OF e(1) _ e(2,3) Some]) (use e(4) [OF Some] v in auto)
    then show ?thesis using drop v by (simp add: provision_start_def split: option.split)
  qed
qed

lemma keep_set_uid:
  assumes "fake_inv b" "vm_of b i = Some vm" "vm_uid vm = []" "i \<notin> set (fk_owned b)" "u \<noteq> []" "fk_vmByUID b u = None"
    "\<not> at_rest (vm_phase vm)"
  shows "fake_inv (upd_vm i (\<lambda>vm. vm\<lparr>vm_uid := u, vm_updated := now\<rparr>) (b\<lparr>fk_vmByUID := (fk_vmByUID b)(u \<mapsto> i)\<rparr>))"
  using linv_set_uid [OF fake_invD(1) [OF assms(1)] assms(2-6) refl, of now] assms(2,7) fake_invD(2,3) [OF assms(1)]
  by (simp add: fake_inv_def)

lemma keep_provision_created:
  assumes "fake_inv b" "ProvCreate ctx v cmds \<in> set (fk_tasks b)" "\<And>u. created = Some u \<Longrightarrow> fk_vmByUID b u = None"
  shows "fake_inv (provision_created now ctx v cmds created (end_task (ProvCreate ctx v cmds) b))"
proof -
  obtain i k h where v: "v = (i, k, h)" by (cases v)
  let ?t = "ProvCreate ctx v cmds" and ?b = "end_task (ProvCreate ctx v cmds) b"
  have o: "owner ?t = Some (i, k, h)" using v by simp
  note e = end_task_owner [OF assms(1,2) o]
  have drop: "fake_inv (dropReserved i ?b)" by (rule keep_dropReserved [OF e(1,3)]) (use e(4) in simp)
  show ?thesis
  proof (cases "\<exists>u. created = Some u \<and> u \<noteq> [] \<and> aliveLocked i ?b")
    case False
    then show ?thesis using drop e(1) v by (auto simp: provision_created_def split: option.split)
  next
    case True
    then obtain u vm where u: "created = Some u" "u \<noteq> []" "aliveLocked i ?b" "vm_of ?b i = Some vm"
      by (auto simp: aliveLocked_def split: option.splits)
    have vm: "vm_pool vm = k" "vm_host vm = h" "vm_uid vm = []" "\<not> at_rest (vm_phase vm)"
      using e(4) [OF u(4)] by simp_all
    let ?b1 = "emitLocked now k u VM_PROVISIONED [(''host'', PStr h)]
      (upd_vm i (\<lambda>vm. vm\<lparr>vm_uid := u, vm_updated := now\<rparr>) (?b\<lparr>fk_vmByUID := (fk_vmByUID ?b)(u \<mapsto> i)\<rparr>))"
    have i1: "fake_inv ?b1"
      using keep_set_uid [OF e(1) u(4) vm(3) e(2) u(2)] assms(3) [OF u(1)] vm by simp
    have l: "\<not> leased ?b1 i"
    proof
      assume "leased ?b1 i"
      then obtain l r where r: "lease_of ?b l = Some r" "((fk_vmByUID ?b)(u \<mapsto> i)) (lr_VMUID r) = Some i"
        by (auto simp: leased_def lease_on_def)
      obtain j where "fk_vmByUID ?b (lr_VMUID r) = Some j" using lease_inv [OF e(1) r(1)] by blast
      then have "lr_VMUID r \<noteq> u" using assms(3) [OF u(1)] by auto
      then have "leased ?b i" using r by (auto simp: leased_def lease_on_def)
      then show False using e(3) by simp
    qed
    have o1: "i \<notin> set (fk_owned ?b1)" using e(2) by simp
    have vm1: "vm_of ?b1 i = Some (vm\<lparr>vm_uid := u, vm_updated := now\<rparr>)" using u(4) by simp
    have sp: "fake_inv (spawn [ProvWait ctx v cmds] ?b1)"
      by (rule keep_spawn_owner [OF i1 _ o1 l vm1]) (use vm u v in simp_all)
    show ?thesis
      using v u i1 sp keep_applyHookFailurePolicy [OF i1 l o1]
      by (simp add: provision_created_def Let_def)
  qed
qed

lemma keep_provision_waited:
  assumes "fake_inv b" "ProvWait ctx v cmds \<in> set (fk_tasks b)"
  shows "fake_inv (provision_waited now ctx v cmds failed (end_task (ProvWait ctx v cmds) b))"
proof -
  obtain i k h where v: "v = (i, k, h)" by (cases v)
  let ?t = "ProvWait ctx v cmds" and ?b = "end_task (ProvWait ctx v cmds) b"
  have o: "owner ?t = Some (i, k, h)" using v by simp
  note e = end_task_owner [OF assms o]
  let ?b1 = "setPhaseLocked now i CREATE_HOOK_RUNNING ?b"
  have 1: "fake_inv ?b1" by (rule keep_setPhase [OF e(1)]) (use e(3) in auto)
  obtain f b2 where c: "consumeHookFailure k HookCreate ?b1 = (f, b2)" by (cases "consumeHookFailure k HookCreate ?b1")
  have core: "core b2 = core ?b1" using core_consumeHookFailure [of k HookCreate ?b1] c by simp
  note b2 = core_eqD [OF core]
  have 2: "fake_inv b2" using 1 fake_inv_core [OF core] by simp
  have l: "\<not> leased b2 i" using e(3) b2 by (simp add: leased_def)
  have sp: "fake_inv (spawn [ProvHooks ctx v cmds] b2)" if "aliveLocked i ?b"
  proof -
    from that obtain vm where vm: "vm_of ?b i = Some vm" by (auto simp: aliveLocked_def split: option.splits)
    then have vm2: "vm_of b2 i = Some (vm\<lparr>vm_phase := CREATE_HOOK_RUNNING, vm_updated := now\<rparr>)" using b2 by simp
    show ?thesis
      by (rule keep_spawn_owner [OF 2 _ _ l vm2]) (use e(2,4) vm v b2 in simp_all)
  qed
  have "vm_uid vm \<noteq> []" if "vm_of b2 i = Some vm" for vm
    using that e(4) b2 by auto
  then have pol: "fake_inv (applyHookFailurePolicy now i HookCreate cause b2)" for cause
    by (intro keep_applyHookFailurePolicy [OF 2 l]) (use e(2) b2 in auto)
  show ?thesis
    using v e(1) c sp keep_applyHookFailurePolicy [OF e(1,3,2)] e(4) pol
    by (simp add: provision_waited_def split: option.split bool.split)
qed

lemma keep_provision_hooked:
  assumes "fake_inv b" "ProvHooks ctx v cmds \<in> set (fk_tasks b)"
  shows "fake_inv (provision_hooked now ctx v cmds said (end_task (ProvHooks ctx v cmds) b))"
proof -
  obtain i k h where v: "v = (i, k, h)" by (cases v)
  let ?b = "end_task (ProvHooks ctx v cmds) b"
  have o: "owner (ProvHooks ctx v cmds) = Some (i, k, h)" using v by simp
  note e = end_task_owner [OF assms o]
  have "fake_inv (setPhaseLocked now i AVAILABLE ?b)"
    by (rule keep_settle [OF e(1,2,3)]) (use e(4) in simp)
  then show ?thesis
    using v e(1) keep_applyHookFailurePolicy [OF e(1,3,2)] e(4)
    by (simp add: provision_hooked_def split: option.split)
qed

subsection \<open>The tick\<close>

lemma keep_tick_lease: "fake_inv (fst st) \<Longrightarrow> fake_inv (fst (tick_lease now l st))"
  by (cases st) (simp add: tick_lease_def keep_dropLease split: option.split)

lemma keep_tick_leases: "fake_inv (fst st) \<Longrightarrow> fake_inv (fst (fold (tick_lease now) ls st))"
  by (induction ls arbitrary: st) (simp_all add: keep_tick_lease)

lemma keep_tick_pool: "fake_inv b \<Longrightarrow> fake_inv (tick_pool now key b)"
  by (simp add: tick_pool_def Let_def keep_provisionN split: option.split)

lemma keep_tick_pools: "fake_inv b \<Longrightarrow> fake_inv (fold (tick_pool now) keys b)"
  by (induction keys arbitrary: b) (simp_all add: keep_tick_pool)

lemma keep_tick:
  assumes "fake_inv b"
  shows "fake_inv (tick leaseOrder poolOrder now b)"
proof -
  obtain b1 ex where f: "fold (tick_lease now) leaseOrder (b, []) = (b1, ex)"
    by (cases "fold (tick_lease now) leaseOrder (b, [])")
  have "fake_inv b1" using keep_tick_leases [of "(b, [])" now leaseOrder] assms f by simp
  then have "fake_inv (fold (tick_pool now) poolOrder b1)" by (rule keep_tick_pools)
  then show ?thesis
    by (auto simp: tick_def f Let_def intro!: keep_spawn_deletions)
qed

end
