(* ===== verification/FakeSteps.thy ===== *)
theory FakeSteps
  imports FakeKeep
begin

section \<open>The fake battery as a transition system\<close>

text \<open>
  The calls of the gRPC services and of the tests, and the goroutines, as the steps of one
  relation: every interleaving of critical sections is a path of it. A goroutine that is
  due takes its critical section at any time, with any outcome of the call to a Host
  before it; a uid that a Host gives is not that of another MicroVM, and a new Lease id,
  which is random, is not in use.
\<close>

subsection \<open>Steps\<close>

datatype fake_call =
  CallCreatePool PoolSpec
| CallUpdatePool PoolSpec
| CallDeletePool PoolRef bool
| CallClaimVM PoolRef string
| CallHeartbeat string
| CallReleaseVM string
| CallTick "string list" "poolKey list"
| CallSetFaults Faults
| CallRun
| CallCancel
| CallStop
| CallCleanup
| CallForget
| CallAddHost "(string \<Rightarrow> bool) option" host_spec bool
| CallUpdateHost "(string \<Rightarrow> bool) option" host_spec bool
| CallRemoveHost string
| CallCordon string bool string
| CallSubscribe "poolKey list" "poolKey option"
| CallUnsubscribe int
| CallReceive int

definition releaseVM_start :: "time \<Rightarrow> string \<Rightarrow> fake \<Rightarrow> fake" where
  "releaseVM_start now l b =
     (case releaseVM_begin now l b of
        (Inl _, b1) \<Rightarrow> b1
      | (Inr i, b1) \<Rightarrow> spawn [DelStart i (Some VM_DELETED_ON_RELEASE)] b1)"

fun call_step :: "time \<Rightarrow> fake_call \<Rightarrow> fake \<Rightarrow> fake" where
  "call_step now (CallCreatePool p) b = snd (createPool p b)"
| "call_step now (CallUpdatePool p) b = snd (updatePool p b)"
| "call_step now (CallDeletePool ref force) b = snd (deletePool now ref force b)"
| "call_step now (CallClaimVM ref rid) b = snd (claimVM_begin now ref rid b)"
| "call_step now (CallHeartbeat l) b = snd (heartbeat now l b)"
| "call_step now (CallReleaseVM l) b = releaseVM_start now l b"
| "call_step now (CallTick ls ks) b = tick ls ks now (b\<lparr>fk_kicked := False\<rparr>)"
| "call_step now (CallSetFaults f) b = SetFaults now f b"
| "call_step now CallRun b = snd (Run_begin b)"
| "call_step now CallCancel b = cancel_run b"
| "call_step now CallStop b = stop_begin b"
| "call_step now CallCleanup b = cleanup_begin b"
| "call_step now CallForget b = cleanup_end b"
| "call_step now (CallAddHost dial h skip) b = snd (addHost dial now h skip b)"
| "call_step now (CallUpdateHost dial h skip) b = snd (updateHost dial now h skip b)"
| "call_step now (CallRemoveHost name) b = snd (removeHost name b)"
| "call_step now (CallCordon name cordoned reason) b = snd (setCordoned now name cordoned reason b)"
| "call_step now (CallSubscribe order flt) b = b\<lparr>fk_events := snd (subscribe order flt (fk_events b))\<rparr>"
| "call_step now (CallUnsubscribe i) b = b\<lparr>fk_events := unsubscribe i (fk_events b)\<rparr>"
| "call_step now (CallReceive i) b =
     (case receive i (fk_events b) of None \<Rightarrow> b | Some (e, es) \<Rightarrow> b\<lparr>fk_events := es\<rparr>)"

text \<open>The loops over maps go over every key once; \<open>cleanupAll\<close> runs after \<open>stop\<close>.\<close>

fun call_ok :: "fake_call \<Rightarrow> fake \<Rightarrow> bool" where
  "call_ok (CallTick ls ks) b \<longleftrightarrow>
     fk_started b \<and> \<not> fk_stopped b \<and>
     distinct ls \<and> set ls = fst ` set (fk_leases b) \<and> distinct ks \<and> set ks = fst ` set (fk_pools b)"
| "call_ok CallStop b \<longleftrightarrow> fk_started b"
| "call_ok CallCleanup b \<longleftrightarrow> fk_stopped b"
| "call_ok CallForget b \<longleftrightarrow> fk_stopped b"
| "call_ok (CallSubscribe order flt) b \<longleftrightarrow> distinct order"
| "call_ok _ b \<longleftrightarrow> True"

text \<open>What a Host and the random source answer to a goroutine.\<close>

record outcome =
  out_uid :: "string option" \<comment> \<open>of CreateMicroVM\<close>
  out_err :: "string option" \<comment> \<open>of waiting for CREATED and of hooks\<close>
  out_deleted :: bool \<comment> \<open>of DeleteMicroVM\<close>
  out_token :: string \<comment> \<open>of \<open>newLeaseID\<close>\<close>

fun task_step :: "time \<Rightarrow> outcome \<Rightarrow> task \<Rightarrow> fake \<Rightarrow> fake" where
  "task_step now r (ProvStart ctx v) b = provision_start ctx v b"
| "task_step now r (ProvCreate ctx v cmds) b = provision_created now ctx v cmds (out_uid r) b"
| "task_step now r (ProvWait ctx v cmds) b = provision_waited now ctx v cmds (out_err r) b"
| "task_step now r (ProvHooks ctx v cmds) b = provision_hooked now ctx v cmds (out_err r) b"
| "task_step now r (DelStart i e) b =
     (case deleteVM_begin now i e b of
        (DeletionOnHost h u, b1) \<Rightarrow> spawn [DelHost i h u] b1
      | (_, b1) \<Rightarrow> b1)"
| "task_step now r (DelHost i h u) b = deleteVM_end now i (deleteOnHost (fk_hosts b) h u (out_deleted r)) b"
| "task_step now r (ClaimHooks rid p v cmds) b = snd (claimVM_end now (out_token r) rid p v cmds (out_err r) b)"

fun outcome_ok :: "outcome \<Rightarrow> task \<Rightarrow> fake \<Rightarrow> bool" where
  "outcome_ok r (ProvCreate ctx v cmds) b \<longleftrightarrow>
     (case out_uid r of None \<Rightarrow> True | Some u \<Rightarrow> fk_vmByUID b u = None)"
| "outcome_ok r (ClaimHooks rid p v cmds) b \<longleftrightarrow> out_token r \<noteq> [] \<and> lease_of b (out_token r) = None \<and> (\<forall>(i, vm)\<in>set (fk_vms b). vm_leaseID vm \<noteq> out_token r)"
| "outcome_ok r _ b \<longleftrightarrow> True"

inductive fake_step :: "time \<Rightarrow> fake \<Rightarrow> fake \<Rightarrow> bool" where
  call: "call_ok c b \<Longrightarrow> fake_step now b (call_step now c b)"
| goroutine: "t \<in> set (fk_tasks b) \<Longrightarrow> outcome_ok r t b \<Longrightarrow> fake_step now b (task_step now r t (end_task t b))"

definition fake_runs :: "fake \<Rightarrow> fake \<Rightarrow> bool" where
  "fake_runs = (\<lambda>b b'. \<exists>now. fake_step now b b')\<^sup>*\<^sup>*"

definition fake_reachable :: "fake \<Rightarrow> bool" where
  "fake_reachable b \<longleftrightarrow> (\<exists>placement hosts replay. fake_runs (New_fake placement hosts replay) b)"

lemma fake_reachable_induct [consumes 1, case_names new step]:
  assumes "fake_reachable b"
    and "\<And>placement hosts replay. P (New_fake placement hosts replay)"
    and "\<And>now b b'. fake_reachable b \<Longrightarrow> P b \<Longrightarrow> fake_step now b b' \<Longrightarrow> P b'"
  shows "P b"
proof -
  from assms(1) obtain pl hs n where r: "fake_runs (New_fake pl hs n) b" by (auto simp: fake_reachable_def)
  then show ?thesis
    unfolding fake_runs_def
  proof (induction rule: rtranclp_induct)
    case (step b b')
    then have "fake_reachable b" by (auto simp: fake_reachable_def fake_runs_def)
    then show ?case using assms(3) step by blast
  qed (rule assms(2))
qed

subsection \<open>The calls keep the invariant\<close>

lemma keep_heartbeat:
  assumes "fake_inv b"
  shows "fake_inv (snd (heartbeat now l b))"
proof (cases "lease_of b l")
  case (Some r)
  have "linv (vm_of b) (fk_vmByUID b) ((lease_of b)(l \<mapsto> r\<lparr>lr_LastHeartbeatAt := now, lr_ExpiresAt := e\<rparr>)) (fk_nextVM b) (fk_tasks b)"
    for e
    by (rule linv_upd_lease [OF fake_invD(1) [OF assms] Some]) simp_all
  then show ?thesis
    using assms fake_invD(2,3) [OF assms] Some by (simp add: heartbeat_def fake_inv_def Let_def split: option.split)
qed (simp add: heartbeat_def assms)

lemma oldestAvailable_fold:
  assumes "foldl (\<lambda>best (i, vm).
         if vm_pool vm \<noteq> key \<or> vm_phase vm \<noteq> AVAILABLE then best
         else case best of None \<Rightarrow> Some vm | Some x \<Rightarrow> if older vm x then Some vm else best) best xs = Some vm"
  shows "best = Some vm \<or> (\<exists>i. (i, vm) \<in> set xs \<and> vm_pool vm = key \<and> vm_phase vm = AVAILABLE)"
  using assms
proof (induction xs arbitrary: best)
  case (Cons x xs)
  obtain i v where x: "x = (i, v)" by (cases x)
  show ?case
    using Cons.IH [OF Cons.prems [unfolded x foldl.simps prod.case]]
    by (auto simp: x split: if_splits option.splits)
qed simp

lemma oldestAvailable_in:
  assumes "fake_inv b" "oldestAvailableLocked key b = Some vm"
  shows "vm_of b (vm_id vm) = Some vm" "vm_pool vm = key" "vm_phase vm = AVAILABLE"
proof -
  from oldestAvailable_fold assms(2) obtain i where
    *: "(i, vm) \<in> set (fk_vms b)" "vm_pool vm = key" "vm_phase vm = AVAILABLE"
    by (fastforce simp: oldestAvailableLocked_def)
  then have "vm_of b i = Some vm" using fake_invD(2) [OF assms(1)] by simp
  then show "vm_of b (vm_id vm) = Some vm" "vm_pool vm = key" "vm_phase vm = AVAILABLE"
    using vm_inv(1) [OF assms(1)] * by auto
qed

lemma keep_claimVM_begin:
  assumes inv: "fake_inv b"
  shows "fake_inv (snd (claimVM_begin now ref rid b))"
proof (cases "length rid > maxRequestIDLength \<or> (\<exists>e. poolLocked ref b = Inl e) \<or>
    (if rid \<noteq> [] then leaseByRequestIDLocked rid b else None) \<noteq> None \<or> oldestAvailableLocked ref b = None")
  case True
  then show ?thesis using inv by (auto simp: claimVM_begin_def split: option.split sum.split prod.split)
next
  case False
  then obtain p vm where f: "\<not> length rid > maxRequestIDLength" "poolLocked ref b = Inr p"
    "(if rid \<noteq> [] then leaseByRequestIDLocked rid b else None) = None" "oldestAvailableLocked ref b = Some vm"
    by (metis option.exhaust_sel sum.exhaust)
  note vm = oldestAvailable_in [OF inv f(4)]
  note own = vm_inv(4) [OF inv vm(1)]
  have nl: "\<not> leased b (vm_id vm)" using leasedD(3) [OF inv _ vm(1)] vm(3) by auto
  let ?b1 = "setPhaseLocked now (vm_id vm) PRE_LEASE_HOOK_RUNNING b"
  have i1: "fake_inv ?b1" by (rule keep_setPhase [OF inv]) (use nl in auto)
  obtain fl b2 where c: "consumeHookFailure (vm_pool vm) HookPreLease ?b1 = (fl, b2)"
    by (cases "consumeHookFailure (vm_pool vm) HookPreLease ?b1")
  have core: "core b2 = core ?b1" using core_consumeHookFailure [of "vm_pool vm" HookPreLease ?b1] c by simp
  note e = core_eqD [OF core]
  have i2: "fake_inv b2" using i1 fake_inv_core [OF core] by simp
  have l2: "\<not> leased b2 (vm_id vm)" using nl e by (simp add: leased_def)
  have v2: "vm_of b2 (vm_id vm) = Some (vm\<lparr>vm_phase := PRE_LEASE_HOOK_RUNNING, vm_updated := now\<rparr>)" using e vm by simp
  have "fake_inv (spawn [ClaimHooks rid p (vm_id vm, ref, vm_host vm) cmds] b2)" for cmds
    by (rule keep_spawn_owner [OF i2 _ _ l2 v2]) (use own vm e in auto)
  moreover have "fake_inv (applyHookFailurePolicy now (vm_id vm) HookPreLease cause b2)" for cause
    by (rule keep_applyHookFailurePolicy [OF i2 l2]) (use own vm v2 e in auto)
  ultimately show ?thesis
    using f c unfolding claimVM_begin_def
    by (simp add: split: bool.split)
qed

lemma leaseByRequestID_None:
  assumes "fake_inv b" "leaseByRequestIDLocked rid b = None" "lease_of b l = Some r"
  shows "lr_RequestID r \<noteq> rid"
  using assms(2) map_of_SomeD [OF assms(3)] by (force simp: leaseByRequestIDLocked_def find_None_iff)

lemma leaseByRequestID_Some:
  assumes "fake_inv b" "leaseByRequestIDLocked rid b = Some r"
  shows "lease_of b (lr_LeaseID r) = Some r" "lr_RequestID r = rid"
proof -
  from assms(2) obtain l where l: "(l, r) \<in> set (fk_leases b)" "lr_RequestID r = rid"
    by (auto simp: leaseByRequestIDLocked_def dest!: find_Some_D)
  then have "lease_of b l = Some r" using fake_invD(3) [OF assms(1)] by simp
  then show "lease_of b (lr_LeaseID r) = Some r" using lease_inv [OF assms(1)] by metis
  show "lr_RequestID r = rid" by (rule l(2))
qed

lemma keep_add_lease:
  assumes inv: "fake_inv b" and vm: "vm_of b i = Some vm" "vm_uid vm \<noteq> []" "i \<notin> set (fk_owned b)" "\<not> leased b i"
    and new: "lease_of b l = None" "l \<noteq> []" "lr_LeaseID r = l" "lr_VMUID r = vm_uid vm" "lr_Pool r = vm_pool vm"
    and rid: "\<And>l' r'. lease_of b l' = Some r' \<Longrightarrow> lr_RequestID r \<noteq> [] \<Longrightarrow> lr_RequestID r' \<noteq> lr_RequestID r"
    and unused: "\<forall>(i, vm)\<in>set (fk_vms b). vm_leaseID vm \<noteq> l"
  shows "fake_inv (setPhaseLocked now i LEASED (upd_vm i (\<lambda>vm. vm\<lparr>vm_leaseID := l\<rparr>)
     (b\<lparr>fk_leases := AList.update l r (fk_leases b)\<rparr>)))"
proof -
  have un: "vm_leaseID v \<noteq> l" if "vm_of b j = Some v" for j v using unused map_of_SomeD [OF that] by auto
  have "linv ((vm_of b)(i \<mapsto> vm\<lparr>vm_leaseID := l, vm_phase := LEASED, vm_updated := now\<rparr>)) (fk_vmByUID b)
    ((lease_of b)(l \<mapsto> r)) (fk_nextVM b) (fk_tasks b)"
    by (rule linv_add_lease [OF fake_invD(1) [OF inv] vm(1-3) _ new(1-2) _ _ _ _ _ refl])
      (use vm(4) new rid un in \<open>auto simp: leased_def\<close>)
  then show ?thesis using fake_invD(2,3) [OF inv] vm(1) by (simp add: fake_inv_def)
qed

lemma keep_claimVM_end:
  assumes "fake_inv b" "ClaimHooks rid p v cmds \<in> set (fk_tasks b)" "tok \<noteq> []" "lease_of b tok = None"
    "\<forall>(i, vm)\<in>set (fk_vms b). vm_leaseID vm \<noteq> tok"
  shows "fake_inv (snd (claimVM_end now tok rid p v cmds said (end_task (ClaimHooks rid p v cmds) b)))"
proof -
  obtain i k h where v: "v = (i, k, h)" by (cases v)
  let ?t = "ClaimHooks rid p v cmds" and ?b = "end_task (ClaimHooks rid p v cmds) b"
  have o: "owner ?t = Some (i, k, h)" using v by simp
  note e = end_task_owner [OF assms(1,2) o]
  show ?thesis
  proof (cases "runHooks_result (fk_hosts ?b) h cmds said = None \<and> (\<exists>vm. vm_of ?b i = Some vm) \<and> pool_of ?b k \<noteq> None")
    case False
    then show ?thesis
      using v e(1) keep_applyHookFailurePolicy [OF e(1,3,2)] e(4)
      by (auto simp: claimVM_end_def split: option.split)
  next
    case True
    then obtain vm q where vm: "vm_of ?b i = Some vm" "pool_of ?b k = Some q" "runHooks_result (fk_hosts ?b) h cmds said = None"
      by auto
    note f = e(4) [OF vm(1)]
    show ?thesis
    proof (cases "if rid \<noteq> [] then leaseByRequestIDLocked rid ?b else None")
      case (Some ls)
      have "fake_inv (upd_vm i (\<lambda>vm. vm\<lparr>vm_leaseID := []\<rparr>) ?b)"
        by (rule keep_upd_vm [OF e(1)]) (use e(3) e(4) in auto)
      then have "fake_inv (setPhaseLocked now i AVAILABLE (upd_vm i (\<lambda>vm. vm\<lparr>vm_leaseID := []\<rparr>) ?b))"
        by (rule keep_settle) (use e(2,3) f vm in auto)
      then show ?thesis using v vm Some unfolding claimVM_end_def by (simp add: Let_def)
    next
      case None
      let ?r = "\<lparr>lr_LeaseID = tok, lr_VMUID = vm_uid vm, lr_Pool = k, lr_ClaimedAt = now, lr_LastHeartbeatAt = now,
        lr_ExpiresAt = now + ps_HeartbeatExpiryThreshold (pl_spec (pool_at ?b p)), lr_RequestID = rid\<rparr>"
      have "fake_inv (setPhaseLocked now i LEASED (upd_vm i (\<lambda>vm. vm\<lparr>vm_leaseID := tok\<rparr>)
        (?b\<lparr>fk_leases := AList.update tok ?r (fk_leases ?b)\<rparr>)))"
        by (rule keep_add_lease [OF e(1) vm(1) _ e(2,3)])
          (use f assms(3-5) None leaseByRequestID_None [OF e(1)] in \<open>auto split: if_splits\<close>)
      then show ?thesis using v vm None unfolding claimVM_end_def by (simp add: Let_def keep_provisionN)
    qed
  qed
qed

text \<open>A MicroVM of a deleted Pool: marked, and without its Lease.\<close>

lemma drain_vm_frame [simp]:
  "fk_vmByUID (drain_vm now key vm b) = fk_vmByUID b" "fk_nextVM (drain_vm now key vm b) = fk_nextVM b"
  "fk_tasks (drain_vm now key vm b) = fk_tasks b"
  "map fst (fk_vms (drain_vm now key vm b)) = map fst (fk_vms b)"
  "fk_leases (drain_vm now key vm b) =
     (if vm_leaseID vm \<noteq> [] then AList.delete (vm_leaseID vm) (fk_leases b) else fk_leases b)"
  "fk_pools (drain_vm now key vm b) = fk_pools b"
  by (simp_all add: drain_vm_def Let_def emitLocked_def split: option.split)

lemma drain_vm_other: "j \<noteq> vm_id vm \<Longrightarrow> vm_of (drain_vm now key vm b) j = vm_of b j"
  by (simp add: drain_vm_def Let_def)

lemma drain_vm_this:
  assumes "vm_of b (vm_id vm) = Some vm"
  shows "vm_of (drain_vm now key vm b) (vm_id vm) =
    Some (vm\<lparr>vm_phase := DELETING, vm_updated := now, vm_leaseID := [], vm_deleteEvent := None\<rparr>)"
  using assms by (simp add: drain_vm_def Let_def)

lemma keep_drain_vm:
  assumes inv: "fake_inv b" and vm: "vm_of b (vm_id vm) = Some vm"
  shows "fake_inv (drain_vm now key vm b)"
proof -
  let ?i = "vm_id vm"
  let ?b1 = "setPhaseLocked now ?i DELETING b"
  let ?b2 = "if vm_leaseID vm \<noteq> [] then dropLeaseLocked (vm_leaseID vm) ?b1 else ?b1"
  let ?b3 = "if vm_leaseID vm \<noteq> [] then upd_vm ?i (\<lambda>vm. vm\<lparr>vm_leaseID := []\<rparr>) ?b2 else ?b2"
  have 1: "fake_inv ?b1" by (rule keep_setPhase [OF inv]) auto
  then have 2: "fake_inv ?b2" using keep_dropLease by simp
  have v1: "vm_of ?b1 ?i = Some (vm\<lparr>vm_phase := DELETING, vm_updated := now\<rparr>)" using vm by simp
  have same: "vm_leaseID (vm\<lparr>vm_phase := DELETING, vm_updated := now\<rparr>) = vm_leaseID vm" by simp
  have l2: "\<not> leased ?b2 ?i" using not_leased_after_drop [OF 1 v1] unfolding same .
  have "fake_inv (upd_vm ?i (\<lambda>vm. vm\<lparr>vm_leaseID := []\<rparr>) ?b2)"
    by (rule keep_upd_vm [OF 2]) (use v1 l2 in auto)
  then have 3: "fake_inv ?b3" using 2 by (cases "vm_leaseID vm = []") simp_all
  have "fake_inv (upd_vm ?i (\<lambda>vm. vm\<lparr>vm_deleteEvent := None\<rparr>) ?b3)" by (rule keep_plain_upd [OF 3]) simp_all
  then show ?thesis by (simp add: drain_vm_def Let_def split: if_splits)
qed

lemma keep_drain:
  assumes "fake_inv b" "distinct (map vm_id vms)" "\<forall>vm\<in>set vms. vm_of b (vm_id vm) = Some vm"
  shows "fake_inv (fold (drain_vm now key) vms b)"
  using assms
proof (induction vms arbitrary: b)
  case (Cons vm vms)
  have "fake_inv (drain_vm now key vm b)" by (rule keep_drain_vm) (use Cons.prems in simp_all)
  moreover have "\<forall>v\<in>set vms. vm_of (drain_vm now key vm b) (vm_id v) = Some v"
  proof
    fix v assume "v \<in> set vms"
    then show "vm_of (drain_vm now key vm b) (vm_id v) = Some v"
      using Cons.prems by (subst drain_vm_other) (auto simp: image_iff)
  qed
  ultimately show ?case using Cons.IH Cons.prems(2) by simp
qed simp

lemma pool_vms_of:
  assumes "fake_inv b"
  shows "vm \<in> set (pool_vms key b) \<longleftrightarrow> vm_of b (vm_id vm) = Some vm \<and> vm_pool vm = key"
    and "distinct (map vm_id (pool_vms key b))"
proof -
  have mem: "(i, v) \<in> set (fk_vms b) \<longleftrightarrow> vm_of b i = Some v" for i v using fake_invD(2) [OF assms] by simp
  show "vm \<in> set (pool_vms key b) \<longleftrightarrow> vm_of b (vm_id vm) = Some vm \<and> vm_pool vm = key"
  proof
    assume "vm \<in> set (pool_vms key b)"
    then obtain i where i: "(i, vm) \<in> set (fk_vms b)" "vm_pool vm = key" by (auto simp: pool_vms_def)
    then show "vm_of b (vm_id vm) = Some vm \<and> vm_pool vm = key" using mem vm_inv(1) [OF assms] by metis
  next
    assume "vm_of b (vm_id vm) = Some vm \<and> vm_pool vm = key"
    then show "vm \<in> set (pool_vms key b)" by (auto simp: pool_vms_def dest!: map_of_SomeD intro: image_eqI [rotated])
  qed
  have "map vm_id (map snd (fk_vms b)) = map fst (fk_vms b)"
    unfolding map_map by (rule map_cong [OF refl]) (use mem vm_inv(1) [OF assms] in \<open>auto simp: split_paired_all\<close>)
  then have "distinct (map vm_id (map snd (fk_vms b)))" using fake_invD(2) [OF assms] by (simp only:)
  then show "distinct (map vm_id (pool_vms key b))"
    unfolding pool_vms_def by (rule distinct_map_filter)
qed

lemma keep_dropLeases: "fake_inv b \<Longrightarrow> fake_inv (fold dropLeaseLocked ls b)"
  by (induction ls arbitrary: b) (simp_all add: keep_dropLease)

text \<open>The state that a \<open>DeletePool\<close> that is not refused leaves before the Pool goes.\<close>

definition drained :: "time \<Rightarrow> poolKey \<Rightarrow> nat \<Rightarrow> fake \<Rightarrow> fake" where
  "drained now ref p b = fold (drain_vm now ref) (sort_key vm_id (pool_vms ref b)) (stopReconcilerLocked p b)"

lemma keep_drained:
  assumes "fake_inv b"
  shows "fake_inv (drained now ref p b)"
  unfolding drained_def
proof (rule keep_drain)
  show "fake_inv (stopReconcilerLocked p b)" using assms by simp
  show "distinct (map vm_id (sort_key vm_id (pool_vms ref b)))"
    using pool_vms_of(2) [OF assms] by (simp add: distinct_map)
  show "\<forall>vm\<in>set (sort_key vm_id (pool_vms ref b)). vm_of (stopReconcilerLocked p b) (vm_id vm) = Some vm"
    using pool_vms_of(1) [OF assms] by simp
qed

lemma deletePool_eq:
  "deletePool now ref force b =
     (case poolLocked ref b of
        Inl e \<Rightarrow> (Some e, b)
      | Inr p \<Rightarrow>
          let vms = sort_key vm_id (pool_vms ref b);
              n = length (filter (\<lambda>vm. leasing (vm_phase vm)) vms)
          in if n > 0 \<and> \<not> force
             then (Some (Status c_FailedPrecondition (''pool '' @ PoolRef_String ref @ '' has '' @
                     show_int (int n) @ '' leased VMs, release them or delete with force'')), b)
             else
               let b1 = drained now ref p b;
                   b2 = fold dropLeaseLocked (map fst (filter (\<lambda>(l, ls). lr_Pool ls = ref) (fk_leases b1))) b1
               in (None, spawn (map (\<lambda>vm. DelStart (vm_id vm) None) vms) (b2\<lparr>fk_pools := AList.delete ref (fk_pools b2)\<rparr>)))"
  by (simp only: deletePool_def drained_def Let_def)

lemma keep_deletePool:
  assumes "fake_inv b"
  shows "fake_inv (snd (deletePool now ref force b))"
proof -
  have pools: "fake_inv (b\<lparr>fk_pools := ps\<rparr>) = fake_inv b" for b ps by (simp add: fake_inv_def)
  show ?thesis
    using assms unfolding deletePool_eq
    by (auto simp: Let_def pools split: sum.split intro!: keep_spawn_deletions keep_dropLeases keep_drained)
qed

lemma keep_releaseVM_start:
  assumes "fake_inv b"
  shows "fake_inv (releaseVM_start now l b)"
proof -
  have "fake_inv (snd (releaseVM_begin now l b))"
    using assms by (simp add: releaseVM_begin_def keep_dropLease keep_plain_upd split: option.split)
  then show ?thesis
    unfolding releaseVM_start_def
    by (auto split: prod.split sum.split intro!: keep_spawn_deletions)
qed

lemma keep_call:
  assumes "fake_inv b"
  shows "fake_inv (call_step now c b)"
proof -
  have other: "fake_inv (call_step now c b) = fake_inv b" if "core (call_step now c b) = core b"
    using that by (rule fake_inv_core)
  show ?thesis
  proof (cases c)
    case (CallTick ls ks)
    have "fake_inv (b\<lparr>fk_kicked := False\<rparr>)" using assms by (simp add: fake_inv_def)
    then show ?thesis using keep_tick CallTick by simp
  next
    case CallCleanup
    then show ?thesis using assms by (auto simp: cleanup_begin_def intro!: keep_spawn_deletions)
  qed (use assms in \<open>simp_all add: keep_deletePool keep_claimVM_begin keep_heartbeat keep_releaseVM_start cleanup_end_def keep_dropLeases\<close>,
       simp_all add: core_def fake_inv_def createPool_def updatePool_def SetFaults_def Run_begin_def cancel_run_def stop_begin_def
         addHost_def updateHost_def removeHost_def setCordoned_def Let_def split: sum.splits option.splits prod.splits)
qed

lemma keep_task:
  assumes "fake_inv b" "t \<in> set (fk_tasks b)" "outcome_ok r t b"
  shows "fake_inv (task_step now r t (end_task t b))"
proof (cases t)
  case (DelStart i e)
  have "fake_inv (snd (deleteVM_begin now i e (end_task t b)))"
    by (rule keep_deleteVM_begin [OF keep_end_task [OF assms(1)]])
  then show ?thesis using DelStart by (auto split: prod.split deletion.split intro!: keep_spawn_deletions)
next
  case (ProvCreate ctx v cmds)
  have "fake_inv (provision_created now ctx v cmds (out_uid r) (end_task (ProvCreate ctx v cmds) b))"
    by (rule keep_provision_created [OF assms(1)]) (use assms(2,3) ProvCreate in auto)
  then show ?thesis using ProvCreate by simp
qed (use assms in \<open>auto simp: keep_provision_start keep_provision_created keep_provision_waited keep_provision_hooked
        keep_claimVM_end keep_deleteVM_end keep_end_task split: option.splits\<close>)

lemma keep_step: "fake_step now b b' \<Longrightarrow> fake_inv b \<Longrightarrow> fake_inv b'"
  by (induction rule: fake_step.induct) (rule keep_call keep_task; assumption)+

lemma fake_inv_New: "fake_inv (New_fake placement hosts replay)"
  by (simp add: fake_inv_def New_fake_def linv_def)

lemma reachable_inv: "fake_reachable b \<Longrightarrow> fake_inv b"
  by (induction rule: fake_reachable_induct) (auto intro: fake_inv_New keep_step)

end
