(* ===== verification/FakeLife.thy ===== *)
theory FakeLife
  imports FakeSteps
begin

section \<open>The life of Leases and MicroVMs\<close>

text \<open>
  What one step of the fake battery can do to a Lease and to a MicroVM that is in no
  goroutine's hands.
\<close>

subsection \<open>What each operation does to existing MicroVMs and to the Leases\<close>

text \<open>
  \<open>ext b b'\<close>: nothing changes but that there may be new MicroVMs, with new ids.
\<close>

definition ext :: "fake \<Rightarrow> fake \<Rightarrow> bool" where
  "ext b b' \<longleftrightarrow>
     (\<forall>i\<le>fk_nextVM b. vm_of b' i = vm_of b i) \<and> fk_nextVM b \<le> fk_nextVM b' \<and> fk_leases b' = fk_leases b \<and>
     fk_pools b' = fk_pools b"

lemma ext_refl: "ext b b" by (simp add: ext_def)

lemma ext_trans: "ext b b1 \<Longrightarrow> ext b1 b2 \<Longrightarrow> ext b b2" by (auto simp: ext_def)

lemma ext_core: "core b' = core b \<Longrightarrow> fk_pools b' = fk_pools b \<Longrightarrow> ext b b'"
  using core_eqD [of b' b] by (simp add: ext_def)

lemma pools_frame [simp]:
  "fk_pools (emitLocked now key u e pl b) = fk_pools b" "fk_pools (snd (reconcilerLocked p b)) = fk_pools b"
  "fk_pools (stopReconcilerLocked p b) = fk_pools b" "fk_pools (snd (consumeHookFailure key kind b)) = fk_pools b"
  "fk_pools (kickReconcile b) = fk_pools b"
  by (simp_all add: emitLocked_def reconcilerLocked_def stopReconcilerLocked_def consumeHookFailure_def kickReconcile_def
      Let_def split: option.split prod.split)

lemma ext_reserve:
  assumes "fake_inv b" "reserve now p n b = (vs, b')"
  shows "ext b b'"
  using assms
proof (induction n arbitrary: b vs b')
  case (Suc n)
  show ?case
  proof (cases "pickHostLocked (pool_at b p) b")
    case (Pair ho ps)
    show ?thesis
    proof (cases ho)
      case None
      then show ?thesis using Suc.prems Pair by (simp add: ext_refl)
    next
      case (Some h)
      let ?i = "fk_nextVM b + 1"
      let ?b1 = "b\<lparr>fk_nextVM := ?i,
         fk_vms := AList.update ?i (newVM now ?i (pl_key ps) h (ps_HookFailurePolicy (pl_spec ps))) (fk_vms b)\<rparr>"
      note one = keep_reserve_one [OF Suc.prems(1) refl, where now = now and key = "pl_key ps" and h = h
          and pol = "ps_HookFailurePolicy (pl_spec ps)"]
      obtain vs' where r: "reserve now p n (upd_pool p (\<lambda>_. ps) ?b1) = (vs', b')"
        using Suc.prems(2) Pair Some by (auto simp: Let_def split: prod.splits)
      have "ext b (upd_pool p (\<lambda>_. ps) ?b1)" by (auto simp: ext_def)
      moreover have "ext (upd_pool p (\<lambda>_. ps) ?b1) b'" using one(1) r by (intro Suc.IH) simp_all
      ultimately show ?thesis by (rule ext_trans)
    qed
  qed
qed (simp add: ext_refl)

lemma ext_provisionN:
  assumes "fake_inv b"
  shows "ext b (provisionNLocked now p n reason b)"
proof -
  obtain vs b1 where r: "reserve now p n b = (vs, b1)" by (cases "reserve now p n b")
  let ?b2 = "emitLocked now (pl_key (pool_at b1 p)) [] POOL_REPLENISHING
    [(''count'', PInt (int (length vs))), (''reason'', PStr reason)] b1"
  obtain ctx b3 where c: "reconcilerLocked p ?b2 = (ctx, b3)" by (cases "reconcilerLocked p ?b2")
  have core: "core b3 = core b1" using core_reconcilerLocked [of p ?b2] c by simp
  have "fk_pools b3 = fk_pools b1" using pools_frame(2) [of p ?b2] c by simp
  with core_eqD [OF core] have 1: "ext b1 (spawn (map (ProvStart ctx) vs) b3)" by (simp add: ext_def)
  note 2 = ext_reserve [OF assms r]
  show ?thesis
    unfolding provisionNLocked_def Let_def r c prod.case using 2 ext_trans [OF 2 1] by (simp add: ext_refl c)
qed

lemma ext_replace:
  assumes "fake_inv b"
  shows "ext b (case pool_of b k of
      None \<Rightarrow> b
    | Some p \<Rightarrow>
        (let b3 = (case e of None \<Rightarrow> b | Some e \<Rightarrow> emitLocked now k u e pl b)
         in provisionNLocked now p (onDeleted (strategyOf (pl_spec (pool_at b3 p)))) reason b3))"
proof (cases "pool_of b k")
  case (Some p)
  let ?b3 = "case e of None \<Rightarrow> b | Some e \<Rightarrow> emitLocked now k u e pl b"
  have "fake_inv ?b3" using assms by (simp split: option.split)
  then have "ext ?b3 (provisionNLocked now p (onDeleted (strategyOf (pl_spec (pool_at ?b3 p)))) reason ?b3)"
    by (rule ext_provisionN)
  moreover have "ext b ?b3" by (simp add: ext_core ext_refl split: option.split)
  ultimately show ?thesis using Some ext_trans by (simp add: Let_def)
qed (simp add: ext_refl)

lemma finishDeletion_effect:
  assumes "fake_inv b" "vm_of b i = Some vm"
  shows "ext (b\<lparr>fk_vms := AList.delete i (fk_vms b),
      fk_leases := (if vm_leaseID vm \<noteq> [] then AList.delete (vm_leaseID vm) (fk_leases b) else fk_leases b)\<rparr>)
    (finishDeletionLocked now i b)"
proof -
  let ?U = "if vm_uid vm \<noteq> [] then (fk_vmByUID b)(vm_uid vm := None) else fk_vmByUID b"
  let ?b1 = "b\<lparr>fk_vms := AList.delete i (fk_vms b), fk_vmByUID := ?U\<rparr>"
  let ?b2 = "if vm_leaseID vm \<noteq> [] then dropLeaseLocked (vm_leaseID vm) ?b1 else ?b1"
  have "ext ?b2 (finishDeletionLocked now i b)"
    unfolding finishDeletionLocked_def assms(2) option.case Let_def
    by (rule ext_replace [OF finishDeletion_inv [OF assms], unfolded Let_def])
  then show ?thesis by (auto simp: ext_def split: if_splits)
qed

lemma applyHookFailurePolicy_frame [simp]:
  "j \<noteq> i \<Longrightarrow> vm_of (applyHookFailurePolicy now i hook cause b) j = vm_of b j"
  "fk_leases (applyHookFailurePolicy now i hook cause b) = fk_leases b"
  "fk_nextVM (applyHookFailurePolicy now i hook cause b) = fk_nextVM b"
  "fk_pools (applyHookFailurePolicy now i hook cause b) = fk_pools b"
  by (simp_all add: applyHookFailurePolicy_def Let_def split: option.split)

lemma aliveLocked_vm: "aliveLocked i b \<Longrightarrow> \<exists>vm. vm_of b i = Some vm"
  by (auto simp: aliveLocked_def split: option.splits)

lemma provision_frame:
  assumes "v = (i, k, h)" "j \<noteq> i"
  shows "vm_of (provision_start ctx v b) j = vm_of b j" "vm_of (provision_created now ctx v cmds c b) j = vm_of b j"
    "vm_of (provision_waited now ctx v cmds f b) j = vm_of b j" "vm_of (provision_hooked now ctx v cmds s b) j = vm_of b j"
  using assms
  by (auto simp: provision_start_def provision_created_def provision_waited_def provision_hooked_def dropReserved_def Let_def
      consumeHookFailure_def split: option.split prod.split bool.split)

lemma provision_leases:
  shows "fk_leases (provision_start ctx v b) = fk_leases b" "fk_leases (provision_created now ctx v cmds c b) = fk_leases b"
    "fk_leases (provision_waited now ctx v cmds f b) = fk_leases b" "fk_leases (provision_hooked now ctx v cmds s b) = fk_leases b"
  by (auto simp: provision_start_def provision_created_def provision_waited_def provision_hooked_def dropReserved_def Let_def
      consumeHookFailure_def split: option.split prod.split bool.split)

text \<open>A tick drops Leases, but it changes no MicroVM that is there.\<close>

lemma tick_lease_frame:
  "fk_vms (fst (tick_lease now l st)) = fk_vms (fst st)" "fk_nextVM (fst (tick_lease now l st)) = fk_nextVM (fst st)"
  "fk_pools (fst (tick_lease now l st)) = fk_pools (fst st)"
  by (cases st; simp add: tick_lease_def split: option.split)+

lemma tick_leases_frame:
  "fk_vms (fst (fold (tick_lease now) ls st)) = fk_vms (fst st)" "fk_nextVM (fst (fold (tick_lease now) ls st)) = fk_nextVM (fst st)"
  "fk_pools (fst (fold (tick_lease now) ls st)) = fk_pools (fst st)"
  by (induction ls arbitrary: st) (simp_all add: tick_lease_frame)

lemma tick_lease_of:
  "lease_of (fst (fold (tick_lease now) ls (b, ex))) l =
     (case lease_of b l of
        Some r \<Rightarrow> if l \<in> set ls \<and> pool_of b (lr_Pool r) \<noteq> None \<and> lr_ExpiresAt r \<le> now then None else Some r
      | None \<Rightarrow> None)"
proof (induction ls arbitrary: b ex)
  case (Cons x ls)
  obtain b1 ex1 where t: "tick_lease now x (b, ex) = (b1, ex1)" by (cases "tick_lease now x (b, ex)")
  have 1: "lease_of b1 l = (case lease_of b l of
        Some r \<Rightarrow> if l = x \<and> pool_of b (lr_Pool r) \<noteq> None \<and> lr_ExpiresAt r \<le> now then None else Some r
      | None \<Rightarrow> None)"
    using t by (auto simp: tick_lease_def split: option.splits if_splits)
  have 2: "fk_pools b1 = fk_pools b" using tick_leases_frame(3) [of now "[x]" "(b, ex)"] t by simp
  show ?case using Cons [of b1 ex1] t 1 2 by (auto split: option.splits)
qed (simp split: option.split)

lemma ext_tick_pool: "fake_inv b \<Longrightarrow> ext b (tick_pool now key b)"
proof (cases "pool_of b key")
  case (Some p)
  assume inv: "fake_inv b"
  show ?thesis
    unfolding tick_pool_def Some option.case Let_def
    by (rule ext_trans [OF _ ext_provisionN]) (use inv in \<open>simp_all add: ext_core core_def ext_refl ext_def\<close>)
qed (simp add: tick_pool_def ext_refl)

lemma ext_tick_pools: "fake_inv b \<Longrightarrow> ext b (fold (tick_pool now) keys b)"
proof (induction keys arbitrary: b)
  case (Cons k keys)
  then show ?case
    using ext_trans [OF ext_tick_pool [OF Cons.prems] Cons.IH [OF keep_tick_pool [OF Cons.prems]]] by simp
qed (simp add: ext_refl)

lemma tick_effect:
  assumes "fake_inv b"
  shows "i \<le> fk_nextVM b \<Longrightarrow> vm_of (tick ls ks now b) i = vm_of b i"
    and "lease_of (tick ls ks now b) l =
     (case lease_of b l of
        Some r \<Rightarrow> if l \<in> set ls \<and> pool_of b (lr_Pool r) \<noteq> None \<and> lr_ExpiresAt r \<le> now then None else Some r
      | None \<Rightarrow> None)"
proof -
  obtain b1 ex where f: "fold (tick_lease now) ls (b, []) = (b1, ex)" by (cases "fold (tick_lease now) ls (b, [])")
  have b1: "fk_vms b1 = fk_vms b" "fk_nextVM b1 = fk_nextVM b" using tick_leases_frame [of now ls "(b, [])"] f by simp_all
  have "fake_inv b1" using keep_tick_leases [of "(b, [])" now ls] assms f by simp
  from ext_tick_pools [OF this] have e: "ext b1 (fold (tick_pool now) ks b1)" .
  have l: "lease_of b1 l = (case lease_of b l of
        Some r \<Rightarrow> if l \<in> set ls \<and> pool_of b (lr_Pool r) \<noteq> None \<and> lr_ExpiresAt r \<le> now then None else Some r
      | None \<Rightarrow> None)" using tick_lease_of [of now ls b "[]" l] f by simp
  show "i \<le> fk_nextVM b \<Longrightarrow> vm_of (tick ls ks now b) i = vm_of b i" using e f b1 by (simp add: tick_def Let_def ext_def)
  show "lease_of (tick ls ks now b) l =
     (case lease_of b l of
        Some r \<Rightarrow> if l \<in> set ls \<and> pool_of b (lr_Pool r) \<noteq> None \<and> lr_ExpiresAt r \<le> now then None else Some r
      | None \<Rightarrow> None)" using e f l by (simp add: tick_def Let_def ext_def)
qed

lemma drained_tasks [simp]: "fk_tasks (drained now ref p b) = fk_tasks b"
proof -
  have "fk_tasks (fold (drain_vm now ref) vms c) = fk_tasks c" for vms c by (induction vms arbitrary: c) simp_all
  then show ?thesis by (simp add: drained_def)
qed

lemma drained_effect:
  assumes "fake_inv b"
  shows "vm_of (drained now ref p b) i =
      (case vm_of b i of
         None \<Rightarrow> None
       | Some vm \<Rightarrow>
           if vm_pool vm = ref
           then Some (vm\<lparr>vm_phase := DELETING, vm_updated := now, vm_leaseID := [], vm_deleteEvent := None\<rparr>)
           else Some vm)" (is ?mvms)
    and "lease_of (drained now ref p b) l = (case lease_of b l of
       None \<Rightarrow> None | Some r \<Rightarrow> if lr_Pool r = ref then None else Some r)" (is ?leases)
    and "fk_nextVM (drained now ref p b) = fk_nextVM b" "fk_pools (drained now ref p b) = fk_pools b"
proof -
  let ?vms = "sort_key vm_id (pool_vms ref b)"
  have fold: "vm_of (fold (drain_vm now ref) vms c) i =
      (if i \<in> vm_id ` set vms
       then map_option (\<lambda>vm. vm\<lparr>vm_phase := DELETING, vm_updated := now, vm_leaseID := [], vm_deleteEvent := None\<rparr>) (vm_of c i)
       else vm_of c i) \<and>
      lease_of (fold (drain_vm now ref) vms c) l = (if l \<noteq> [] \<and> l \<in> vm_leaseID ` set vms then None else lease_of c l) \<and>
      fk_nextVM (fold (drain_vm now ref) vms c) = fk_nextVM c \<and> fk_pools (fold (drain_vm now ref) vms c) = fk_pools c"
    if "distinct (map vm_id vms)" "\<forall>vm\<in>set vms. vm_of c (vm_id vm) = Some vm" for vms c
    using that
  proof (induction vms arbitrary: c)
    case (Cons vm vms)
    have 1: "\<forall>v\<in>set vms. vm_of (drain_vm now ref vm c) (vm_id v) = Some v"
    proof
      fix v assume "v \<in> set vms"
      then show "vm_of (drain_vm now ref vm c) (vm_id v) = Some v"
        using Cons.prems by (subst drain_vm_other) (auto simp: image_iff)
    qed
    have "vm_of (drain_vm now ref vm c) i = (if i = vm_id vm
      then Some (vm\<lparr>vm_phase := DELETING, vm_updated := now, vm_leaseID := [], vm_deleteEvent := None\<rparr>) else vm_of c i)"
      using drain_vm_this [of c vm now ref] drain_vm_other [of i vm now ref c] Cons.prems(2) by simp
    then show ?case using Cons.IH [OF _ 1] Cons.prems by (auto simp: image_iff)
  qed simp
  have d: "distinct (map vm_id ?vms)" "\<forall>vm\<in>set ?vms. vm_of (stopReconcilerLocked p b) (vm_id vm) = Some vm"
    using pool_vms_of [OF assms] by (simp_all add: distinct_map)
  note f = fold [OF d]
  have mem: "i \<in> vm_id ` set ?vms \<longleftrightarrow> (\<exists>vm. vm_of b i = Some vm \<and> vm_pool vm = ref)"
    using pool_vms_of(1) [OF assms] vm_inv(1) [OF assms] by (auto simp: image_iff) metis
  show ?mvms using f mem unfolding drained_def by (auto split: option.split)
  have "l \<noteq> [] \<and> l \<in> vm_leaseID ` set ?vms \<longleftrightarrow> lr_Pool r = ref" if r: "lease_of b l = Some r" for r
  proof -
    obtain j vm where vm: "vm_of b j = Some vm" "vm_leaseID vm = l" "vm_id vm = j" "vm_pool vm = lr_Pool r" "l \<noteq> []"
      "vm_uid vm = lr_VMUID r" "fk_vmByUID b (lr_VMUID r) = Some j"
      using lease_inv [OF assms r] by metis
    show ?thesis
    proof
      assume "lr_Pool r = ref"
      then show "l \<noteq> [] \<and> l \<in> vm_leaseID ` set ?vms" using vm pool_vms_of(1) [OF assms] by (auto simp: image_iff)
    next
      assume "l \<noteq> [] \<and> l \<in> vm_leaseID ` set ?vms"
      then obtain v where v: "v \<in> set ?vms" "vm_leaseID v = l" by auto
      then have "vm_of b (vm_id v) = Some v" "vm_pool v = ref" using pool_vms_of(1) [OF assms] by auto
      moreover from this have "fk_vmByUID b (lr_VMUID r) = Some (vm_id v)" using known_lease [OF assms] r v(2) by blast
      ultimately show "lr_Pool r = ref" using vm by simp
    qed
  qed
  then show ?leases using f unfolding drained_def by (auto split: option.split)
  show "fk_nextVM (drained now ref p b) = fk_nextVM b" "fk_pools (drained now ref p b) = fk_pools b"
    using f by (simp_all add: drained_def)
qed

lemma dropLeases_frame [simp]:
  "fk_vms (fold dropLeaseLocked ls b) = fk_vms b" "fk_nextVM (fold dropLeaseLocked ls b) = fk_nextVM b"
  "fk_pools (fold dropLeaseLocked ls b) = fk_pools b" "fk_tasks (fold dropLeaseLocked ls b) = fk_tasks b"
  by (induction ls arbitrary: b) simp_all

lemma dropLeases_of: "lease_of (fold dropLeaseLocked ls b) l = (if l \<in> set ls then None else lease_of b l)"
  by (induction ls arbitrary: b) auto

text \<open>
  A \<open>DeletePool\<close> is refused, without any change, when the Pool is not there, or when it has
  leased MicroVMs and the call does not force it.
\<close>

definition delete_refused :: "poolKey \<Rightarrow> bool \<Rightarrow> fake \<Rightarrow> bool" where
  "delete_refused ref force b \<longleftrightarrow>
     pool_of b ref = None \<or> \<not> force \<and> (\<exists>i vm. vm_of b i = Some vm \<and> vm_pool vm = ref \<and> leasing (vm_phase vm))"

lemma deletePool_effect:
  assumes inv: "fake_inv b" and del: "deletePool now ref force b = (err, b')"
  shows "delete_refused ref force b \<longleftrightarrow> err \<noteq> None" and "err \<noteq> None \<Longrightarrow> b' = b"
    and "err = None \<Longrightarrow> vm_of b' i =
      (case vm_of b i of
         None \<Rightarrow> None
       | Some vm \<Rightarrow>
           if vm_pool vm = ref
           then Some (vm\<lparr>vm_phase := DELETING, vm_updated := now, vm_leaseID := [], vm_deleteEvent := None\<rparr>)
           else Some vm)"
    and "err = None \<Longrightarrow> lease_of b' l = (case lease_of b l of None \<Rightarrow> None | Some r \<Rightarrow> if lr_Pool r = ref then None else Some r)"
    and "err = None \<Longrightarrow> pool_of b' = (pool_of b)(ref := None)"
    and "err = None \<Longrightarrow> fk_tasks b' = fk_tasks b @ map (\<lambda>vm. DelStart (vm_id vm) None) (sort_key vm_id (pool_vms ref b))"
proof -
  have refused: "0 < length (filter (\<lambda>vm. leasing (vm_phase vm)) (sort_key vm_id (pool_vms ref b))) \<longleftrightarrow>
    (\<exists>i vm. vm_of b i = Some vm \<and> vm_pool vm = ref \<and> leasing (vm_phase vm))"
    using pool_vms_of(1) [OF inv] vm_inv(1) [OF inv] by (auto simp: filter_empty_conv)
  show "delete_refused ref force b \<longleftrightarrow> err \<noteq> None"
    using del refused unfolding deletePool_eq Let_def delete_refused_def poolLocked_def
    by (auto split: option.splits if_splits)
  show "err \<noteq> None \<Longrightarrow> b' = b"
    using del unfolding deletePool_eq Let_def poolLocked_def by (auto split: option.splits if_splits)
  assume none: "err = None"
  then obtain p where b': "b' = spawn (map (\<lambda>vm. DelStart (vm_id vm) None) (sort_key vm_id (pool_vms ref b)))
      ((fold dropLeaseLocked (map fst (filter (\<lambda>(l, ls). lr_Pool ls = ref) (fk_leases (drained now ref p b)))) (drained now ref p b))
        \<lparr>fk_pools := AList.delete ref (fk_pools (drained now ref p b))\<rparr>)"
    using del unfolding deletePool_eq Let_def poolLocked_def by (auto split: option.splits if_splits)
  note d = drained_effect [OF inv, of now ref p]
  show "vm_of b' i =
      (case vm_of b i of
         None \<Rightarrow> None
       | Some vm \<Rightarrow>
           if vm_pool vm = ref
           then Some (vm\<lparr>vm_phase := DELETING, vm_updated := now, vm_leaseID := [], vm_deleteEvent := None\<rparr>)
           else Some vm)" using d(1) b' by simp
  have "l \<notin> fst ` {x \<in> set (fk_leases (drained now ref p b)). case x of (l, ls) \<Rightarrow> lr_Pool ls = ref}"
    if "lease_of (drained now ref p b) l = Some r" "lr_Pool r \<noteq> ref" for r
    using that fake_invD(3) [OF keep_drained [OF inv, of now ref p]] by (auto simp: split_beta dest: eq_key_imp_eq_value)
  then show "lease_of b' l = (case lease_of b l of None \<Rightarrow> None | Some r \<Rightarrow> if lr_Pool r = ref then None else Some r)"
    using d(2) [of l] b' by (auto simp: dropLeases_of split: option.splits if_splits)
  show "pool_of b' = (pool_of b)(ref := None)" using b' d(4) by simp
  show "fk_tasks b' = fk_tasks b @ map (\<lambda>vm. DelStart (vm_id vm) None) (sort_key vm_id (pool_vms ref b))"
    using b' by (simp add: drained_tasks)
qed

text \<open>The Lease a claim grants, and when it grants one.\<close>

definition new_lease :: "time \<Rightarrow> string \<Rightarrow> string \<Rightarrow> nat \<Rightarrow> poolKey \<Rightarrow> vmState \<Rightarrow> fake \<Rightarrow> LeaseRecord" where
  "new_lease now tok rid p k vm b =
     \<lparr>lr_LeaseID = tok, lr_VMUID = vm_uid vm, lr_Pool = k, lr_ClaimedAt = now, lr_LastHeartbeatAt = now,
      lr_ExpiresAt = now + ps_HeartbeatExpiryThreshold (pl_spec (pool_at b p)), lr_RequestID = rid\<rparr>"

definition grants :: "string \<Rightarrow> vm_ptr \<Rightarrow> string list \<Rightarrow> string option \<Rightarrow> fake \<Rightarrow> bool" where
  "grants rid v cmds said b \<longleftrightarrow>
     (case v of (i, k, h) \<Rightarrow>
        runHooks_result (fk_hosts b) h cmds said = None \<and> vm_of b i \<noteq> None \<and> pool_of b k \<noteq> None \<and>
        (rid \<noteq> [] \<longrightarrow> leaseByRequestIDLocked rid b = None))"

lemma claimVM_end_effect:
  assumes inv: "fake_inv b" and t: "ClaimHooks rid p (i, k, h) cmds \<in> set (fk_tasks b)"
    and tok: "outcome_ok r (ClaimHooks rid p (i, k, h) cmds) b"
    and b0: "b0 = end_task (ClaimHooks rid p (i, k, h) cmds) b"
    and b': "claimVM_end now (out_token r) rid p (i, k, h) cmds (out_err r) b0 = (ans, b')"
  shows "j \<noteq> i \<Longrightarrow> j \<le> fk_nextVM b \<Longrightarrow> vm_of b' j = vm_of b j"
    and "\<not> grants rid (i, k, h) cmds (out_err r) b \<Longrightarrow> fk_leases b' = fk_leases b"
    and "grants rid (i, k, h) cmds (out_err r) b \<Longrightarrow> vm_of b i = Some vm \<Longrightarrow>
      lease_of b' = (lease_of b)(out_token r \<mapsto> new_lease now (out_token r) rid p k vm b) \<and>
      vm_of b' i = Some (vm\<lparr>vm_leaseID := out_token r, vm_phase := LEASED, vm_updated := now\<rparr>) \<and>
      (\<exists>addr. ans = Inr \<lparr>cr_leaseID = out_token r, cr_vmUID = vm_uid vm, cr_host = h, cr_address = addr\<rparr>)"
proof -
  let ?t = "ClaimHooks rid p (i, k, h) cmds"
  have o: "owner ?t = Some (i, k, h)" by simp
  note e = end_task_owner [OF inv t o, folded b0]
  have g: "grants rid (i, k, h) cmds (out_err r) b = grants rid (i, k, h) cmds (out_err r) b0"
    by (simp add: grants_def b0 leaseByRequestIDLocked_def)
  let ?rec = "\<lambda>vm. new_lease now (out_token r) rid p k vm b0"
  let ?b1 = "\<lambda>vm. setPhaseLocked now i LEASED (upd_vm i (\<lambda>vm. vm\<lparr>vm_leaseID := out_token r\<rparr>)
        (b0\<lparr>fk_leases := AList.update (out_token r) (?rec vm) (fk_leases b0)\<rparr>))"
  have granted: "fake_inv (?b1 vm) \<and>
      (\<exists>b2 addr. core b2 = core (?b1 vm) \<and> fk_pools b2 = fk_pools b0 \<and> ext b2 b' \<and>
        ans = Inr \<lparr>cr_leaseID = out_token r, cr_vmUID = vm_uid vm, cr_host = h, cr_address = addr\<rparr>)"
    if gr: "grants rid (i, k, h) cmds (out_err r) b0" and vm: "vm_of b0 i = Some vm" for vm
  proof -
    have none: "(if rid \<noteq> [] then leaseByRequestIDLocked rid b0 else None) = None" using gr by (auto simp: grants_def)
    have 1: "fake_inv (?b1 vm)"
      by (rule keep_add_lease [OF e(1) vm _ e(2,3)])
        (use tok b0 none leaseByRequestID_None [OF e(1)] e(4) [OF vm] in \<open>auto simp: new_lease_def split: if_splits\<close>)
    let ?b2 = "emitLocked now k (vm_uid vm) VM_CLAIMED [(''lease_id'', PStr (out_token r)), (''host'', PStr h)] (?b1 vm)"
    have b3: "b' = provisionNLocked now p (onClaimed (strategyOf (pl_spec (pool_at b0 p)))) ''claim'' ?b2 \<and>
       ans = claim_answer b' (Inr \<lparr>cr_leaseID = out_token r, cr_vmUID = vm_uid vm, cr_host = h, cr_address = []\<rparr>)"
      using b' gr vm none unfolding claimVM_end_def new_lease_def grants_def Let_def by (auto split: option.splits)
    have "fake_inv ?b2" using 1 by simp
    from ext_provisionN [OF this] have "ext ?b2 b'" using b3 by simp
    moreover have "\<exists>addr. ans = Inr \<lparr>cr_leaseID = out_token r, cr_vmUID = vm_uid vm, cr_host = h, cr_address = addr\<rparr>"
      using b3 by (auto simp: claim_answer_def withInterfaces_def split: option.split)
    ultimately show ?thesis using 1 by (intro conjI exI [of _ ?b2]) auto
  qed
  have other: "vm_of b' j = vm_of b0 j \<and> fk_leases b' = fk_leases b0"
    if "\<not> grants rid (i, k, h) cmds (out_err r) b0" "j \<noteq> i" for j
    using b' that unfolding claimVM_end_def grants_def
    by (auto simp: Let_def split: option.splits if_splits)
  have ex: "\<exists>vm. vm_of b0 i = Some vm" if "grants rid (i, k, h) cmds (out_err r) b0" using that by (auto simp: grants_def)
  show "vm_of b' j = vm_of b j" if j: "j \<noteq> i" "j \<le> fk_nextVM b"
  proof (cases "grants rid (i, k, h) cmds (out_err r) b0")
    case True
    obtain vm where vm: "vm_of b0 i = Some vm" using ex [OF True] by blast
    from granted [OF True vm] obtain b2 where b2: "core b2 = core (?b1 vm)" "ext b2 b'" by blast
    then show ?thesis using j core_eqD [OF b2(1)] b0 by (simp add: ext_def)
  next
    case False
    then show ?thesis using other j b0 by simp
  qed
  show "fk_leases b' = fk_leases b" if "\<not> grants rid (i, k, h) cmds (out_err r) b"
    using other [of "i + 1"] that g b0 by simp
  show "lease_of b' = (lease_of b)(out_token r \<mapsto> new_lease now (out_token r) rid p k vm b) \<and>
      vm_of b' i = Some (vm\<lparr>vm_leaseID := out_token r, vm_phase := LEASED, vm_updated := now\<rparr>) \<and>
      (\<exists>addr. ans = Inr \<lparr>cr_leaseID = out_token r, cr_vmUID = vm_uid vm, cr_host = h, cr_address = addr\<rparr>)"
    if gr: "grants rid (i, k, h) cmds (out_err r) b" and vm: "vm_of b i = Some vm"
  proof -
    have vm0: "vm_of b0 i = Some vm" using vm b0 by simp
    from granted [OF gr [unfolded g] vm0] obtain b2 addr where
      b2: "core b2 = core (?b1 vm)" "ext b2 b'"
      "ans = Inr \<lparr>cr_leaseID = out_token r, cr_vmUID = vm_uid vm, cr_host = h, cr_address = addr\<rparr>" by blast
    have n: "new_lease now (out_token r) rid p k vm b0 = new_lease now (out_token r) rid p k vm b" by (simp add: new_lease_def b0)
    have "i \<le> fk_nextVM b2" using vm_inv(2) [OF inv vm] core_eqD(4) [OF b2(1)] b0 by simp
    then show ?thesis using b2 core_eqD [OF b2(1)] vm0 b0 n by (auto simp: ext_def)
  qed
qed

lemma claimVM_begin_leases: "fk_leases (snd (claimVM_begin now ref rid b)) = fk_leases b"
  by (simp add: claimVM_begin_def consumeHookFailure_def split: option.split sum.split prod.split bool.split)

lemma claimVM_begin_effect:
  assumes inv: "fake_inv b" and vm: "vm_of b i = Some vm"
  shows "\<exists>vm'. vm_of (snd (claimVM_begin now ref rid b)) i = Some vm' \<and>
      (vm' = vm \<or> vm_phase vm = AVAILABLE \<and> vm_phase vm' \<in> {PRE_LEASE_HOOK_RUNNING, QUARANTINED, DELETING} \<and>
         vm_leaseID vm' \<in> {vm_leaseID vm, []})"
proof (cases "oldestAvailableLocked ref b")
    case (Some v)
    note v = oldestAvailable_in [OF inv Some]
    show ?thesis
      using v vm Some
      by (cases "i = vm_id v")
        (auto simp: claimVM_begin_def consumeHookFailure_def applyHookFailurePolicy_def Let_def
          split: option.split sum.split prod.split bool.split)
qed (use vm in \<open>simp add: claimVM_begin_def split: sum.split option.split\<close>)

lemma deleteVM_begin_effect:
  "vm_of (snd (deleteVM_begin now i e b)) j = Some vm' \<Longrightarrow>
     \<exists>vm. vm_of b j = Some vm \<and> (j = i \<and> vm_phase vm' = DELETING \<and> vm_leaseID vm' = vm_leaseID vm \<or> vm' = vm)"
  "fk_leases (snd (deleteVM_begin now i e b)) = fk_leases b"
  by (auto simp: deleteVM_begin_def Let_def split: option.splits if_splits)

lemma deleteVM_end_effect:
  assumes inv: "fake_inv b" and vm: "vm_of b j = Some vm"
  shows "vm_of (deleteVM_end now i confirmed b) j = Some vm' \<Longrightarrow>
      vm_phase vm' = vm_phase vm \<and> vm_leaseID vm' = vm_leaseID vm"
    and "lease_of (deleteVM_end now i confirmed b) l =
      (if confirmed \<and> (\<exists>v. vm_of b i = Some v \<and> vm_leaseID v = l) then None else lease_of b l)"
proof -
  let ?f = "\<lambda>vm. vm\<lparr>vm_deleteInFlight := False\<rparr>"
  let ?b1 = "upd_vm i ?f b"
  have i1: "fake_inv ?b1" by (rule keep_plain_upd [OF inv]) simp_all
  have j: "j \<le> fk_nextVM b" by (rule vm_inv(2) [OF inv vm])
  show "vm_phase vm' = vm_phase vm \<and> vm_leaseID vm' = vm_leaseID vm" if *: "vm_of (deleteVM_end now i confirmed b) j = Some vm'"
  proof (cases "confirmed \<and> vm_of b i \<noteq> None")
    case True
    then obtain v where v: "vm_of b i = Some v" by auto
    have v1: "vm_of ?b1 i = Some (?f v)" using v by simp
    show ?thesis
      using * True finishDeletion_effect [OF i1 v1, of now] j vm
      by (cases "j = i") (auto simp: deleteVM_end_def ext_def)
  next
    case False
    then show ?thesis using * vm by (auto simp: deleteVM_end_def Let_def finishDeletionLocked_def split: if_splits)
  qed
  show "lease_of (deleteVM_end now i confirmed b) l =
      (if confirmed \<and> (\<exists>v. vm_of b i = Some v \<and> vm_leaseID v = l) then None else lease_of b l)"
  proof (cases "confirmed \<and> vm_of b i \<noteq> None")
    case True
    then obtain v where v: "vm_of b i = Some v" by auto
    have v1: "vm_of ?b1 i = Some (?f v)" using v by simp
    show ?thesis
      using True finishDeletion_effect [OF i1 v1, of now] v no_empty_lease [OF inv]
      by (auto simp: deleteVM_end_def ext_def)
  next
    case False
    then show ?thesis by (auto simp: deleteVM_end_def Let_def finishDeletionLocked_def)
  qed
qed

lemma reserve_vmByUID: "reserve now p n b = (vs, b') \<Longrightarrow> fk_vmByUID b' = fk_vmByUID b"
  by (induction n arbitrary: b vs) (auto simp: Let_def split: prod.splits option.splits)

lemma provisionN_vmByUID [simp]: "fk_vmByUID (provisionNLocked now p n reason b) = fk_vmByUID b"
proof -
  obtain vs b1 where r: "reserve now p n b = (vs, b1)" by (cases "reserve now p n b")
  then show ?thesis
    using reserve_vmByUID [OF r] reconcilerLocked_frame(2)
    by (simp add: provisionNLocked_def Let_def split_beta)
qed

lemma deleteVM_end_forgets:
  assumes "fake_inv b" "vm_of b i = Some v" "fk_vmByUID b u = Some i"
  shows "fk_vmByUID (deleteVM_end now i True b) u = None"
proof -
  have "vm_uid v = u" "u \<noteq> []" using linvD(2) [OF fake_invD(1) [OF assms(1)] assms(3)] assms(2) by auto
  then show ?thesis
    using assms(2) by (simp add: deleteVM_end_def finishDeletionLocked_def Let_def split: option.split)
qed

subsection \<open>One step\<close>

text \<open>
  The phases that a step may give to a MicroVM that no goroutine holds, and what it may do with
  the Lease that the MicroVM knows.
\<close>

fun rest_next :: "VMPhase \<Rightarrow> VMPhase set" where
  "rest_next AVAILABLE = {AVAILABLE, PRE_LEASE_HOOK_RUNNING, QUARANTINED, DELETING}"
| "rest_next LEASED = {LEASED, DELETING}"
| "rest_next QUARANTINED = {QUARANTINED, DELETING}"
| "rest_next DELETING = {DELETING}"
| "rest_next _ = UNIV"

lemma rest_next_self [simp]: "p \<in> rest_next p" "DELETING \<in> rest_next p"
  by (cases p; simp)+

definition rest_to :: "vmState \<Rightarrow> vmState \<Rightarrow> bool" where
  "rest_to vm vm' \<longleftrightarrow> vm_phase vm' \<in> rest_next (vm_phase vm) \<and> vm_leaseID vm' \<in> {vm_leaseID vm, []}"

lemma rest_to_same:
  "vm_phase vm' = vm_phase vm \<Longrightarrow> vm_leaseID vm' = vm_leaseID vm \<Longrightarrow> rest_to vm vm'"
  "vm_phase vm' = DELETING \<Longrightarrow> vm_leaseID vm' = vm_leaseID vm \<Longrightarrow> rest_to vm vm'"
  by (simp_all add: rest_to_def)

lemma releaseVM_start_effect:
  assumes "fake_inv b"
  shows "vm_of (releaseVM_start now l b) i = Some vm' \<Longrightarrow>
      \<exists>vm. vm_of b i = Some vm \<and> vm_phase vm' = vm_phase vm \<and> vm_leaseID vm' = vm_leaseID vm"
    and "fk_leases (releaseVM_start now l b) = fk_leases b"
proof -
  have "\<exists>vm. vmByUID b (lr_VMUID r) = Some vm" if "lease_of b l = Some r" for r
    using lease_inv [OF assms that] by (metis bind.bind_lunit vmByUID_def)
  then show "vm_of (releaseVM_start now l b) i = Some vm' \<Longrightarrow>
      \<exists>vm. vm_of b i = Some vm \<and> vm_phase vm' = vm_phase vm \<and> vm_leaseID vm' = vm_leaseID vm"
    "fk_leases (releaseVM_start now l b) = fk_leases b"
    by (fastforce simp: releaseVM_start_def releaseVM_begin_def split: option.splits if_splits)+
qed

lemma call_rest:
  assumes inv: "fake_inv b" and vm: "vm_of b i = Some vm" and vm': "vm_of (call_step now c b) i = Some vm'"
  shows "rest_to vm vm'"
proof (cases c)
  case (CallDeletePool ref force)
  obtain err b1 where d: "deletePool now ref force b = (err, b1)" by (cases "deletePool now ref force b")
  show ?thesis
    using vm vm' d deletePool_effect(2,3) [OF inv d] CallDeletePool by (cases err) (auto simp: rest_to_def split: if_splits)
next
  case (CallClaimVM ref rid)
  then show ?thesis using claimVM_begin_effect [OF inv vm, of now ref rid] vm' by (auto simp: rest_to_def)
next
  case (CallReleaseVM l)
  then show ?thesis using releaseVM_start_effect(1) [OF inv, of now l i vm'] vm vm' by (auto intro: rest_to_same(1))
next
  case (CallTick ls ks)
  have "fake_inv (b\<lparr>fk_kicked := False\<rparr>)" using inv by (simp add: fake_inv_def)
  from tick_effect(1) [OF this, of i ls ks now] show ?thesis
    using vm vm' vm_inv(2) [OF inv vm] CallTick by (simp add: rest_to_same(1))
qed (use vm vm' in \<open>auto simp: rest_to_same(1) createPool_def updatePool_def heartbeat_def SetFaults_def Run_begin_def
      cancel_run_def stop_begin_def cleanup_begin_def cleanup_end_def addHost_def updateHost_def removeHost_def setCordoned_def
      Let_def split: sum.splits option.splits prod.splits if_splits\<close>)

lemma task_others:
  assumes inv: "fake_inv b" and t: "t \<in> set (fk_tasks b)" and ok: "outcome_ok r t b"
    and owner: "owner t = Some (j, k, h)" and i: "i \<noteq> j" "i \<le> fk_nextVM b"
  shows "vm_of (task_step now r t (end_task t b)) i = vm_of b i"
  using owner ok t i claimVM_end_effect(1) [OF inv _ _ refl]
  by (cases t) (simp_all add: provision_frame, metis prod.collapse)

lemma task_rest:
  assumes inv: "fake_inv b" and t: "t \<in> set (fk_tasks b)" and ok: "outcome_ok r t b"
    and vm: "vm_of b i = Some vm" "i \<notin> set (fk_owned b)" and vm': "vm_of (task_step now r t (end_task t b)) i = Some vm'"
  shows "rest_to vm vm'"
proof (cases "owner t")
  case (Some v)
  obtain j k h where v: "v = (j, k, h)" by (cases v)
  have "i \<noteq> j" using vm(2) task_inv(2) [OF inv t] Some v by auto
  then show ?thesis
    using task_others [OF inv t ok, of j k h i now] vm vm' Some v vm_inv(2) [OF inv vm(1)] by (simp add: rest_to_same(1))
next
  case None
  then show ?thesis
  proof (cases t)
    case (DelStart j e)
    then have "vm_of (snd (deleteVM_begin now j e (end_task t b))) i = Some vm'"
      using vm' by (auto split: prod.splits deletion.splits)
    from deleteVM_begin_effect(1) [OF this] show ?thesis using vm by (auto intro: rest_to_same)
  next
    case (DelHost j h u)
    have "vm_of (end_task t b) i = Some vm" using vm by simp
    from deleteVM_end_effect(1) [OF keep_end_task [OF inv] this] show ?thesis
      using DelHost vm' by (fastforce intro: rest_to_same(1))
  qed simp_all
qed

lemma rest_step:
  assumes "fake_step now b b'" "fake_inv b" "vm_of b i = Some vm" "i \<notin> set (fk_owned b)" "vm_of b' i = Some vm'"
  shows "rest_to vm vm'"
  using assms by (cases rule: fake_step.cases) (auto intro: call_rest task_rest)

text \<open>
  What can happen to a Lease in one step: it is granted to the claim that holds a MicroVM
  of the Pool; it is renewed; it ends because it has expired, or because its MicroVM has
  been deleted, or with its Pool, or with the fake.
\<close>

definition granted :: "time \<Rightarrow> fake \<Rightarrow> fake \<Rightarrow> LeaseRecord \<Rightarrow> bool" where
  "granted now b b' r \<longleftrightarrow>
     (\<exists>p i h cmds vm. ClaimHooks (lr_RequestID r) p (i, lr_Pool r, h) cmds \<in> set (fk_tasks b) \<and>
        vm_of b i = Some vm \<and> vm_uid vm = lr_VMUID r \<and> \<not> leased b i \<and> pool_of b (lr_Pool r) \<noteq> None \<and>
        (\<forall>l' r'. lease_of b l' = Some r' \<longrightarrow> lr_RequestID r \<noteq> [] \<longrightarrow> lr_RequestID r' \<noteq> lr_RequestID r) \<and>
        lr_ClaimedAt r = now \<and> lr_ExpiresAt r = now + ps_HeartbeatExpiryThreshold (pl_spec (pool_at b p)))"

definition renewed :: "time \<Rightarrow> fake \<Rightarrow> LeaseRecord \<Rightarrow> LeaseRecord \<Rightarrow> bool" where
  "renewed now b r r' \<longleftrightarrow>
     (\<exists>p. pool_of b (lr_Pool r) = Some p \<and>
        r' = r\<lparr>lr_LastHeartbeatAt := now, lr_ExpiresAt := now + ps_HeartbeatExpiryThreshold (pl_spec (pool_at b p))\<rparr>)"

definition ended :: "time \<Rightarrow> fake \<Rightarrow> fake \<Rightarrow> LeaseRecord \<Rightarrow> bool" where
  "ended now b b' r \<longleftrightarrow>
     lr_ExpiresAt r \<le> now \<or> fk_vmByUID b' (lr_VMUID r) = None \<or>
     pool_of b (lr_Pool r) \<noteq> None \<and> pool_of b' (lr_Pool r) = None \<or> fk_stopped b"

definition lease_change :: "time \<Rightarrow> fake \<Rightarrow> fake \<Rightarrow> string \<Rightarrow> bool" where
  "lease_change now b b' l \<longleftrightarrow>
     (case (lease_of b l, lease_of b' l) of
        (None, None) \<Rightarrow> True
      | (None, Some r) \<Rightarrow> granted now b b' r
      | (Some r, Some r') \<Rightarrow> r' = r \<or> renewed now b r r'
      | (Some r, None) \<Rightarrow> ended now b b' r)"

lemma lease_change_same: "lease_of b' l = lease_of b l \<Longrightarrow> lease_change now b b' l"
  by (simp add: lease_change_def split: option.split)

lemma lease_change_end:
  assumes "lease_of b l = Some r" "lease_of b' l = None" "ended now b b' r"
  shows "lease_change now b b' l"
  using assms by (simp add: lease_change_def)

lemma call_lease:
  assumes inv: "fake_inv b" and ok: "call_ok c b"
  shows "lease_change now b (call_step now c b) l"
proof (cases c)
  case (CallDeletePool ref force)
  obtain err b1 where d: "deletePool now ref force b = (err, b1)" by (cases "deletePool now ref force b")
  note e = deletePool_effect [OF inv d]
  show ?thesis
  proof (cases "err = None \<and> (\<exists>r. lease_of b l = Some r \<and> lr_Pool r = ref)")
    case True
    then obtain r where r: "err = None" "lease_of b l = Some r" "lr_Pool r = ref" by blast
    have "pool_of b ref \<noteq> None" using e(1) r(1) by (auto simp: delete_refused_def)
    then show ?thesis
      using CallDeletePool d r e(4) [OF r(1)] e(5) [OF r(1)] by (intro lease_change_end [OF r(2)]) (simp_all add: ended_def)
  next
    case False
    then have "lease_of b1 l = lease_of b l"
      using e(2,4) by (cases err) (auto split: option.splits)
    then show ?thesis using CallDeletePool d by (intro lease_change_same) simp
  qed
next
  case (CallClaimVM ref rid)
  then show ?thesis by (intro lease_change_same) (simp add: claimVM_begin_leases)
next
  case (CallHeartbeat l')
  show ?thesis
  proof (cases "lease_of b l'")
    case (Some r)
    then show ?thesis
      using CallHeartbeat
      by (cases "l = l'") (auto simp: lease_change_def renewed_def heartbeat_def Let_def split: option.split)
  next
    case None
    then show ?thesis using CallHeartbeat by (intro lease_change_same) (simp add: heartbeat_def)
  qed
next
  case (CallReleaseVM l')
  then show ?thesis by (intro lease_change_same) (simp add: releaseVM_start_effect(2) [OF inv])
next
  case (CallTick ls ks)
  have "fake_inv (b\<lparr>fk_kicked := False\<rparr>)" using inv by (simp add: fake_inv_def)
  from tick_effect(2) [OF this, of ls ks now l] show ?thesis
    using CallTick by (auto simp: lease_change_def ended_def split: option.splits if_splits)
next
  case CallForget
  then show ?thesis
    using ok by (auto simp: lease_change_def ended_def cleanup_end_def dropLeases_of split: option.splits)
qed (auto intro!: lease_change_same simp: createPool_def updatePool_def SetFaults_def Run_begin_def cancel_run_def stop_begin_def
      cleanup_begin_def addHost_def updateHost_def removeHost_def setCordoned_def Let_def
      split: sum.splits option.splits prod.splits if_splits)

lemma task_lease:
  assumes inv: "fake_inv b" and t: "t \<in> set (fk_tasks b)" and ok: "outcome_ok r t b"
  shows "lease_change now b (task_step now r t (end_task t b)) l"
proof (cases t)
  case (ClaimHooks rid p v cmds)
  obtain i k h where v: "v = (i, k, h)" by (cases v)
  let ?b0 = "end_task t b"
  obtain ans b' where c: "claimVM_end now (out_token r) rid p (i, k, h) cmds (out_err r) ?b0 = (ans, b')"
    by (cases "claimVM_end now (out_token r) rid p (i, k, h) cmds (out_err r) ?b0")
  have t': "ClaimHooks rid p (i, k, h) cmds \<in> set (fk_tasks b)" using t ClaimHooks v by simp
  have ok': "outcome_ok r (ClaimHooks rid p (i, k, h) cmds) b" using ok ClaimHooks v by simp
  have b0: "?b0 = end_task (ClaimHooks rid p (i, k, h) cmds) b" using ClaimHooks v by simp
  note e = claimVM_end_effect [OF inv t' ok' b0 c]
  have b': "task_step now r t ?b0 = b'" using ClaimHooks v c by simp
  show ?thesis
  proof (cases "grants rid (i, k, h) cmds (out_err r) b \<and> l = out_token r")
    case True
    then obtain vm where vm: "vm_of b i = Some vm" by (auto simp: grants_def)
    note g = e(3) [OF conjunct1 [OF True] vm]
    have "\<not> leased b i" by (rule owned_not_leased [OF inv]) (use t' in \<open>force simp: set_owned\<close>)
    moreover have "lr_RequestID r' \<noteq> rid" if "lease_of b l' = Some r'" "rid \<noteq> []" for l' r'
      using leaseByRequestID_None [OF inv _ that(1)] True that(2) by (auto simp: grants_def)
    ultimately have "granted now b b' (new_lease now (out_token r) rid p k vm b)"
      using t' vm True by (fastforce simp: granted_def new_lease_def grants_def)
    then show ?thesis using g True ok' b' by (simp add: lease_change_def)
  next
    case False
    have "lease_of b' l = lease_of b l"
    proof (cases "grants rid (i, k, h) cmds (out_err r) b")
      case True
      then obtain vm where "vm_of b i = Some vm" by (auto simp: grants_def)
      with e(3) [OF True] show ?thesis using False True by simp
    qed (simp add: e(2))
    then show ?thesis using b' by (intro lease_change_same) simp
  qed
next
  case (DelHost i h u)
  let ?b0 = "end_task t b" and ?c = "deleteOnHost (fk_hosts b) h u (out_deleted r)"
  have i0: "fake_inv ?b0" by (rule keep_end_task [OF inv])
  have b': "task_step now r t ?b0 = deleteVM_end now i ?c ?b0" using DelHost by simp
  show ?thesis
  proof (cases "?c \<and> (\<exists>v q. vm_of b i = Some v \<and> vm_leaseID v = l \<and> lease_of b l = Some q)")
    case True
    then obtain v q where v: "?c" "vm_of b i = Some v" "vm_leaseID v = l" "lease_of b l = Some q" by blast
    have u: "fk_vmByUID b (lr_VMUID q) = Some i" using known_lease [OF inv v(2)] v by simp
    have "fk_vmByUID (deleteVM_end now i ?c ?b0) (lr_VMUID q) = None"
      using deleteVM_end_forgets [OF i0, of i v "lr_VMUID q"] v u inv by simp
    then show ?thesis
      unfolding b' using v deleteVM_end_effect(2) [OF i0, of i v now i ?c l]
      by (intro lease_change_end [OF v(4)]) (simp_all add: ended_def)
  next
    case False
    show ?thesis
    proof (cases "vm_of b i")
      case None
      then show ?thesis unfolding b' by (intro lease_change_same) (simp add: deleteVM_end_def Let_def finishDeletionLocked_def)
    next
      case (Some v)
      then show ?thesis
        unfolding b' using False deleteVM_end_effect(2) [OF i0, of i v now i ?c l]
        by (intro lease_change_same) (cases "lease_of b l"; auto)
    qed
  qed
next
  case (DelStart i e)
  then show ?thesis
    using deleteVM_begin_effect(2) [of now i e "end_task t b"]
    by (intro lease_change_same) (auto split: prod.split deletion.split)
qed (intro lease_change_same; simp add: provision_leases)+

lemma lease_step:
  assumes "fake_step now b b'" "fake_inv b"
  shows "lease_change now b b' l"
  using assms by (cases rule: fake_step.cases) (auto intro: call_lease task_lease)

end
