(* ===== verification/FakePools.thy ===== *)
theory FakePools
  imports FakeLife
begin

section \<open>Pools and Hosts of the fake battery\<close>

text \<open>
  Pools keep their names and refer only to Hosts the fake holds; MicroVMs are only on
  Hosts it holds; placement takes the Host it should; a tick brings every Pool to its
  target.
\<close>

subsection \<open>What stays of Pools and Hosts\<close>

text \<open>The Pools with their names and specifications, the Hosts and the state of the control loop.\<close>

definition env :: "fake \<Rightarrow> (poolKey \<times> nat) list \<times> nat \<times> (nat \<Rightarrow> poolKey \<times> PoolSpec) \<times> Hosts \<times> Placement \<times> bool \<times> bool \<times> bool" where
  "env b = (fk_pools b, fk_nextPool b, \<lambda>p. (pl_key (fk_heap b p), pl_spec (fk_heap b p)), fk_hosts b, fk_placement b,
     fk_running b, fk_stopped b, fk_started b)"

lemma env_eqD:
  assumes "env b = env b'"
  shows "fk_pools b = fk_pools b'" "fk_nextPool b = fk_nextPool b'" "pl_key (fk_heap b p) = pl_key (fk_heap b' p)"
    "pl_spec (fk_heap b p) = pl_spec (fk_heap b' p)" "fk_hosts b = fk_hosts b'" "fk_placement b = fk_placement b'"
    "fk_running b = fk_running b'" "fk_stopped b = fk_stopped b'" "fk_started b = fk_started b'"
  using assms by (auto simp: env_def fun_eq_iff)

lemma env_upd_pool:
  assumes "\<And>ps. pl_key (f ps) = pl_key ps" "\<And>ps. pl_spec (f ps) = pl_spec ps"
  shows "env (upd_pool p f b) = env b"
  using assms by (simp add: env_def upd_pool_def fun_eq_iff)

lemma env_simps [simp]:
  "env (upd_vm i g b) = env b" "env (spawn ts b) = env b" "env (emitLocked now key u e pl b) = env b"
  "env (snd (reconcilerLocked p b)) = env b" "env (stopReconcilerLocked p b) = env b"
  "env (snd (consumeHookFailure key kind b)) = env b" "env (kickReconcile b) = env b" "env (dropLeaseLocked l b) = env b"
  "env (setPhaseLocked now i ph b) = env b" "env (end_task t b) = env b"
  by (auto simp: env_def upd_vm_def spawn_def emitLocked_def reconcilerLocked_def stopReconcilerLocked_def
      consumeHookFailure_def kickReconcile_def dropLeaseLocked_def setPhaseLocked_def end_task_def upd_pool_def Let_def
      fun_eq_iff split: option.split prod.split)

lemma env_more [simp]:
  "env (b\<lparr>fk_vms := v\<rparr>) = env b" "env (b\<lparr>fk_vmByUID := u\<rparr>) = env b" "env (b\<lparr>fk_leases := l\<rparr>) = env b"
  "env (b\<lparr>fk_nextVM := n\<rparr>) = env b" "env (b\<lparr>fk_events := ev\<rparr>) = env b" "env (b\<lparr>fk_kicked := kk\<rparr>) = env b"
  "env (b\<lparr>fk_tasks := ts\<rparr>) = env b"
  by (simp_all add: env_def)

lemma env_pools: "env b = env c \<Longrightarrow> env (b\<lparr>fk_pools := ps\<rparr>) = env (c\<lparr>fk_pools := ps\<rparr>)"
  by (simp add: env_def)

lemma pickHost_same:
  "pl_key (snd (pickHostLocked ps b)) = pl_key ps" "pl_spec (snd (pickHostLocked ps b)) = pl_spec ps"
  by (simp_all add: pickHostLocked_def split: list.split Placement.split)

lemma env_reserve: "reserve now p n b = (vs, b') \<Longrightarrow> env b' = env b"
proof (induction n arbitrary: b vs)
  case (Suc n)
  show ?case
  proof (cases "pickHostLocked (pool_at b p) b")
    case (Pair ho ps)
    have ps: "pl_key ps = pl_key (pool_at b p)" "pl_spec ps = pl_spec (pool_at b p)"
      using pickHost_same [of "pool_at b p" b] Pair by simp_all
    show ?thesis
    proof (cases ho)
      case (Some h)
      let ?i = "fk_nextVM b + 1"
      let ?b1 = "b\<lparr>fk_nextVM := ?i,
         fk_vms := AList.update ?i (newVM now ?i (pl_key ps) h (ps_HookFailurePolicy (pl_spec ps))) (fk_vms b)\<rparr>"
      obtain vs' where r: "reserve now p n (upd_pool p (\<lambda>_. ps) ?b1) = (vs', b')"
        using Suc.prems Pair Some by (auto simp: Let_def split: prod.splits)
      have "env (upd_pool p (\<lambda>_. ps) ?b1) = env b" using ps by (simp add: env_def fun_eq_iff upd_pool_def)
      then show ?thesis using Suc.IH [OF r] by simp
    qed (use Suc.prems Pair in simp)
  qed
qed simp

lemma env_provisionN [simp]: "env (provisionNLocked now p n reason b) = env b"
proof -
  obtain vs b1 where r: "reserve now p n b = (vs, b1)" by (cases "reserve now p n b")
  then show ?thesis
    using env_reserve [OF r] by (simp add: provisionNLocked_def Let_def split_beta)
qed

lemma env_delete [simp]:
  "env (finishDeletionLocked now i b) = env b" "env (snd (deleteVM_begin now i e b)) = env b" "env (deleteVM_end now i c b) = env b"
proof -
  show f: "env (finishDeletionLocked now i b) = env b" for b
    by (simp add: finishDeletionLocked_def Let_def split: option.split)
  show "env (snd (deleteVM_begin now i e b)) = env b" by (simp add: deleteVM_begin_def Let_def split: option.split)
  show "env (deleteVM_end now i c b) = env b" by (simp add: deleteVM_end_def Let_def f)
qed

lemma env_hooks [simp]:
  "env (applyHookFailurePolicy now i hook cause b) = env b" "env (dropReserved i b) = env b"
  by (simp_all add: applyHookFailurePolicy_def dropReserved_def Let_def split: option.split)

lemma env_provision [simp]:
  "env (provision_start ctx v b) = env b" "env (provision_created now ctx v cmds cr b) = env b"
  "env (provision_waited now ctx v cmds f b) = env b" "env (provision_hooked now ctx v cmds s b) = env b"
proof -
  have c: "env b2 = env b" if "consumeHookFailure k kind b = (r, b2)" for k kind b r b2
    using env_simps(6) [of k kind b] that by simp
  show "env (provision_start ctx v b) = env b" "env (provision_created now ctx v cmds cr b) = env b"
    "env (provision_waited now ctx v cmds f b) = env b" "env (provision_hooked now ctx v cmds s b) = env b"
    by (auto simp: provision_start_def provision_created_def provision_waited_def provision_hooked_def Let_def
        split: prod.split option.split bool.split dest: c)
qed

lemma env_tick [simp]: "env (fst (tick_lease now l st)) = env (fst st)" "env (tick_pool now key b) = env b"
proof -
  have w: "env (upd_pool p (\<lambda>ps. ps\<lparr>pl_warned := f ps\<rparr>) b) = env b" "env (upd_pool p (\<lambda>ps. ps\<lparr>pl_fresh := g\<rparr>) b) = env b"
    for p f g b by (simp_all add: env_upd_pool)
  show "env (fst (tick_lease now l st)) = env (fst st)"
    by (cases st) (simp add: tick_lease_def w split: option.split)
  show "env (tick_pool now key b) = env b" by (simp add: tick_pool_def Let_def w split: option.split)
qed

lemma env_tick_whole [simp]: "env (tick ls ks now b) = env b"
proof -
  have 1: "env (fst (fold (tick_lease now) ls st)) = env (fst st)" for st by (induction ls arbitrary: st) simp_all
  have 2: "env (fold (tick_pool now) ks b) = env b" for b by (induction ks arbitrary: b) simp_all
  show ?thesis using 1 [of "(b, [])"] by (simp add: tick_def Let_def split_beta 2)
qed

lemma env_claim [simp]: "env (snd (claimVM_begin now ref rid b)) = env b" "env (snd (claimVM_end now tok rid p v cmds s b)) = env b"
proof -
  have c: "env b2 = env b" if "consumeHookFailure k kind b = (r, b2)" for k kind b r b2
    using env_simps(6) [of k kind b] that by simp
  show "env (snd (claimVM_begin now ref rid b)) = env b"
    by (auto simp: claimVM_begin_def split: sum.split prod.split option.split bool.split dest: c)
  show "env (snd (claimVM_end now tok rid p v cmds s b)) = env b"
    by (cases v) (simp add: claimVM_end_def Let_def split: option.split)
qed

lemma env_lease_ops [simp]:
  "env (snd (heartbeat now l b)) = env b" "env (releaseVM_start now l b) = env b" "env (fold dropLeaseLocked ls b) = env b"
proof -
  show "env (snd (heartbeat now l b)) = env b" by (simp add: heartbeat_def Let_def split: option.split)
  show "env (releaseVM_start now l b) = env b"
    by (simp add: releaseVM_start_def releaseVM_begin_def split: option.split)
  show "env (fold dropLeaseLocked ls b) = env b" by (induction ls arbitrary: b) simp_all
qed

lemma env_drained [simp]: "env (drained now ref p b) = env b"
proof -
  have "env (drain_vm now ref vm b) = env b" for vm b by (simp add: drain_vm_def Let_def)
  then have "env (fold (drain_vm now ref) vms b) = env b" for vms b by (induction vms arbitrary: b) simp_all
  then show ?thesis by (simp add: drained_def)
qed

lemma env_task [simp]: "env (task_step now r t b) = env b"
proof (cases t)
  case (DelStart i e)
  have "env b2 = env b" if "deleteVM_begin now i e b = (d, b2)" for d b2
    using env_delete(2) [of now i e b] that by simp
  then show ?thesis using DelStart by (simp split: prod.split deletion.split)
qed simp_all

subsection \<open>Pools keep their names, and refer to Hosts that are held\<close>

definition pool_inv :: "fake \<Rightarrow> bool" where
  "pool_inv b \<longleftrightarrow>
     (\<forall>key p. pool_of b key = Some p \<longrightarrow>
        p < fk_nextPool b \<and> pl_key (pool_at b p) = key \<and> ps_Ref (pl_spec (pool_at b p)) = key \<and>
        (\<forall>h\<in>set (ps_FlintlockHosts (pl_spec (pool_at b p))). held (fk_hosts b) h))"

lemma pool_inv_env: "env b = env b' \<Longrightarrow> pool_inv b = pool_inv b'"
  using env_eqD [of b b'] by (simp add: pool_inv_def)

lemma held_Hosts:
  "held (AList.update n e hs) h \<longleftrightarrow> h = n \<or> held hs h" "held (Hosts_Remove n hs) h \<longleftrightarrow> h \<noteq> n \<and> held hs h"
  by (auto simp: held_def Hosts_Remove_def)

lemma unknown_hosts_sub: "set acc \<subseteq> set (unknown_hosts hs ns acc)"
  by (induction ns arbitrary: acc) (auto, fastforce)

lemma unknown_hosts_None:
  assumes "unknown_hosts hs ns acc = []" "n \<in> set ns"
  shows "held hs n"
  using assms
proof (induction ns arbitrary: acc)
  case (Cons m ns)
  have "set (if \<not> held hs m \<and> m \<notin> set acc then acc @ [m] else acc) \<subseteq> {}"
    using unknown_hosts_sub [of _ hs ns] Cons.prems(1) by (metis empty_set unknown_hosts.simps(2))
  then show ?case using Cons by (auto split: if_splits)
qed simp

lemma checkFlintlockHosts_held:
  "checkFlintlockHostsLocked p b = None \<Longrightarrow> h \<in> set (ps_FlintlockHosts p) \<Longrightarrow> held (fk_hosts b) h"
  by (auto simp: checkFlintlockHostsLocked_def Let_def split: if_splits intro: unknown_hosts_None)

lemma validateSpec_same:
  "validateSpec p0 = Inr p \<Longrightarrow> ps_Ref p = ps_Ref p0 \<and> ps_FlintlockHosts p = ps_FlintlockHosts p0"
  by (auto simp: validateSpec_def split: if_splits option.splits)

lemma createPool_cases:
  assumes "createPool p0 b = (ans, b')"
  obtains (refused) e where "ans = Inl e" "b' = b"
    | (created) p where "validateSpec p0 = Inr p" "ans = Inr \<lparr>pool_Spec = p, pool_Status = zero_status\<rparr>"
        "checkFlintlockHostsLocked p b = None" "pool_of b (ps_Ref p) = None"
        "b' = kickReconcile (b\<lparr>fk_pools := AList.update (ps_Ref p) (fk_nextPool b) (fk_pools b),
                        fk_heap := (fk_heap b)(fk_nextPool b := new_pool p), fk_nextPool := fk_nextPool b + 1\<rparr>)"
  using assms by (auto simp: createPool_def split: sum.splits option.splits)

lemma updatePool_cases:
  assumes "updatePool p0 b = (ans, b')"
  obtains (refused) e where "ans = Inl e" "b' = b"
    | (updated) p a where "validateSpec p0 = Inr p" "checkFlintlockHostsLocked p b = None" "pool_of b (ps_Ref p) = Some a"
        "b' = kickReconcile (upd_pool a (\<lambda>ps. ps\<lparr>pl_spec := p, pl_fresh := True\<rparr>) (stopReconcilerLocked a b))"
        "ans = Inr \<lparr>pool_Spec = p, pool_Status = counts_status (countsLocked (ps_Ref p) b')\<rparr>"
proof (cases "\<exists>p a. validateSpec p0 = Inr p \<and> checkFlintlockHostsLocked p b = None \<and> pool_of b (ps_Ref p) = Some a")
  case True
  then obtain p a where p: "validateSpec p0 = Inr p" "checkFlintlockHostsLocked p b = None" "pool_of b (ps_Ref p) = Some a"
    by blast
  then have "b' = kickReconcile (upd_pool a (\<lambda>ps. ps\<lparr>pl_spec := p, pl_fresh := True\<rparr>) (stopReconcilerLocked a b)) \<and>
    ans = Inr \<lparr>pool_Spec = p, pool_Status = counts_status (countsLocked (ps_Ref p) b')\<rparr>"
    using assms by (auto simp: updatePool_def poolLocked_def Let_def)
  then show thesis using updated [OF p] by blast
next
  case False
  have "\<exists>e. updatePool p0 b = (Inl e, b)"
  proof (cases "validateSpec p0")
    case (Inr p)
    then show ?thesis
      using False by (cases "checkFlintlockHostsLocked p b"; cases "pool_of b (ps_Ref p)")
        (auto simp: updatePool_def poolLocked_def)
  qed (simp add: updatePool_def)
  then show thesis using assms refused by auto
qed

lemma pool_inv_create:
  assumes "pool_inv b"
  shows "pool_inv (snd (createPool p0 b))"
proof -
  obtain ans b' where c: "createPool p0 b = (ans, b')" by (cases "createPool p0 b")
  then show ?thesis
  proof (cases rule: createPool_cases)
    case (created p)
    have "p' < fk_nextPool b" if "pool_of b k = Some p'" for k p' using assms that by (simp add: pool_inv_def)
    then show ?thesis
      using c created assms checkFlintlockHosts_held [OF created(3)]
      by (auto simp: pool_inv_def kickReconcile_def new_pool_def less_SucI)
  qed (use assms c in simp)
qed

lemma pool_inv_update:
  assumes "pool_inv b"
  shows "pool_inv (snd (updatePool p0 b))"
proof -
  obtain ans b' where c: "updatePool p0 b = (ans, b')" by (cases "updatePool p0 b")
  then show ?thesis
  proof (cases rule: updatePool_cases)
    case (updated p a)
    let ?s = "stopReconcilerLocked a b"
    have s: "pool_inv ?s" using assms pool_inv_env [of ?s b] by simp
    have e: "fk_pools ?s = fk_pools b" "fk_hosts ?s = fk_hosts b" using env_eqD [of ?s b] by simp_all
    have ref: "pl_key (pool_at ?s a) = ps_Ref p" using s updated(3) e by (auto simp: pool_inv_def)
    have "pool_inv (upd_pool a (\<lambda>ps. ps\<lparr>pl_spec := p, pl_fresh := True\<rparr>) ?s)"
      unfolding pool_inv_def
    proof (intro allI impI)
      fix k q assume q: "pool_of (upd_pool a (\<lambda>ps. ps\<lparr>pl_spec := p, pl_fresh := True\<rparr>) ?s) k = Some q"
      show "q < fk_nextPool (upd_pool a (\<lambda>ps. ps\<lparr>pl_spec := p, pl_fresh := True\<rparr>) ?s) \<and>
        pl_key (pool_at (upd_pool a (\<lambda>ps. ps\<lparr>pl_spec := p, pl_fresh := True\<rparr>) ?s) q) = k \<and>
        ps_Ref (pl_spec (pool_at (upd_pool a (\<lambda>ps. ps\<lparr>pl_spec := p, pl_fresh := True\<rparr>) ?s) q)) = k \<and>
        (\<forall>h\<in>set (ps_FlintlockHosts (pl_spec (pool_at (upd_pool a (\<lambda>ps. ps\<lparr>pl_spec := p, pl_fresh := True\<rparr>) ?s) q))).
          held (fk_hosts (upd_pool a (\<lambda>ps. ps\<lparr>pl_spec := p, pl_fresh := True\<rparr>) ?s)) h)"
        using q s ref e(2) checkFlintlockHosts_held [OF updated(2)] by (cases "q = a") (auto simp: pool_inv_def)
    qed
    then show ?thesis using c updated(4) by (simp add: pool_inv_env [OF env_simps(7)])
  qed (use assms c in simp)
qed

lemma removeHost_cases:
  assumes "removeHost name b = (err, b')"
  obtains (refused) e where "err = Some e" "b' = b"
    | (removed) "err = None" "b' = b\<lparr>fk_hosts := Hosts_Remove name (fk_hosts b)\<rparr>"
        "\<And>key p. (key, p) \<in> set (fk_pools b) \<Longrightarrow> name \<notin> set (ps_FlintlockHosts (pl_spec (pool_at b p)))"
        "vmCountLocked name b = 0"
proof (cases "err")
  case (Some e)
  then have "b' = b" using assms by (auto simp: removeHost_def Let_def split: if_splits)
  then show thesis using refused Some by blast
next
  case None
  have nil: "sort xs = [] \<longleftrightarrow> xs = []" for xs :: "string list" by (metis length_0_conv length_sort)
  have "filter (\<lambda>(key, p). name \<in> set (ps_FlintlockHosts (pl_spec (pool_at b p)))) (fk_pools b) = []"
    "\<not> vmCountLocked name b > 0" "b' = b\<lparr>fk_hosts := Hosts_Remove name (fk_hosts b)\<rparr>"
    using assms None by (auto simp: removeHost_def Let_def nil split: if_splits)
  moreover have "0 \<le> vmCountLocked name b" by (simp add: vmCountLocked_def)
  ultimately show thesis using None by (intro removed) (auto simp: filter_empty_conv)
qed

lemma deletePool_env:
  "snd (deletePool now ref force b) = b \<or>
   env (snd (deletePool now ref force b)) = env (b\<lparr>fk_pools := AList.delete ref (fk_pools b)\<rparr>)"
proof -
  have e: "env ((fold dropLeaseLocked ls (drained now ref p b))\<lparr>fk_pools := ps\<rparr>) = env (b\<lparr>fk_pools := ps\<rparr>)" for p ls ps
    by (rule env_pools) simp
  have "fk_pools (drained now ref p b) = fk_pools b" for p by (rule env_eqD(1)) simp
  then show ?thesis unfolding deletePool_eq Let_def by (simp add: e split: sum.split)
qed

lemma pool_inv_call:
  assumes inv: "pool_inv b"
  shows "pool_inv (call_step now c b)"
proof -
  have same: ?thesis if "env (call_step now c b) = env b" using pool_inv_env [OF that] inv by simp
  show ?thesis
  proof (cases c)
  case (CallCreatePool p)
  then show ?thesis using pool_inv_create [OF inv] by simp
next
  case (CallUpdatePool p)
  then show ?thesis using pool_inv_update [OF inv] by simp
next
  case (CallDeletePool ref force)
  have "pool_inv (b\<lparr>fk_pools := AList.delete ref (fk_pools b)\<rparr>)" using inv by (auto simp: pool_inv_def)
  then have "pool_inv (snd (deletePool now ref force b))"
    using deletePool_env [of now ref force b] inv pool_inv_env by metis
  then show ?thesis using CallDeletePool by simp
next
  case (CallRemoveHost name)
  obtain err b' where r: "removeHost name b = (err, b')" by (cases "removeHost name b")
  then show ?thesis
  proof (cases rule: removeHost_cases)
    case removed
    have "held (Hosts_Remove name (fk_hosts b)) h"
      if "pool_of b key = Some p" "h \<in> set (ps_FlintlockHosts (pl_spec (pool_at b p)))" for key p h
      using that inv removed(3) [OF map_of_SomeD [OF that(1)]] by (auto simp: pool_inv_def held_Hosts)
    then show ?thesis using CallRemoveHost r removed(2) inv by (auto simp: pool_inv_def)
  qed (use CallRemoveHost inv r in simp)
next
  case (CallClaimVM ref rid)
  show ?thesis by (rule same) (simp add: CallClaimVM split: option.split prod.split)
next
  case (CallHeartbeat l)
  show ?thesis by (rule same) (simp add: CallHeartbeat split: option.split prod.split)
next
  case (CallReleaseVM l)
  show ?thesis by (rule same) (simp add: CallReleaseVM split: option.split prod.split)
next
  case (CallTick ls ks)
  show ?thesis by (rule same) (simp add: CallTick split: option.split prod.split)
next
  case (CallSubscribe ks f)
  show ?thesis by (rule same) (simp add: CallSubscribe split: option.split prod.split)
next
  case (CallUnsubscribe n)
  show ?thesis by (rule same) (simp add: CallUnsubscribe split: option.split prod.split)
next
  case (CallReceive n)
  show ?thesis by (rule same) (simp add: CallReceive split: option.split prod.split)
next
  case (CallSetFaults f)
  show ?thesis by (rule same) (simp add: CallSetFaults SetFaults_def Let_def env_def)
next
  case CallCleanup
  show ?thesis by (rule same) (simp add: CallCleanup cleanup_begin_def)
next
  case CallForget
  show ?thesis by (rule same) (simp add: CallForget cleanup_end_def)
next
  case (CallAddHost dial h skip)
  then show ?thesis
    using inv by (simp add: addHost_def kickReconcile_def Let_def pool_inv_def held_Hosts split: option.split sum.split)
next
  case (CallUpdateHost dial h skip)
  then show ?thesis
    using inv by (simp add: updateHost_def kickReconcile_def Let_def pool_inv_def held_Hosts split: option.split sum.split)
next
  case (CallCordon name cordoned reason)
  then show ?thesis
    using inv by (simp add: setCordoned_def kickReconcile_def Let_def pool_inv_def held_Hosts split: option.split)
qed (use inv in \<open>simp_all add: Run_begin_def cancel_run_def stop_begin_def pool_inv_def\<close>)
qed

subsection \<open>MicroVMs are on Hosts that are held\<close>

text \<open>\<open>on_hosts S b b'\<close>: every MicroVM of \<open>b'\<close> is on a Host of \<open>S\<close> or where it was in \<open>b\<close>.\<close>

definition on_hosts :: "string set \<Rightarrow> fake \<Rightarrow> fake \<Rightarrow> bool" where
  "on_hosts S b b' \<longleftrightarrow>
     (\<forall>i vm'. vm_of b' i = Some vm' \<longrightarrow> vm_host vm' \<in> S \<or> (\<exists>vm. vm_of b i = Some vm \<and> vm_host vm = vm_host vm'))"

lemma on_hosts_refl: "on_hosts S b b" by (simp add: on_hosts_def)

lemma on_hosts_trans: "on_hosts S b b1 \<Longrightarrow> on_hosts S b1 b2 \<Longrightarrow> on_hosts S b b2"
  by (fastforce simp: on_hosts_def)

lemma on_hosts_vms: "fk_vms b' = fk_vms b \<Longrightarrow> on_hosts S b b'"
  by (simp add: on_hosts_def)

lemma on_hosts_frame [simp]:
  "on_hosts S b (spawn ts c) = on_hosts S b c" "on_hosts S b (emitLocked now k u e pl c) = on_hosts S b c"
  "on_hosts S b (snd (consumeHookFailure k kind c)) = on_hosts S b c" "on_hosts S b (dropLeaseLocked l c) = on_hosts S b c"
  by (simp_all add: on_hosts_def)

lemma on_hosts_upd: "(\<And>vm. vm_host (f vm) = vm_host vm) \<Longrightarrow> on_hosts S b (upd_vm i f b)"
  by (auto simp: on_hosts_def split: if_splits)

lemma on_hosts_delete: "fk_vms b' = AList.delete i (fk_vms b) \<Longrightarrow> on_hosts S b b'"
  by (auto simp: on_hosts_def split: if_splits)

lemma least_fold:
  fixes f :: "string \<Rightarrow> nat"
  shows "foldl (\<lambda>best h. if f h < f best then h else best) x xs \<in> set (x # xs)"
    and "y \<in> set (x # xs) \<Longrightarrow> f (foldl (\<lambda>best h. if f h < f best then h else best) x xs) \<le> f y"
proof -
  show "foldl (\<lambda>best h. if f h < f best then h else best) x xs \<in> set (x # xs)"
    by (induction xs arbitrary: x) auto
  have "f (foldl (\<lambda>best h. if f h < f best then h else best) x xs) \<le> f x \<and>
    (\<forall>y\<in>set xs. f (foldl (\<lambda>best h. if f h < f best then h else best) x xs) \<le> f y)"
  proof (induction xs arbitrary: x)
    case (Cons z xs)
    let ?w = "if f z < f x then z else x"
    have "f ?w \<le> f x" "f ?w \<le> f z" by simp_all
    then show ?case using Cons.IH [of ?w] unfolding foldl.simps set_simps by (blast intro: le_trans)
  qed simp
  then show "y \<in> set (x # xs) \<Longrightarrow> f (foldl (\<lambda>best h. if f h < f best then h else best) x xs) \<le> f y" by auto
qed

lemma pickHost_eligible:
  assumes "pickHostLocked ps b = (Some h, ps')"
  shows "eligible (fk_hosts b) h" "h \<in> set (ps_FlintlockHosts (pl_spec ps))"
proof -
  obtain c cs where cs: "filter (eligible (fk_hosts b)) (ps_FlintlockHosts (pl_spec ps)) = c # cs"
    using assms by (auto simp: pickHostLocked_def split: list.splits)
  have "h \<in> set (c # cs)"
  proof (cases "fk_placement b")
    case PlacementLeastVMs
    then show ?thesis
      using assms cs least_fold(1) [of "perHost (pl_key ps) b" c cs] by (auto simp: pickHostLocked_def)
  next
    case PlacementRoundRobin
    then show ?thesis
      using assms cs nth_mem [of "pl_rr ps mod length (c # cs)" "c # cs"] by (simp add: pickHostLocked_def)
  qed
  then have "h \<in> set (filter (eligible (fk_hosts b)) (ps_FlintlockHosts (pl_spec ps)))" using cs by simp
  then show "eligible (fk_hosts b) h" "h \<in> set (ps_FlintlockHosts (pl_spec ps))" by auto
qed

lemma eligible_held: "eligible hs h \<Longrightarrow> held hs h"
  by (simp add: eligible_def held_def split: option.splits)

lemma on_hosts_reserve: "reserve now p n b = (vs, b') \<Longrightarrow> on_hosts {h. held (fk_hosts b) h} b b'"
proof (induction n arbitrary: b vs)
  case (Suc n)
  show ?case
  proof (cases "pickHostLocked (pool_at b p) b")
    case (Pair ho ps)
    show ?thesis
    proof (cases ho)
      case (Some h)
      let ?i = "fk_nextVM b + 1"
      let ?b1 = "upd_pool p (\<lambda>_. ps) (b\<lparr>fk_nextVM := ?i,
         fk_vms := AList.update ?i (newVM now ?i (pl_key ps) h (ps_HookFailurePolicy (pl_spec ps))) (fk_vms b)\<rparr>)"
      obtain vs' where r: "reserve now p n ?b1 = (vs', b')"
        using Suc.prems Pair Some by (auto simp: Let_def split: prod.splits)
      have "held (fk_hosts b) h" using pickHost_eligible(1) Pair Some eligible_held by blast
      then have "on_hosts {h. held (fk_hosts b) h} b ?b1" by (auto simp: on_hosts_def newVM_def)
      moreover have "on_hosts {h. held (fk_hosts b) h} ?b1 b'" using Suc.IH [OF r] by simp
      ultimately show ?thesis by (rule on_hosts_trans)
    qed (use Suc.prems Pair in \<open>simp add: on_hosts_refl\<close>)
  qed
qed (simp add: on_hosts_refl)

lemma on_hosts_provisionN: "on_hosts {h. held (fk_hosts b) h} b (provisionNLocked now p n reason b)"
proof -
  obtain vs b1 where r: "reserve now p n b = (vs, b1)" by (cases "reserve now p n b")
  let ?b2 = "emitLocked now (pl_key (pool_at b1 p)) [] POOL_REPLENISHING
    [(''count'', PInt (int (length vs))), (''reason'', PStr reason)] b1"
  have "fk_vms (snd (reconcilerLocked p ?b2)) = fk_vms b1" by simp
  then show ?thesis
    using r on_hosts_reserve [OF r] on_hosts_trans [OF on_hosts_reserve [OF r] on_hosts_vms] on_hosts_refl
    by (simp add: provisionNLocked_def Let_def split_beta)
qed

abbreviation held_hosts :: "fake \<Rightarrow> string set" where
  "held_hosts b \<equiv> {h. held (fk_hosts b) h}"

lemma on_hosts_step:
  assumes "on_hosts (held_hosts b1) b1 b2" "on_hosts (held_hosts b) b b1" "fk_hosts b1 = fk_hosts b"
  shows "on_hosts (held_hosts b) b b2"
  using assms on_hosts_trans by metis

lemma on_hosts_setPhase: "on_hosts S b (setPhaseLocked now i ph b)"
  unfolding setPhaseLocked_def by (rule on_hosts_upd) simp

lemma on_hosts_applyHook: "on_hosts S b (applyHookFailurePolicy now i hook cause b)"
proof -
  have 1: "on_hosts S b (upd_vm i (\<lambda>vm. vm\<lparr>vm_leaseID := []\<rparr>) b)" by (rule on_hosts_upd) simp
  have "on_hosts S b (setPhaseLocked now i ph (emitLocked now k u e pl (upd_vm i (\<lambda>vm. vm\<lparr>vm_leaseID := []\<rparr>) b)))" for ph k u e pl
    by (rule on_hosts_trans [OF _ on_hosts_setPhase]) (use 1 in simp)
  then show ?thesis
    by (simp add: applyHookFailurePolicy_def Let_def on_hosts_refl split: option.split)
qed

lemma on_hosts_finishDeletion: "on_hosts (held_hosts b) b (finishDeletionLocked now i b)"
proof (cases "vm_of b i")
  case (Some vm)
  have tail: "on_hosts (held_hosts c) c (case pool_of c k of
      None \<Rightarrow> c
    | Some p \<Rightarrow>
        (let b3 = (case e of None \<Rightarrow> c | Some e \<Rightarrow> emitLocked now k u e pl c)
         in provisionNLocked now p (onDeleted (strategyOf (pl_spec (pool_at b3 p)))) reason b3))" for c k e u pl reason
  proof (cases "pool_of c k")
    case (Some p)
    let ?b3 = "case e of None \<Rightarrow> c | Some e \<Rightarrow> emitLocked now k u e pl c"
    have "fk_hosts ?b3 = fk_hosts c" "fk_vms ?b3 = fk_vms c"
      using env_eqD(5) [OF env_simps(3)] by (simp_all split: option.split)
    then have "on_hosts (held_hosts c) c
        (provisionNLocked now p (onDeleted (strategyOf (pl_spec (pool_at ?b3 p)))) reason ?b3)"
      by (intro on_hosts_step [OF on_hosts_provisionN on_hosts_vms])
    then show ?thesis using Some by (simp add: Let_def)
  qed (simp add: on_hosts_refl)
  let ?b1 = "b\<lparr>fk_vms := AList.delete i (fk_vms b),
    fk_vmByUID := (if vm_uid vm \<noteq> [] then (fk_vmByUID b)(vm_uid vm := None) else fk_vmByUID b)\<rparr>"
  let ?b2 = "if vm_leaseID vm \<noteq> [] then dropLeaseLocked (vm_leaseID vm) ?b1 else ?b1"
  have "on_hosts (held_hosts b) b ?b2" by (rule on_hosts_delete [where i = i]) simp
  moreover have "fk_hosts ?b2 = fk_hosts b" using env_eqD(5) [of ?b2 b] by simp
  ultimately show ?thesis
    unfolding finishDeletionLocked_def Some option.case Let_def
    by (rule on_hosts_step [OF tail [unfolded Let_def]])
qed (simp add: finishDeletionLocked_def on_hosts_refl)

lemma on_hosts_deleteVM_end: "on_hosts (held_hosts b) b (deleteVM_end now i c b)"
proof -
  let ?b1 = "upd_vm i (\<lambda>vm. vm\<lparr>vm_deleteInFlight := False\<rparr>) b"
  have 1: "on_hosts (held_hosts b) b ?b1" by (rule on_hosts_upd) simp
  then show ?thesis
    using on_hosts_step [OF on_hosts_finishDeletion 1] by (simp add: deleteVM_end_def Let_def)
qed

lemma on_hosts_deleteVM_begin: "on_hosts S b (snd (deleteVM_begin now i e b))"
  by (auto simp: deleteVM_begin_def Let_def on_hosts_refl split: option.split intro!: on_hosts_trans [OF on_hosts_upd on_hosts_upd] on_hosts_upd)

lemma on_hosts_provision:
  "on_hosts S b (provision_start ctx v b)" "on_hosts S b (provision_created now ctx v cmds cr b)"
  "on_hosts S b (provision_waited now ctx v cmds f b)" "on_hosts S b (provision_hooked now ctx v cmds s b)"
proof -
  have drop: "on_hosts S b (dropReserved i b)" for i by (rule on_hosts_delete) (simp add: dropReserved_def)
  show "on_hosts S b (provision_start ctx v b)"
    by (auto simp: provision_start_def drop on_hosts_refl split: prod.split option.split)
  have 1: "on_hosts S b (emitLocked now k u e pl (upd_vm i (\<lambda>vm. vm\<lparr>vm_uid := u, vm_updated := now\<rparr>) (b\<lparr>fk_vmByUID := U\<rparr>)))"
    for k u e pl i U by (auto simp: on_hosts_def split: if_splits)
  show "on_hosts S b (provision_created now ctx v cmds cr b)"
    by (auto simp: provision_created_def drop on_hosts_refl 1 [simplified] Let_def
        intro: on_hosts_trans [OF 1 on_hosts_applyHook] split: prod.split option.split)
  have 2: "on_hosts S b b2" if "consumeHookFailure k kind (setPhaseLocked now i ph b) = (r, b2)" for k kind i ph r b2
    using on_hosts_setPhase [of S b now i ph] on_hosts_frame(3) [of S b k kind "setPhaseLocked now i ph b"] that by simp
  show "on_hosts S b (provision_waited now ctx v cmds f b)"
    by (auto simp: provision_waited_def on_hosts_applyHook on_hosts_refl
        intro: on_hosts_trans [OF 2 on_hosts_applyHook] 2 split: prod.split option.split bool.split)
  show "on_hosts S b (provision_hooked now ctx v cmds s b)"
    by (auto simp: provision_hooked_def on_hosts_applyHook on_hosts_refl on_hosts_setPhase split: prod.split option.split)
qed

lemma on_hosts_claim_end: "on_hosts (held_hosts b) b (snd (claimVM_end now tok rid p v cmds s b))"
proof (cases v)
  case (fields i k h)
  have avail: "on_hosts (held_hosts b) b (setPhaseLocked now i AVAILABLE (upd_vm i (\<lambda>vm. vm\<lparr>vm_leaseID := []\<rparr>) b))"
    by (rule on_hosts_trans [OF on_hosts_upd on_hosts_setPhase]) simp
  let ?b2 = "\<lambda>vm rec. emitLocked now k (vm_uid vm) VM_CLAIMED [(''lease_id'', PStr tok), (''host'', PStr h)]
     (setPhaseLocked now i LEASED (upd_vm i (\<lambda>vm. vm\<lparr>vm_leaseID := tok\<rparr>) (b\<lparr>fk_leases := AList.update tok rec (fk_leases b)\<rparr>)))"
  have 1: "on_hosts (held_hosts b) b (?b2 vm rec)" for vm rec by (auto simp: on_hosts_def split: if_splits)
  have "fk_hosts (?b2 vm rec) = fk_hosts b" for vm rec by (rule env_eqD(5)) simp
  from on_hosts_step [OF on_hosts_provisionN 1 this]
  have 2: "on_hosts (held_hosts b) b (provisionNLocked now p n reason (?b2 vm rec))" for vm rec n reason .
  show ?thesis
    unfolding claimVM_end_def fields prod.case Let_def
    by (auto split: option.split intro!: avail 2 on_hosts_applyHook on_hosts_refl)
qed

lemma on_hosts_claim_begin: "on_hosts S b (snd (claimVM_begin now ref rid b))"
proof -
  have 1: "on_hosts S b b2" if "consumeHookFailure k kind (setPhaseLocked now i ph b) = (r, b2)" for k kind i ph r b2
    using on_hosts_setPhase [of S b now i ph] on_hosts_frame(3) [of S b k kind "setPhaseLocked now i ph b"] that by simp
  show ?thesis
    unfolding claimVM_begin_def
    by (auto simp: on_hosts_refl intro: 1 on_hosts_trans [OF 1 on_hosts_applyHook]
        split: sum.split option.split prod.split bool.split)
qed

lemma on_hosts_task: "on_hosts (held_hosts b) b (task_step now r t b)"
proof (cases t)
  case (DelStart i e)
  have "on_hosts (held_hosts b) b b2" if "deleteVM_begin now i e b = (d, b2)" for d b2
    using on_hosts_deleteVM_begin [of "held_hosts b" b now i e] that by simp
  then show ?thesis
    using DelStart by (auto split: prod.split deletion.split)
qed (auto simp: on_hosts_provision on_hosts_deleteVM_end on_hosts_claim_end)

definition hosts_inv :: "fake \<Rightarrow> bool" where
  "hosts_inv b \<longleftrightarrow> pool_inv b \<and> (\<forall>i vm. vm_of b i = Some vm \<longrightarrow> held (fk_hosts b) (vm_host vm))"

lemma hosts_inv_on:
  assumes "hosts_inv b" "on_hosts (held_hosts b) b b'" "pool_inv b'" "\<And>h. held (fk_hosts b) h \<Longrightarrow> held (fk_hosts b') h"
  shows "hosts_inv b'"
  using assms by (fastforce simp: hosts_inv_def on_hosts_def)

lemma on_hosts_tick:
  assumes "fake_inv b"
  shows "on_hosts (held_hosts b) b (tick ls ks now b)"
proof -
  have pool: "on_hosts (held_hosts c) c (tick_pool now key c)" for key c
  proof (cases "pool_of c key")
    case (Some p)
    have 1: "fk_hosts (upd_pool p f (if P then emitLocked now k u e pl c else c)) = fk_hosts c" for f P k u e pl
      using env_eqD(5) [OF env_simps(3)] by simp
    show ?thesis
      unfolding tick_pool_def Some option.case Let_def
      by (rule on_hosts_step [OF on_hosts_provisionN on_hosts_vms 1]) simp
  qed (simp add: tick_pool_def on_hosts_refl)
  have pools: "on_hosts (held_hosts c) c (fold (tick_pool now) ks c)" for c
  proof (induction ks arbitrary: c)
    case (Cons k ks)
    have "fk_hosts (tick_pool now k c) = fk_hosts c" by (rule env_eqD(5)) simp
    then show ?case using on_hosts_step [OF Cons.IH pool] by simp
  qed (simp add: on_hosts_refl)
  obtain b1 ex where f: "fold (tick_lease now) ls (b, []) = (b1, ex)" by (cases "fold (tick_lease now) ls (b, [])")
  have b1: "fk_vms b1 = fk_vms b" using tick_leases_frame [of now ls "(b, [])"] f by simp
  have "env (fst (fold (tick_lease now) ls st)) = env (fst st)" for st by (induction ls arbitrary: st) simp_all
  then have "fk_hosts b1 = fk_hosts b" using env_eqD(5) f by (metis fst_conv)
  then have "on_hosts (held_hosts b) b (fold (tick_pool now) ks b1)"
    by (rule on_hosts_step [OF pools on_hosts_vms [OF b1]])
  then show ?thesis by (simp add: tick_def f Let_def)
qed

lemma vmCount_zero:
  assumes "vmCountLocked name b = 0" "vm_of b i = Some vm"
  shows "vm_host vm \<noteq> name"
  using assms map_of_SomeD [OF assms(2)] by (auto simp: vmCountLocked_def filter_empty_conv)

lemma hosts_inv_call:
  assumes fi: "fake_inv b" and inv: "hosts_inv b"
  shows "hosts_inv (call_step now c b)"
proof -
  have pi: "pool_inv (call_step now c b)" using inv pool_inv_call by (simp add: hosts_inv_def)
  have keep: "hosts_inv (call_step now c b)"
    if "on_hosts (held_hosts b) b (call_step now c b)" "\<And>h. held (fk_hosts b) h \<Longrightarrow> held (fk_hosts (call_step now c b)) h"
    using hosts_inv_on [OF inv that(1) pi that(2)] .
  have env: "hosts_inv (call_step now c b)"
    if "on_hosts (held_hosts b) b (call_step now c b)" "env (call_step now c b) = env b"
    using keep that env_eqD(5) [OF that(2)] by simp
  show ?thesis
  proof (cases c)
    case (CallDeletePool ref force)
    obtain err b1 where d: "deletePool now ref force b = (err, b1)" by (cases "deletePool now ref force b")
    have "on_hosts (held_hosts b) b b1"
      using deletePool_effect(2,3) [OF fi d] by (cases err) (auto simp: on_hosts_def split: option.splits if_splits)
    moreover have "fk_hosts b1 = fk_hosts b"
      using deletePool_env [of now ref force b] d by (auto simp: env_def)
    ultimately show ?thesis using keep CallDeletePool d by simp
  next
    case (CallRemoveHost name)
    obtain err b' where r: "removeHost name b = (err, b')" by (cases "removeHost name b")
    then show ?thesis
    proof (cases rule: removeHost_cases)
      case removed
      then show ?thesis
        using pi inv vmCount_zero CallRemoveHost r by (auto simp: hosts_inv_def held_Hosts)
    qed (use CallRemoveHost inv r in simp)
  next
    case (CallTick ls ks)
    have "fake_inv (b\<lparr>fk_kicked := False\<rparr>)" using fi by (simp add: fake_inv_def)
    from on_hosts_tick [OF this] have "on_hosts (held_hosts b) b (tick ls ks now (b\<lparr>fk_kicked := False\<rparr>))"
      by (simp add: on_hosts_def)
    then show ?thesis using env CallTick by simp
  next
    case (CallClaimVM ref rid)
    have "on_hosts (held_hosts b) b (snd (claimVM_begin now ref rid b))" by (rule on_hosts_claim_begin)
    then show ?thesis using env CallClaimVM by simp
  next
    case (CallReleaseVM l)
    have "on_hosts (held_hosts b) b (releaseVM_start now l b)"
      by (auto simp: releaseVM_start_def releaseVM_begin_def on_hosts_refl on_hosts_upd split: option.split)
    then show ?thesis using env CallReleaseVM by simp
  next
    case (CallCreatePool p)
    have "fk_vms (snd (createPool p b)) = fk_vms b \<and> fk_hosts (snd (createPool p b)) = fk_hosts b"
      by (simp add: createPool_def kickReconcile_def split: sum.split option.split)
    then show ?thesis using keep CallCreatePool by (simp add: on_hosts_vms)
  next
    case (CallUpdatePool p)
    have "fk_vms (snd (updatePool p b)) = fk_vms b \<and> fk_hosts (snd (updatePool p b)) = fk_hosts b"
      using env_eqD(5) [OF env_simps(5)] env_eqD(5) [OF env_simps(7)]
      by (simp add: updatePool_def Let_def split: sum.split option.split)
    then show ?thesis using keep CallUpdatePool by (simp add: on_hosts_vms)
  next
    case (CallHeartbeat l)
    have "fk_vms (snd (heartbeat now l b)) = fk_vms b" by (simp add: heartbeat_def Let_def split: option.split)
    then show ?thesis using env CallHeartbeat by (simp add: on_hosts_vms)
  next
    case (CallAddHost dial h skip)
    then show ?thesis
      by (intro keep on_hosts_vms) (simp_all add: addHost_def kickReconcile_def Let_def held_Hosts split: option.splits sum.splits)
  next
    case (CallUpdateHost dial h skip)
    then show ?thesis
      by (intro keep on_hosts_vms) (simp_all add: updateHost_def kickReconcile_def Let_def held_Hosts split: option.splits sum.splits)
  next
    case (CallCordon name cordoned reason)
    then show ?thesis
      by (intro keep on_hosts_vms) (simp_all add: setCordoned_def kickReconcile_def Let_def held_Hosts split: option.splits)
  qed (intro keep on_hosts_vms; simp add: SetFaults_def Let_def Run_begin_def cancel_run_def stop_begin_def cleanup_begin_def
       cleanup_end_def env_eqD(5) [OF env_lease_ops(3)] split: option.split prod.split)+
qed

lemma hosts_inv_task:
  assumes "hosts_inv b"
  shows "hosts_inv (task_step now r t (end_task t b))"
proof -
  have "pool_inv (task_step now r t (end_task t b))"
    using assms pool_inv_env [of "task_step now r t (end_task t b)" b] by (simp add: hosts_inv_def)
  moreover have "on_hosts (held_hosts b) b (task_step now r t (end_task t b))"
    using on_hosts_task [of "end_task t b" now r t] by (simp add: on_hosts_def)
  moreover have "fk_hosts (task_step now r t (end_task t b)) = fk_hosts b" by (rule env_eqD(5)) simp
  ultimately show ?thesis using hosts_inv_on [OF assms] by simp
qed

lemma hosts_inv_step: "fake_step now b b' \<Longrightarrow> fake_inv b \<Longrightarrow> hosts_inv b \<Longrightarrow> hosts_inv b'"
  by (cases rule: fake_step.cases) (auto intro: hosts_inv_call hosts_inv_task)

lemma reachable_hosts: "fake_reachable b \<Longrightarrow> hosts_inv b"
proof (induction rule: fake_reachable_induct)
  case (new placement hosts replay)
  then show ?case by (simp add: hosts_inv_def pool_inv_def New_fake_def)
next
  case (step now b b')
  then show ?case using hosts_inv_step reachable_inv by blast
qed

end
