(* ===== verification/FakeTick.thy ===== *)
theory FakeTick
  imports FakePools
begin

section \<open>The tick brings every Pool to its target\<close>

text \<open>The counts of a Pool as numbers of MicroVMs in given phases, and what provisioning adds to them.\<close>

definition num :: "poolKey \<Rightarrow> VMPhase set \<Rightarrow> (int \<times> vmState) list \<Rightarrow> int" where
  "num key S vms = int (length (filter (\<lambda>(i, vm). vm_pool vm = key \<and> vm_phase vm \<in> S) vms))"

lemma num_append [simp]: "num key S (xs @ ys) = num key S xs + num key S ys"
  by (simp add: num_def)

lemma num_nonneg [simp]: "0 \<le> num key S vms"
  by (simp add: num_def)

lemma counts_fold:
  "foldl (\<lambda>c (i, vm). if vm_pool vm \<noteq> key then c else count_vm (vm_phase vm) c) c vms =
     \<lparr>c_available = c_available c + num key {AVAILABLE} vms, c_leased = c_leased c + num key {LEASED, PRE_LEASE_HOOK_RUNNING} vms,
      c_provisioning = c_provisioning c + num key {PROVISIONING, CREATE_HOOK_RUNNING} vms,
      c_quarantined = c_quarantined c + num key {QUARANTINED} vms, c_deleting = c_deleting c + num key {DELETING} vms\<rparr>"
proof (induction vms arbitrary: c)
  case (Cons x vms)
  obtain i vm where x: "x = (i, vm)" by (cases x)
  have n: "num key S (x # vms) = num key S vms + (if vm_pool vm = key \<and> vm_phase vm \<in> S then 1 else 0)" for S
    by (simp add: num_def x)
  show ?case
    unfolding foldl.simps Cons.IH n by (cases "vm_phase vm") (simp_all add: x)
qed (simp add: num_def)

lemma countsLocked_num:
  "countsLocked key b =
     \<lparr>c_available = num key {AVAILABLE} (fk_vms b), c_leased = num key {LEASED, PRE_LEASE_HOOK_RUNNING} (fk_vms b),
      c_provisioning = num key {PROVISIONING, CREATE_HOOK_RUNNING} (fk_vms b),
      c_quarantined = num key {QUARANTINED} (fk_vms b), c_deleting = num key {DELETING} (fk_vms b)\<rparr>"
  by (simp add: countsLocked_def counts_fold)

text \<open>A Pool has a Host that takes new MicroVMs.\<close>

definition placeable :: "nat \<Rightarrow> fake \<Rightarrow> bool" where
  "placeable p b \<longleftrightarrow> (\<exists>h\<in>set (ps_FlintlockHosts (pl_spec (pool_at b p))). eligible (fk_hosts b) h)"

lemma placeable_env: "env b = env b' \<Longrightarrow> placeable p b = placeable p b'"
  using env_eqD [of b b'] by (simp add: placeable_def)

lemma pickHost_None: "fst (pickHostLocked (pool_at b p) b) = None \<longleftrightarrow> \<not> placeable p b"
  by (auto simp: pickHostLocked_def placeable_def filter_empty_conv split: list.split Placement.split)
    (metis filter_empty_conv list.distinct(1))+

lemma update_new: "k \<notin> fst ` set al \<Longrightarrow> AList.update k v al = al @ [(k, v)]"
  by (induction al) auto

lemma reserve_adds:
  assumes "fake_inv b" "reserve now p n b = (vs, b')"
  shows "\<exists>news. fk_vms b' = fk_vms b @ news \<and> length news = length vs \<and> length vs = (if placeable p b then n else 0) \<and>
    (\<forall>(i, vm)\<in>set news. vm_pool vm = pl_key (pool_at b p) \<and> vm_phase vm = PROVISIONING)"
  using assms
proof (induction n arbitrary: b vs)
  case (Suc n)
  show ?case
  proof (cases "pickHostLocked (pool_at b p) b")
    case (Pair ho ps)
    show ?thesis
    proof (cases ho)
      case None
      then show ?thesis using Suc.prems Pair pickHost_None [of b p] by simp
    next
      case (Some h)
      let ?i = "fk_nextVM b + 1"
      let ?vm = "newVM now ?i (pl_key ps) h (ps_HookFailurePolicy (pl_spec ps))"
      let ?b0 = "b\<lparr>fk_nextVM := ?i, fk_vms := AList.update ?i ?vm (fk_vms b)\<rparr>"
      let ?b1 = "upd_pool p (\<lambda>_. ps) ?b0"
      have ps: "pl_key ps = pl_key (pool_at b p)" "pl_spec ps = pl_spec (pool_at b p)"
        using pickHost_same [of "pool_at b p" b] Pair by simp_all
      obtain vs' where r: "reserve now p n ?b1 = (vs', b')" "vs = (?i, pl_key ps, h) # vs'"
        using Suc.prems Pair Some by (auto simp: Let_def split: prod.splits)
      have inv: "fake_inv ?b1" using keep_reserve_one(1) [OF Suc.prems(1) refl] by simp
      have env: "env ?b1 = env b" using ps by (simp add: env_def fun_eq_iff upd_pool_def)
      have pl: "placeable p b" using pickHost_None [of b p] Pair Some by simp
      have "?i \<notin> fst ` set (fk_vms b)"
        using vm_inv(2) [OF Suc.prems(1), of ?i] by (cases "vm_of b ?i") (auto simp: map_of_eq_None_iff)
      then have v: "fk_vms ?b1 = fk_vms b @ [(?i, ?vm)]" by (simp add: update_new)
      from Suc.IH [OF inv r(1)] obtain news where
        n: "fk_vms b' = fk_vms ?b1 @ news" "length news = length vs'" "length vs' = (if placeable p ?b1 then n else 0)"
          "\<forall>(i, vm)\<in>set news. vm_pool vm = pl_key (pool_at ?b1 p) \<and> vm_phase vm = PROVISIONING" by blast
      then show ?thesis
        using v r(2) pl placeable_env [OF env] ps by (intro exI [of _ "(?i, ?vm) # news"]) (auto simp: newVM_def)
    qed
  qed
qed simp

lemma provisionN_num:
  assumes "fake_inv b"
  shows "num key S (fk_vms (provisionNLocked now p n reason b)) = num key S (fk_vms b) +
    (if key = pl_key (pool_at b p) \<and> PROVISIONING \<in> S \<and> fk_running b \<and> \<not> fk_stopped b \<and> placeable p b then int n else 0)"
proof -
  obtain vs b1 where r: "reserve now p n b = (vs, b1)" by (cases "reserve now p n b")
  from reserve_adds [OF assms r] obtain news where
    n: "fk_vms b1 = fk_vms b @ news" "length news = length vs" "length vs = (if placeable p b then n else 0)"
      "\<forall>(i, vm)\<in>set news. vm_pool vm = pl_key (pool_at b p) \<and> vm_phase vm = PROVISIONING" by blast
  have "filter (\<lambda>(i, vm). vm_pool vm = key \<and> vm_phase vm \<in> S) news =
      (if key = pl_key (pool_at b p) \<and> PROVISIONING \<in> S then news else [])"
    using n(4) by (auto simp: filter_id_conv filter_empty_conv)
  then have "num key S news = (if key = pl_key (pool_at b p) \<and> PROVISIONING \<in> S then int (length vs) else 0)"
    using n(2) by (simp add: num_def)
  moreover have "fk_vms (provisionNLocked now p n reason b) =
      (if n = 0 \<or> fk_stopped b \<or> \<not> fk_running b then fk_vms b else fk_vms b @ news)"
    using n r by (simp add: provisionNLocked_def Let_def split_beta)
  ultimately show ?thesis using n(3) by auto
qed

text \<open>The deficit of a Pool, as the tick reckons it.\<close>

definition deficit :: "poolKey \<Rightarrow> nat \<Rightarrow> fake \<Rightarrow> nat" where
  "deficit key p b = tickDeficit (strategyOf (pl_spec (pool_at b p))) (countsLocked key b)"

lemma filled:
  "tickDeficit s (c\<lparr>c_provisioning := c_provisioning c + int (tickDeficit s c)\<rparr>) = 0"
  by (cases "sg_typ s") (simp_all add: tickDeficit_def)

lemma tick_pool_form:
  assumes "pool_of b k = Some q" "pl_key (pool_at b q) = k"
  obtains b2 where "env b2 = env b" "core b2 = core b" "tick_pool now k b = provisionNLocked now q (deficit k q b) ''tick'' b2"
proof -
  have form: "\<exists>e. tick_pool now k b = provisionNLocked now q (deficit k q b) ''tick''
      (upd_pool q (\<lambda>ps. ps\<lparr>pl_fresh := False\<rparr>) (if 0 < deficit k q b \<and> \<not> pl_fresh (pool_at b q)
         then emitLocked now k [] POOL_SIZE_BELOW_TARGET e b else b))"
    unfolding tick_pool_def assms option.case Let_def deficit_def by blast
  have "env (upd_pool q (\<lambda>ps. ps\<lparr>pl_fresh := False\<rparr>) (if P then emitLocked now k [] x e b else b)) = env b"
    "core (upd_pool q (\<lambda>ps. ps\<lparr>pl_fresh := False\<rparr>) (if P then emitLocked now k [] x e b else b)) = core b" for P x e
    by (simp_all add: env_upd_pool core_def)
  then show thesis using form that by blast
qed

lemma tick_pool_counts:
  assumes "fake_inv b" "pool_inv b" "pool_of b k = Some q"
  shows "num key S (fk_vms (tick_pool now k b)) = num key S (fk_vms b) +
    (if key = k \<and> PROVISIONING \<in> S \<and> fk_running b \<and> \<not> fk_stopped b \<and> placeable q b then int (deficit k q b) else 0)"
proof -
  have key: "pl_key (pool_at b q) = k" using assms(2,3) by (simp add: pool_inv_def)
  obtain b2 where b2: "env b2 = env b" "core b2 = core b" "tick_pool now k b = provisionNLocked now q (deficit k q b) ''tick'' b2"
    using tick_pool_form [OF assms(3) key] .
  have "fake_inv b2" using assms(1) fake_inv_core [OF b2(2)] by simp
  from provisionN_num [OF this, of key S now q "deficit k q b" "''tick''"] show ?thesis
    using b2(3) key env_eqD(3,7,8) [OF b2(1)] placeable_env [OF b2(1)] core_eqD(1) [OF b2(2)] by simp
qed

lemma deficit_env:
  assumes "env b' = env b" "countsLocked key b' = countsLocked key b"
  shows "deficit key p b' = deficit key p b"
  using assms env_eqD(4) [OF assms(1)] by (simp add: deficit_def)

lemma tick_pools_counts:
  assumes "fake_inv b" "pool_inv b" "distinct ks" "pool_of b key = Some p"
  shows "num key S (fk_vms (fold (tick_pool now) ks b)) = num key S (fk_vms b) +
    (if key \<in> set ks \<and> PROVISIONING \<in> S \<and> fk_running b \<and> \<not> fk_stopped b \<and> placeable p b then int (deficit key p b) else 0)"
  using assms
proof (induction ks arbitrary: b)
  case (Cons k ks)
  let ?b1 = "tick_pool now k b"
  have env: "env ?b1 = env b" by simp
  note e = env_eqD [OF env]
  have "num key S (fk_vms (fold (tick_pool now) ks ?b1)) = num key S (fk_vms ?b1) +
    (if key \<in> set ks \<and> PROVISIONING \<in> S \<and> fk_running ?b1 \<and> \<not> fk_stopped ?b1 \<and> placeable p ?b1 then int (deficit key p ?b1) else 0)"
    using Cons keep_tick_pool pool_inv_env [OF env] e by (intro Cons.IH) simp_all
  moreover have "num key T (fk_vms ?b1) = num key T (fk_vms b) +
    (if key = k \<and> PROVISIONING \<in> T \<and> fk_running b \<and> \<not> fk_stopped b \<and> placeable p b then int (deficit key p b) else 0)" for T
  proof (cases "pool_of b k")
    case None
    then show ?thesis using Cons.prems(4) by (auto simp: tick_pool_def)
  next
    case (Some q)
    then show ?thesis using tick_pool_counts [OF Cons.prems(1,2) Some, of key T now] Cons.prems(4) by auto
  qed
  moreover from this have "key \<noteq> k \<Longrightarrow> deficit key p ?b1 = deficit key p b"
    by (intro deficit_env [OF env]) (simp add: countsLocked_num)
  ultimately show ?case using Cons.prems(3) e placeable_env [OF env] by auto
qed simp

lemma tick_counts:
  assumes "fake_inv b" "pool_inv b" "distinct ks" "key \<in> set ks" "pool_of b key = Some p"
    and "fk_running b" "\<not> fk_stopped b" "placeable p b"
  shows "countsLocked key (tick ls ks now b) =
    (countsLocked key b)\<lparr>c_provisioning := c_provisioning (countsLocked key b) + int (deficit key p b)\<rparr>"
    and "deficit key p (tick ls ks now b) = 0"
proof -
  obtain b1 ex where f: "fold (tick_lease now) ls (b, []) = (b1, ex)" by (cases "fold (tick_lease now) ls (b, [])")
  have vms: "fk_vms b1 = fk_vms b" using tick_leases_frame [of now ls "(b, [])"] f by simp
  have "env (fst (fold (tick_lease now) ls st)) = env (fst st)" for st by (induction ls arbitrary: st) simp_all
  then have env: "env b1 = env b" using f by (metis fst_conv)
  note e = env_eqD [OF env]
  have inv: "fake_inv b1" using keep_tick_leases [of "(b, [])" now ls] assms(1) f by simp
  have c: "countsLocked key b1 = countsLocked key b" using vms by (simp add: countsLocked_num)
  have n: "num key S (fk_vms (tick ls ks now b)) = num key S (fk_vms b) + (if PROVISIONING \<in> S then int (deficit key p b) else 0)" for S
    using tick_pools_counts [OF inv, of ks key p S now] assms e vms pool_inv_env [OF env] placeable_env [OF env] deficit_env [OF env c]
    by (simp add: tick_def f Let_def)
  then show counts: "countsLocked key (tick ls ks now b) =
    (countsLocked key b)\<lparr>c_provisioning := c_provisioning (countsLocked key b) + int (deficit key p b)\<rparr>"
    by (simp add: countsLocked_num)
  have "pl_spec (pool_at (tick ls ks now b) p) = pl_spec (pool_at b p)" by (rule env_eqD(4)) simp
  then show "deficit key p (tick ls ks now b) = 0" using counts filled by (simp add: deficit_def)
qed

end
