(* ===== verification/FakePlay.thy ===== *)
theory FakePlay
  imports FakeTick
begin

section \<open>Executions of the fake battery\<close>

text \<open>
  A schedule says which call comes next, or which goroutine, with what its Host answers; a
  move that is not enabled does nothing. Every schedule is a path of the step relation, and
  a concrete one evaluates to the state it leads to.
\<close>

datatype move = Do time fake_call | Go time nat outcome

fun make_move :: "move \<Rightarrow> fake \<Rightarrow> fake" where
  "make_move (Do now c) b = (if call_ok c b then call_step now c b else b)"
| "make_move (Go now n r) b =
     (if n < length (fk_tasks b) \<and> outcome_ok r (fk_tasks b ! n) b
      then task_step now r (fk_tasks b ! n) (end_task (fk_tasks b ! n) b) else b)"

definition play :: "move list \<Rightarrow> fake \<Rightarrow> fake" where "play = fold make_move"

lemma runs_refl [simp]: "fake_runs b b" by (simp add: fake_runs_def)

lemma runs_trans: "fake_runs b b1 \<Longrightarrow> fake_runs b1 b2 \<Longrightarrow> fake_runs b b2"
  unfolding fake_runs_def by (rule rtranclp_trans)

lemma runs_step: "fake_step now b b' \<Longrightarrow> fake_runs b b'"
  by (auto simp: fake_runs_def)

lemma runs_reachable: "fake_runs b b' \<Longrightarrow> fake_reachable b \<Longrightarrow> fake_reachable b'"
  by (auto simp: fake_reachable_def intro: runs_trans)

lemma make_move_runs: "fake_runs b (make_move m b)"
  by (cases m) (auto intro!: runs_step fake_step.intros)

lemma play_runs: "fake_runs b (play ms b)"
  by (induction ms arbitrary: b) (auto simp: play_def intro: runs_trans make_move_runs)

lemma new_reachable: "fake_reachable (New_fake placement hosts replay)"
  unfolding fake_reachable_def using runs_refl by blast

lemma play_reachable: "fake_reachable b \<Longrightarrow> fake_reachable (play ms b)"
  by (rule runs_reachable [OF play_runs])

lemma play_append: "play (xs @ ys) b = play ys (play xs b)"
  by (simp add: play_def)

subsection \<open>An example\<close>

text \<open>
  One Host and one Pool of one MicroVM: a tick provisions it, a claim leases it as
  \<open>l1\<close>, and the replacement becomes available.
\<close>

definition demo_hosts :: Hosts where "demo_hosts = Hosts_Add ''h'' ''a'' True []"

definition demo_ref :: PoolRef where "demo_ref = \<lparr>ref_Name = ''p'', ref_Namespace = ''n''\<rparr>"

definition demo_spec :: PoolSpec where
  "demo_spec = zero_spec\<lparr>ps_Ref := demo_ref, ps_Template := Some zero_template, ps_Size := 1,
     ps_FlintlockHosts := [''h''], ps_HeartbeatExpiryThreshold := 10,
     ps_Replenishment := \<lparr>rs_Type = IMMEDIATE_ON_LEASE, rs_MinSize = None\<rparr>,
     ps_HookFailurePolicy := DELETE_AND_REPLACE\<rparr>"

definition fine :: "string \<Rightarrow> outcome" where
  "fine s = \<lparr>out_uid = Some s, out_err = None, out_deleted = True, out_token = s\<rparr>"

definition provision_moves :: "time \<Rightarrow> string \<Rightarrow> move list" where
  "provision_moves now u = replicate 4 (Go now 0 (fine u))"

definition demo_start :: "move list" where
  "demo_start = [Do 1 CallRun, Do 1 (CallCreatePool demo_spec), Do 1 (CallTick [] [demo_ref])] @ provision_moves 2 ''u''"

definition demo_claim :: "move list" where
  "demo_claim = [Do 3 (CallClaimVM demo_ref ''r''), Go 4 0 (fine ''l'')]"

definition demo_fake :: "move list \<Rightarrow> fake" where
  "demo_fake ms = play (demo_start @ ms) (New_fake PlacementLeastVMs demo_hosts 100)"

lemma demo_reachable: "fake_reachable (demo_fake ms)"
  unfolding demo_fake_def by (intro play_reachable new_reachable)

end
