(* ===== verification/FakeRuns.thy ===== *)
theory FakeRuns
  imports FakeTick
begin

section \<open>Runs of the fake battery\<close>

text \<open>
  What holds over any number of steps: where new MicroVMs and new goroutines come from, that a
  MicroVM which no goroutine holds any more is only ever deleted, and that a Pool whose strategy
  asks for no MicroVM gets none.
\<close>

subsection \<open>Where MicroVMs and goroutines come from\<close>

text \<open>
  \<open>grow S X b b'\<close>: a MicroVM of \<open>b'\<close> was there in \<open>b\<close>, in the same Pool, or it has a new id and is
  of a Pool of \<open>S\<close>; a goroutine of \<open>b'\<close> was there, or deletes, or provisions a new MicroVM, or is
  one of \<open>X\<close>.
\<close>

fun fresh_task :: "int \<Rightarrow> task \<Rightarrow> bool" where
  "fresh_task n (ProvStart ctx v) \<longleftrightarrow> n < fst v"
| "fresh_task n (DelStart i e) \<longleftrightarrow> True"
| "fresh_task n (DelHost i h u) \<longleftrightarrow> True"
| "fresh_task n _ \<longleftrightarrow> False"

definition grow :: "poolKey set \<Rightarrow> task set \<Rightarrow> fake \<Rightarrow> fake \<Rightarrow> bool" where
  "grow S X b b' \<longleftrightarrow> fk_nextVM b \<le> fk_nextVM b' \<and>
     (\<forall>i vm'. vm_of b' i = Some vm' \<longrightarrow>
        (\<exists>vm. vm_of b i = Some vm \<and> vm_pool vm' = vm_pool vm) \<or> fk_nextVM b < i \<and> vm_pool vm' \<in> S) \<and>
     (\<forall>t\<in>set (fk_tasks b'). t \<in> set (fk_tasks b) \<or> fresh_task (fk_nextVM b) t \<or> t \<in> X)"

lemma growD:
  assumes "grow S X b b'"
  shows "fk_nextVM b \<le> fk_nextVM b'"
    and "vm_of b' i = Some vm' \<Longrightarrow>
      (\<exists>vm. vm_of b i = Some vm \<and> vm_pool vm' = vm_pool vm) \<or> fk_nextVM b < i \<and> vm_pool vm' \<in> S"
    and "t \<in> set (fk_tasks b') \<Longrightarrow> t \<in> set (fk_tasks b) \<or> fresh_task (fk_nextVM b) t \<or> t \<in> X"
  using assms by (auto simp: grow_def)

lemma grow_refl [simp]: "grow S X b b" by (simp add: grow_def)

lemma fresh_task_mono: "fresh_task n t \<Longrightarrow> m \<le> n \<Longrightarrow> fresh_task m t"
  by (cases t) auto

lemma grow_trans:
  assumes 1: "grow S X b b1" and 2: "grow S X b1 b2"
  shows "grow S X b b2"
  unfolding grow_def
proof (intro conjI allI impI ballI)
  show "fk_nextVM b \<le> fk_nextVM b2" using growD(1) [OF 1] growD(1) [OF 2] by simp
  show "(\<exists>vm. vm_of b i = Some vm \<and> vm_pool vm' = vm_pool vm) \<or> fk_nextVM b < i \<and> vm_pool vm' \<in> S"
    if "vm_of b2 i = Some vm'" for i vm'
    using growD(2) [OF 2 that] growD(2) [OF 1, of i] growD(1) [OF 1] by fastforce
  show "t \<in> set (fk_tasks b) \<or> fresh_task (fk_nextVM b) t \<or> t \<in> X" if "t \<in> set (fk_tasks b2)" for t
    using growD(3) [OF 2 that] growD(3) [OF 1, of t] fresh_task_mono growD(1) [OF 1] by blast
qed

lemma grow_mono: "grow S X b b' \<Longrightarrow> S \<subseteq> S' \<Longrightarrow> X \<subseteq> X' \<Longrightarrow> grow S' X' b b'"
  unfolding grow_def by blast

text \<open>What is neither MicroVM nor goroutine does not count.\<close>

lemma grow_same:
  "fk_vms b' = fk_vms b \<Longrightarrow> fk_nextVM b' = fk_nextVM b \<Longrightarrow> set (fk_tasks b') \<subseteq> set (fk_tasks b) \<Longrightarrow> grow S X b b'"
  by (auto simp: grow_def)

lemma grow_core: "core b' = core b \<Longrightarrow> grow S X b b'"
  using core_eqD [of b' b] by (auto intro: grow_same)

lemma grow_emit [simp]: "grow S X b (emitLocked now k u e pl c) = grow S X b c"
  "grow S X b (kickReconcile c) = grow S X b c" "grow S X b (dropLeaseLocked l c) = grow S X b c"
  "grow S X b (snd (consumeHookFailure k kind c)) = grow S X b c" "grow S X b (upd_pool p f c) = grow S X b c"
  "grow S X b (stopReconcilerLocked p c) = grow S X b c"
  by (simp_all add: grow_def)

lemma grow_upd: "(\<And>vm. vm_pool (f vm) = vm_pool vm) \<Longrightarrow> grow S X b (upd_vm i f b)"
  by (auto simp: grow_def split: if_splits)

lemma grow_setPhase [simp]: "grow S X b (setPhaseLocked now i ph b)"
  unfolding setPhaseLocked_def by (rule grow_upd) simp

lemma grow_delete: "fk_vms b' = AList.delete i (fk_vms b) \<Longrightarrow> fk_nextVM b' = fk_nextVM b \<Longrightarrow> fk_tasks b' = fk_tasks b \<Longrightarrow> grow S X b b'"
  by (auto simp: grow_def split: if_splits)

lemma grow_spawn: "grow S X b c \<Longrightarrow> \<forall>t\<in>set ts. fresh_task (fk_nextVM b) t \<or> t \<in> X \<Longrightarrow> grow S X b (spawn ts c)"
  by (auto simp: grow_def spawn_def)

subsection \<open>Provisioning\<close>

text \<open>A strategy that never asks for a MicroVM.\<close>

definition still :: "PoolSpec \<Rightarrow> bool" where
  "still sp \<longleftrightarrow> sg_typ (strategyOf sp) = MIN_SIZE_THRESHOLD \<and> sg_size (strategyOf sp) \<le> 0"

lemma still_0:
  assumes "still sp"
  shows "onClaimed (strategyOf sp) = 0" "onDeleted (strategyOf sp) = 0" "tickDeficit (strategyOf sp) (countsLocked k b) = 0"
proof -
  show "onClaimed (strategyOf sp) = 0" "onDeleted (strategyOf sp) = 0"
    using assms by (simp_all add: still_def onClaimed_def onDeleted_def)
  have "0 \<le> c_available c" "0 \<le> c_leased c" "0 \<le> c_provisioning c" if "c = countsLocked k b" for c
    using that by (simp_all add: countsLocked_num)
  from this [OF refl] show "tickDeficit (strategyOf sp) (countsLocked k b) = 0"
    using assms by (auto simp: still_def tickDeficit_def)
qed

text \<open>The Pools that may get MicroVMs are those of \<open>S\<close>; every other has such a strategy.\<close>

definition refill :: "poolKey set \<Rightarrow> fake \<Rightarrow> nat \<Rightarrow> bool" where
  "refill S b p \<longleftrightarrow> still (pl_spec (pool_at b p)) \<or> pl_key (pool_at b p) \<in> S"

definition refills :: "poolKey set \<Rightarrow> fake \<Rightarrow> bool" where
  "refills S b \<longleftrightarrow>
     (\<forall>k p. pool_of b k = Some p \<longrightarrow> refill S b p) \<and>
     (\<forall>rid p v cmds. ClaimHooks rid p v cmds \<in> set (fk_tasks b) \<longrightarrow> refill S b p)"

lemma refill_env: "env b = env b' \<Longrightarrow> refill S b p = refill S b' p"
  using env_eqD(3,4) [of b b' p] by (simp add: refill_def)

lemma refill_UNIV [simp]: "refill UNIV b p" "refills UNIV b"
  by (simp_all add: refill_def refills_def)

lemma grow_reserve:
  "reserve now p n b = (vs, b') \<Longrightarrow> pl_key (pool_at b p) \<in> S \<Longrightarrow> grow S X b b' \<and> (\<forall>v\<in>set vs. fk_nextVM b < fst v)"
proof (induction n arbitrary: b vs)
  case (Suc n)
  show ?case
  proof (cases "pickHostLocked (pool_at b p) b")
    case (Pair ho ps)
    have ps: "pl_key ps = pl_key (pool_at b p)" using pickHost_same(1) [of "pool_at b p" b] Pair by simp
    show ?thesis
    proof (cases ho)
      case (Some h)
      let ?i = "fk_nextVM b + 1"
      let ?b1 = "upd_pool p (\<lambda>_. ps) (b\<lparr>fk_nextVM := ?i,
         fk_vms := AList.update ?i (newVM now ?i (pl_key ps) h (ps_HookFailurePolicy (pl_spec ps))) (fk_vms b)\<rparr>)"
      obtain vs' where r: "reserve now p n ?b1 = (vs', b')" and vs: "vs = (?i, pl_key ps, h) # vs'"
        using Suc.prems Pair Some by (auto simp: Let_def split: prod.splits)
      have "pl_key (pool_at ?b1 p) \<in> S" using ps Suc.prems(2) by (simp add: upd_pool_def)
      note IH = Suc.IH [OF r this]
      have "grow S X b ?b1" using ps Suc.prems(2) by (auto simp: grow_def newVM_def)
      then show ?thesis using grow_trans [of S X b ?b1 b'] IH vs by auto
    qed (use Suc.prems Pair in simp)
  qed
qed simp

lemma grow_provisionN:
  assumes "n = 0 \<or> pl_key (pool_at b p) \<in> S"
  shows "grow S X b (provisionNLocked now p n reason b)"
proof (cases "n = 0")
  case False
  obtain vs b1 where r: "reserve now p n b = (vs, b1)" by (cases "reserve now p n b")
  let ?b2 = "emitLocked now (pl_key (pool_at b1 p)) [] POOL_REPLENISHING
    [(''count'', PInt (int (length vs))), (''reason'', PStr reason)] b1"
  obtain ctx b3 where c: "reconcilerLocked p ?b2 = (ctx, b3)" by (cases "reconcilerLocked p ?b2")
  note g = grow_reserve [OF r, of S X]
  have "core b3 = core b1" using core_reconcilerLocked [of p ?b2] c by simp
  then have "grow S X b b3" using g assms False grow_trans grow_core by blast
  then have "grow S X b (spawn (map (ProvStart ctx) vs) b3)" using g assms False by (intro grow_spawn) auto
  then show ?thesis using r c g assms False by (simp add: provisionNLocked_def Let_def)
qed (simp add: provisionNLocked_def)

lemma grow_finishDeletion:
  assumes "\<And>k p. pool_of b k = Some p \<Longrightarrow> refill S b p"
  shows "grow S X b (finishDeletionLocked now i b)"
proof (cases "vm_of b i")
  case (Some vm)
  let ?b1 = "b\<lparr>fk_vms := AList.delete i (fk_vms b),
    fk_vmByUID := (if vm_uid vm \<noteq> [] then (fk_vmByUID b)(vm_uid vm := None) else fk_vmByUID b)\<rparr>"
  let ?b2 = "if vm_leaseID vm \<noteq> [] then dropLeaseLocked (vm_leaseID vm) ?b1 else ?b1"
  have e: "env ?b2 = env b" by simp
  have g: "grow S X b ?b2" by (rule grow_delete [where i = i]) simp_all
  have tail: "grow S X c (case pool_of c k of
      None \<Rightarrow> c
    | Some p \<Rightarrow>
        (let b3 = (case e of None \<Rightarrow> c | Some e \<Rightarrow> emitLocked now k u e pl c)
         in provisionNLocked now p (onDeleted (strategyOf (pl_spec (pool_at b3 p)))) reason b3))"
    if env: "env c = env b" for c k e u pl reason
  proof (cases "pool_of c k")
    case (Some p)
    let ?b3 = "case e of None \<Rightarrow> c | Some e \<Rightarrow> emitLocked now k u e pl c"
    have e3: "env ?b3 = env b" using env by (simp split: option.split)
    have "refill S ?b3 p" using assms [of k p] Some env_eqD(1) [OF env] refill_env [OF e3] by simp
    then have "grow S X ?b3 (provisionNLocked now p (onDeleted (strategyOf (pl_spec (pool_at ?b3 p)))) reason ?b3)"
      using still_0(2) by (intro grow_provisionN) (auto simp: refill_def)
    moreover have "grow S X c ?b3" by (simp split: option.split)
    ultimately show ?thesis using Some grow_trans by (simp add: Let_def)
  qed simp
  show ?thesis
    unfolding finishDeletionLocked_def Some option.case Let_def
    by (rule grow_trans [OF g tail [OF e, unfolded Let_def]])
qed (simp add: finishDeletionLocked_def)

lemma grow_deleteVM:
  "(\<And>k p. pool_of b k = Some p \<Longrightarrow> refill S b p) \<Longrightarrow> grow S X b (deleteVM_end now i c b)"
  "grow S X b (snd (deleteVM_begin now i e b))"
proof -
  let ?b1 = "upd_vm i (\<lambda>vm. vm\<lparr>vm_deleteInFlight := False\<rparr>) b"
  have e: "env ?b1 = env b" by simp
  have g: "grow S X b ?b1" by (rule grow_upd) simp
  show "grow S X b (deleteVM_end now i c b)" if "\<And>k p. pool_of b k = Some p \<Longrightarrow> refill S b p"
    using grow_trans [OF g grow_finishDeletion, of now i] that g env_eqD(1) [OF e] refill_env [OF e]
    by (simp add: deleteVM_end_def Let_def)
  show "grow S X b (snd (deleteVM_begin now i e b))" for e
    by (auto simp: deleteVM_begin_def Let_def split: option.split intro!: grow_trans [OF grow_upd grow_upd] grow_upd)
qed

lemma grow_applyHook: "grow S X b (applyHookFailurePolicy now i hook cause b)"
proof -
  have 1: "grow S X b (upd_vm i (\<lambda>vm. vm\<lparr>vm_leaseID := []\<rparr>) b)" by (rule grow_upd) simp
  have 2: "grow S X b (setPhaseLocked now i ph (emitLocked now k u e pl (upd_vm i (\<lambda>vm. vm\<lparr>vm_leaseID := []\<rparr>) b)))" for ph k u e pl
    by (rule grow_trans [OF _ grow_setPhase]) (use 1 in simp)
  show ?thesis
    by (auto simp: applyHookFailurePolicy_def Let_def split: option.split intro!: grow_spawn 2)
qed

lemma grow_hook:
  assumes "consumeHookFailure k kind (setPhaseLocked now i ph b) = (r, b2)"
  shows "grow S X b b2"
  using grow_setPhase [of S X b now i ph] grow_emit(4) [of S X b k kind "setPhaseLocked now i ph b"] assms by simp

text \<open>A provisioning goroutine goes on as the goroutine for the same MicroVM.\<close>

lemma grow_provision:
  assumes X: "\<And>t. owner t = Some v \<Longrightarrow> (\<And>rid p cmds. t \<noteq> ClaimHooks rid p v cmds) \<Longrightarrow> t \<in> X"
  shows "grow S X b (provision_start ctx v b)" "grow S X b (provision_created now ctx v cmds cr b)"
    "grow S X b (provision_waited now ctx v cmds f b)" "grow S X b (provision_hooked now ctx v cmds s b)"
proof -
  have ts: "ProvCreate ctx v cmds \<in> X" "ProvWait ctx v cmds \<in> X" "ProvHooks ctx v cmds \<in> X" for cmds
    by (rule X; simp)+
  have drop: "grow S X b (dropReserved i b)" for i by (rule grow_delete [where i = i]) (simp_all add: dropReserved_def)
  show "grow S X b (provision_start ctx v b)"
    using ts by (auto simp: provision_start_def drop split: prod.split option.split intro!: grow_spawn)
  have 1: "grow S X b (emitLocked now k u e pl (upd_vm i (\<lambda>vm. vm\<lparr>vm_uid := u, vm_updated := now\<rparr>) (b\<lparr>fk_vmByUID := U\<rparr>)))"
    for k u e pl i U by (auto simp: grow_def split: if_splits)
  show "grow S X b (provision_created now ctx v cmds cr b)"
    using ts by (auto simp: provision_created_def drop Let_def
        intro!: grow_spawn 1 1 [simplified] grow_trans [OF 1 grow_applyHook] split: prod.split option.split)
  show "grow S X b (provision_waited now ctx v cmds f b)"
    using ts by (auto simp: provision_waited_def grow_applyHook
        intro!: grow_spawn intro: grow_hook grow_trans [OF grow_hook grow_applyHook] split: prod.split option.split bool.split)
  show "grow S X b (provision_hooked now ctx v cmds s b)"
    by (auto simp: provision_hooked_def grow_applyHook split: prod.split option.split)
qed

subsection \<open>Claims\<close>

lemma grow_claim_end:
  assumes "refill S b p"
  shows "grow S X b (snd (claimVM_end now tok rid p v cmds s b))"
proof (cases v)
  case (fields i k h)
  have avail: "grow S X b (setPhaseLocked now i AVAILABLE (upd_vm i (\<lambda>vm. vm\<lparr>vm_leaseID := []\<rparr>) b))"
    by (rule grow_trans [OF grow_upd grow_setPhase]) simp
  let ?b2 = "\<lambda>vm rec. emitLocked now k (vm_uid vm) VM_CLAIMED [(''lease_id'', PStr tok), (''host'', PStr h)]
     (setPhaseLocked now i LEASED (upd_vm i (\<lambda>vm. vm\<lparr>vm_leaseID := tok\<rparr>) (b\<lparr>fk_leases := AList.update tok rec (fk_leases b)\<rparr>)))"
  have 1: "grow S X b (?b2 vm rec)" for vm rec by (auto simp: grow_def split: if_splits)
  have e: "env (?b2 vm rec) = env b" for vm rec by simp
  have key: "pl_key (pool_at (?b2 vm rec) p) = pl_key (pool_at b p)" for vm rec by (rule env_eqD(3) [OF e])
  have "onClaimed (strategyOf (pl_spec (pool_at b p))) = 0 \<or> pl_key (pool_at (?b2 vm rec) p) \<in> S" for vm rec
    unfolding key using assms still_0(1) [of "pl_spec (pool_at b p)"] by (auto simp: refill_def)
  from grow_trans [OF 1 grow_provisionN [OF this]]
  have 2: "grow S X b (provisionNLocked now p (onClaimed (strategyOf (pl_spec (pool_at b p)))) reason (?b2 vm rec))" for vm rec reason .
  show ?thesis
    unfolding claimVM_end_def fields prod.case Let_def
    by (auto split: option.split intro!: avail 2 grow_applyHook)
qed

text \<open>The goroutine that a claim starts holds an available MicroVM of a Pool that is there.\<close>

definition claim_tasks :: "fake \<Rightarrow> task set" where
  "claim_tasks b = {t. \<exists>rid p v cmds vm k. t = ClaimHooks rid p v cmds \<and> vm_of b (fst v) = Some vm \<and> vm_phase vm = AVAILABLE \<and>
     pool_of b k = Some p}"

lemma grow_claim_begin:
  assumes "fake_inv b"
  shows "grow S (claim_tasks b) b (snd (claimVM_begin now ref rid b))"
proof (cases "oldestAvailableLocked ref b")
  case (Some vm)
  have X: "ClaimHooks r p (vm_id vm, k, h) cmds \<in> claim_tasks b" if "poolLocked ref b = Inr p" for r p k h cmds
    using oldestAvailable_in [OF assms Some] that by (auto simp: claim_tasks_def poolLocked_def split: option.splits)
  show ?thesis
    using Some unfolding claimVM_begin_def
    by (auto intro!: grow_spawn X intro: grow_hook grow_trans [OF grow_hook grow_applyHook]
        split: sum.split option.split prod.split bool.split)
qed (simp add: claimVM_begin_def split: sum.split option.split)

subsection \<open>One step\<close>

lemma grow_tick:
  assumes "refills S b"
  shows "grow S X b (tick ls ks now b)"
proof -
  have pools: "grow S X c (fold (tick_pool now) ks c)" if "env c = env b" for c
    using that
  proof (induction ks arbitrary: c)
    case (Cons k ks)
    have "grow S X c (tick_pool now k c)"
    proof (cases "pool_of c k")
      case (Some p)
      let ?d = "tickDeficit (strategyOf (pl_spec (pool_at c p))) (countsLocked (pl_key (pool_at c p)) c)"
      have "refill S c p" using assms Some refill_env [OF Cons.prems] env_eqD(1) [OF Cons.prems] by (simp add: refills_def)
      then have d: "?d = 0 \<or> pl_key (pool_at c p) \<in> S" using still_0(3) by (auto simp: refill_def)
      have "grow S X c (provisionNLocked now p ?d reason c1)"
        if "grow S X c c1" "env c1 = env c" for c1 reason
        using grow_trans [OF that(1) grow_provisionN] d env_eqD(3) [OF that(2)] by metis
      moreover have "env (upd_pool p (\<lambda>ps. ps\<lparr>pl_fresh := False\<rparr>) c2) = env c2" for c2 by (simp add: env_upd_pool)
      ultimately show ?thesis unfolding tick_pool_def Some option.case Let_def by simp
    qed (simp add: tick_pool_def)
    then show ?case using Cons.IH [of "tick_pool now k c"] Cons.prems grow_trans by simp
  qed simp
  obtain b1 ex where f: "fold (tick_lease now) ls (b, []) = (b1, ex)" by (cases "fold (tick_lease now) ls (b, [])")
  have "env (fst (fold (tick_lease now) ls st)) = env (fst st)" for st by (induction ls arbitrary: st) simp_all
  then have e: "env b1 = env b" using f by (metis fst_conv)
  have "fk_tasks (fst (fold (tick_lease now) ls st)) = fk_tasks (fst st)" for st
    by (induction ls arbitrary: st) (auto simp: tick_lease_def split: prod.split option.split)
  then have "fk_tasks b1 = fk_tasks b" using f by (metis fst_conv)
  then have "grow S X b b1" using tick_leases_frame [of now ls "(b, [])"] f by (intro grow_same) simp_all
  then have "grow S X b (fold (tick_pool now) ks b1)" using grow_trans pools [OF e] by blast
  then show ?thesis by (auto simp: tick_def f Let_def intro!: grow_spawn)
qed

lemma grow_deletePool:
  assumes "fake_inv b"
  shows "grow S X b (snd (deletePool now ref force b))"
proof -
  obtain err b' where d: "deletePool now ref force b = (err, b')" by (cases "deletePool now ref force b")
  note e = deletePool_effect [OF assms d]
  show ?thesis
  proof (cases err)
    case None
    have "fk_nextVM b' = fk_nextVM b"
      using d None drained_effect(3) [OF assms] unfolding deletePool_eq Let_def poolLocked_def
      by (auto split: option.splits if_splits)
    then show ?thesis
      using d e(6) [OF None] e(3) [OF None] by (fastforce simp: grow_def split: option.splits if_splits)
  qed (use d e(2) in auto)
qed

lemma grow_call:
  assumes inv: "fake_inv b" and S: "refills S b"
  shows "grow S (claim_tasks b) b (call_step now c b)"
proof (cases c)
  case (CallDeletePool ref force)
  then show ?thesis using grow_deletePool [OF inv] by simp
next
  case (CallClaimVM ref rid)
  then show ?thesis using grow_claim_begin [OF inv] by simp
next
  case (CallTick ls ks)
  have "refills S (b\<lparr>fk_kicked := False\<rparr>)" using S by (simp add: refills_def refill_def)
  from grow_tick [OF this, of "claim_tasks b" ls ks now] show ?thesis using CallTick by (simp add: grow_def)
next
  case (CallReleaseVM l)
  have 1: "grow S (claim_tasks b) b (upd_vm i (\<lambda>vm. vm\<lparr>vm_released := True\<rparr>) b)" for i by (rule grow_upd) simp
  then show ?thesis
    using CallReleaseVM
    by (auto simp: releaseVM_start_def releaseVM_begin_def split: option.split intro!: grow_spawn)
next
  case CallCleanup
  then show ?thesis by (auto simp: cleanup_begin_def intro!: grow_spawn)
next
  case (CallUpdatePool p)
  then show ?thesis by (auto simp: updatePool_def Let_def split: sum.split option.split)
next
  case (CallCreatePool p)
  then show ?thesis by (auto simp: createPool_def grow_def split: sum.split option.split)
qed (auto simp: heartbeat_def SetFaults_def Run_begin_def cancel_run_def stop_begin_def cleanup_end_def addHost_def
    updateHost_def removeHost_def setCordoned_def kickReconcile_def Let_def intro!: grow_same
    split: sum.split option.split prod.split)

lemma grow_task:
  assumes t: "t \<in> set (fk_tasks b)" and S: "refills S b"
  shows "grow S {t'. owner t' = owner t \<and> (\<forall>rid p v cmds. t' \<noteq> ClaimHooks rid p v cmds)} b (task_step now r t (end_task t b))"
    (is "grow S ?X b ?b'")
proof -
  let ?b = "end_task t b"
  have e: "env ?b = env b" by simp
  have 0: "grow S ?X b ?b" by (rule grow_same) (simp_all add: end_task_def set_remove1_subset)
  have r: "refill S ?b p" if "pool_of ?b k = Some p" for k p
    using S that env_eqD(1) [OF e] refill_env [OF e] by (auto simp: refills_def)
  have "grow S ?X ?b ?b'"
  proof (cases t)
    case (DelStart i e)
    have "grow S ?X ?b b2" if "deleteVM_begin now i e ?b = (d, b2)" for d b2
      using grow_deleteVM(2) [of S ?X ?b now i e] that by simp
    then show ?thesis using DelStart by (auto split: prod.split deletion.split intro!: grow_spawn)
  next
    case (DelHost i h u)
    then show ?thesis using grow_deleteVM(1) [OF r] by simp
  next
    case (ClaimHooks rid p v cmds)
    have "refill S ?b p" using S t ClaimHooks refill_env [OF e] unfolding refills_def by blast
    then show ?thesis using ClaimHooks grow_claim_end by simp
  qed (auto intro!: grow_provision)
  then show ?thesis by (rule grow_trans [OF 0])
qed

subsection \<open>MicroVMs that are only deleted any more\<close>

text \<open>
  A MicroVM that no goroutine holds and that is leased, quarantined or being deleted, or one that
  is gone.
\<close>

definition retired :: "fake \<Rightarrow> int \<Rightarrow> bool" where
  "retired b i \<longleftrightarrow> i \<notin> set (fk_owned b) \<and> i \<le> fk_nextVM b \<and>
     (case vm_of b i of None \<Rightarrow> True | Some vm \<Rightarrow> vm_phase vm \<in> {LEASED, QUARANTINED, DELETING})"

lemma retired_rest:
  assumes "fake_inv b" "vm_of b i = Some vm" "vm_phase vm \<in> {LEASED, QUARANTINED}"
  shows "retired b i"
  using vm_inv(2,4) [OF assms(1,2)] assms(2,3) by (auto simp: retired_def)

text \<open>The goroutines that a step may start besides those for new MicroVMs.\<close>

definition next_tasks :: "fake \<Rightarrow> task set" where
  "next_tasks b = claim_tasks b \<union>
     {t. (\<exists>t0\<in>set (fk_tasks b). owner t = owner t0) \<and> (\<forall>rid p v cmds. t \<noteq> ClaimHooks rid p v cmds)}"

lemma step_grow:
  assumes "fake_step now b b'" "fake_inv b" "refills S b"
  shows "grow S (next_tasks b) b b'"
  using assms(1)
proof (cases rule: fake_step.cases)
  case (call c)
  have "claim_tasks b \<subseteq> next_tasks b" by (simp add: next_tasks_def)
  then show ?thesis using grow_mono [OF grow_call [OF assms(2,3)]] call(1) by simp
next
  case (goroutine t r)
  have "{t'. owner t' = owner t \<and> (\<forall>rid p v cmds. t' \<noteq> ClaimHooks rid p v cmds)} \<subseteq> next_tasks b"
    using goroutine(2) unfolding next_tasks_def by blast
  from grow_mono [OF grow_task [OF goroutine(2) assms(3), of now r] subset_refl this] show ?thesis using goroutine(1) by simp
qed

lemma retired_owned:
  assumes "fake_step now b b'" "fake_inv b" "retired b i"
  shows "i \<notin> set (fk_owned b')"
proof
  assume "i \<in> set (fk_owned b')"
  then obtain t k h where t: "t \<in> set (fk_tasks b')" "owner t = Some (i, k, h)" by (force simp: set_owned)
  note g = step_grow [OF assms(1,2) refill_UNIV(2)]
  have own: "t0 \<notin> set (fk_tasks b)" if "owner t0 = Some (i, k, h)" for t0
    using task_inv(2) [OF assms(2) _ that] assms(3) by (auto simp: retired_def)
  have "\<not> fresh_task (fk_nextVM b) t" using t(2) assms(3) by (cases t) (auto simp: retired_def)
  moreover have "t \<notin> claim_tasks b" using t(2) assms(3) by (auto simp: claim_tasks_def retired_def)
  ultimately show False using growD(3) [OF g t(1)] own t(2) unfolding next_tasks_def by fastforce
qed

lemma retired_step:
  assumes "fake_step now b b'" "fake_inv b" "retired b i"
  shows "retired b' i" and "vm_of b' i = Some vm' \<Longrightarrow> \<exists>vm. vm_of b i = Some vm \<and> rest_to vm vm'"
proof -
  note g = step_grow [OF assms(1,2) refill_UNIV(2)]
  show *: "\<exists>vm. vm_of b i = Some vm \<and> rest_to vm vm'" if vm': "vm_of b' i = Some vm'" for vm'
  proof -
    have i: "i \<notin> set (fk_owned b)" "i \<le> fk_nextVM b" using assms(3) by (simp_all add: retired_def)
    then obtain vm where "vm_of b i = Some vm" using growD(2) [OF g vm'] by auto
    then show ?thesis using rest_step [OF assms(1,2) _ i(1) vm'] by blast
  qed
  have "vm_phase vm' \<in> {LEASED, QUARANTINED, DELETING}" if vm': "vm_of b' i = Some vm'" for vm'
  proof -
    obtain vm where vm: "vm_of b i = Some vm" "rest_to vm vm'" using * [OF vm'] by blast
    have "vm_phase vm \<in> {LEASED, QUARANTINED, DELETING}" using assms(3) vm(1) by (simp add: retired_def)
    then show ?thesis using vm(2) unfolding rest_to_def by auto
  qed
  moreover have "i \<le> fk_nextVM b'" using growD(1) [OF g] assms(3) by (simp add: retired_def)
  ultimately show "retired b' i"
    using retired_owned [OF assms] unfolding retired_def by (simp split: option.split)
qed

lemma rest_to_trans:
  assumes "vm_phase vm \<in> {LEASED, QUARANTINED, DELETING}" "rest_to vm vm1" "rest_to vm1 vm2"
  shows "rest_to vm vm2"
  using assms by (auto simp: rest_to_def)

lemma runs_inv: "fake_runs b b' \<Longrightarrow> fake_inv b \<Longrightarrow> fake_inv b'"
  unfolding fake_runs_def by (induction rule: rtranclp_induct) (auto intro: keep_step)

lemma retired_runs:
  assumes "fake_runs b b'" "fake_inv b" "retired b i"
  shows "retired b' i \<and> (\<forall>vm'. vm_of b' i = Some vm' \<longrightarrow> (\<exists>vm. vm_of b i = Some vm \<and> rest_to vm vm'))"
  using assms(1) unfolding fake_runs_def
proof (induction rule: rtranclp_induct)
  case base
  then show ?case using assms(3) by (auto simp: rest_to_same(1))
next
  case (step b1 b2)
  then obtain now where s: "fake_step now b1 b2" by blast
  have inv: "fake_inv b1" using runs_inv assms(2) step.hyps(1) unfolding fake_runs_def by blast
  have r: "retired b1 i" using step.IH by blast
  note one = retired_step [OF s inv r]
  have "\<exists>vm. vm_of b i = Some vm \<and> rest_to vm vm2" if vm2: "vm_of b2 i = Some vm2" for vm2
  proof -
    obtain vm1 where 1: "vm_of b1 i = Some vm1" "rest_to vm1 vm2" using one(2) [OF vm2] by blast
    obtain vm where 2: "vm_of b i = Some vm" "rest_to vm vm1" using step.IH 1(1) by blast
    show ?thesis using rest_to_trans [OF _ 2(2) 1(2)] 2(1) assms(3) by (simp add: retired_def)
  qed
  then show ?case using one(1) by blast
qed

subsection \<open>Pools that get no MicroVM\<close>

text \<open>The runs in which every call satisfies \<open>P\<close>.\<close>

inductive fake_step_in :: "(fake_call \<Rightarrow> bool) \<Rightarrow> time \<Rightarrow> fake \<Rightarrow> fake \<Rightarrow> bool" for P where
  call: "P c \<Longrightarrow> call_ok c b \<Longrightarrow> fake_step_in P now b (call_step now c b)"
| goroutine: "t \<in> set (fk_tasks b) \<Longrightarrow> outcome_ok r t b \<Longrightarrow> fake_step_in P now b (task_step now r t (end_task t b))"

definition fake_runs_in :: "(fake_call \<Rightarrow> bool) \<Rightarrow> fake \<Rightarrow> fake \<Rightarrow> bool" where
  "fake_runs_in P = (\<lambda>b b'. \<exists>now. fake_step_in P now b b')\<^sup>*\<^sup>*"

lemma step_in_step: "fake_step_in P now b b' \<Longrightarrow> fake_step now b b'"
  by (induction rule: fake_step_in.induct) (auto intro: fake_step.intros)

text \<open>The calls that give the Pool \<open>ref\<close> a strategy that may ask for MicroVMs.\<close>

fun revives :: "poolKey \<Rightarrow> fake_call \<Rightarrow> bool" where
  "revives ref (CallCreatePool sp) \<longleftrightarrow> ps_Ref sp = ref"
| "revives ref (CallUpdatePool sp) \<longleftrightarrow> ps_Ref sp = ref \<and> \<not> still sp"
| "revives ref _ \<longleftrightarrow> False"

lemma validateSpec_still: "validateSpec p0 = Inr p \<Longrightarrow> still p = still p0"
  by (auto simp: validateSpec_def still_def strategyOf_def split: if_splits option.splits)

text \<open>A Pool object that may not get MicroVMs may not get any afterwards either.\<close>

definition refill_kept :: "poolKey set \<Rightarrow> fake \<Rightarrow> fake \<Rightarrow> bool" where
  "refill_kept S b b' \<longleftrightarrow> (\<forall>p. refill S b p \<longrightarrow> refill S b' p) \<and>
     (\<forall>k p. pool_of b' k = Some p \<longrightarrow> pool_of b k = Some p \<or> refill S b' p)"

lemma refill_kept_env:
  assumes "env b' = env b"
  shows "refill_kept S b b'"
  unfolding refill_kept_def refill_env [OF assms] env_eqD(1) [OF assms] by simp

lemma refill_kept_heap: "fk_heap b' = fk_heap b \<Longrightarrow> fk_pools b' = fk_pools b \<Longrightarrow> refill_kept S b b'"
  by (simp add: refill_kept_def refill_def)

lemma refill_kept_refl [simp]: "refill_kept S b b" by (simp add: refill_kept_def)

lemma refill_create:
  assumes "ps_Ref p0 \<in> S"
  shows "refill_kept S b (snd (createPool p0 b))"
proof -
  obtain ans b' where r: "createPool p0 b = (ans, b')" by (cases "createPool p0 b")
  then show ?thesis
  proof (cases rule: createPool_cases)
    case (created p)
    have "ps_Ref p \<in> S" using assms validateSpec_same [OF created(1)] by simp
    then have "refill_kept S b b'"
      unfolding created(5) refill_kept_def refill_def by (simp add: kickReconcile_def new_pool_def)
    then show ?thesis using r by simp
  qed (use r in simp)
qed

lemma refill_update:
  assumes inv: "pool_inv b" and p0: "ps_Ref p0 \<in> S \<or> still p0"
  shows "refill_kept S b (snd (updatePool p0 b))"
proof -
  obtain ans b' where r: "updatePool p0 b = (ans, b')" by (cases "updatePool p0 b")
  then show ?thesis
  proof (cases rule: updatePool_cases)
    case (updated p a)
    let ?s = "stopReconcilerLocked a b"
    have e: "env ?s = env b" by simp
    have k: "pl_key (pool_at ?s a) = ps_Ref p" using inv updated(3) env_eqD(3) [OF e, of a] by (simp add: pool_inv_def)
    have "still p \<or> ps_Ref p \<in> S" using p0 validateSpec_same [OF updated(1)] validateSpec_still [OF updated(1)] by auto
    then have "refill_kept S ?s (upd_pool a (\<lambda>ps. ps\<lparr>pl_spec := p, pl_fresh := True\<rparr>) ?s)"
      using k by (simp add: refill_kept_def refill_def upd_pool_def)
    moreover have "refill S ?s q = refill S b q" "pool_of ?s k = pool_of b k" for q k
      using refill_env [OF e] env_eqD(1) [OF e] by simp_all
    moreover have "refill S (kickReconcile c) q = refill S c q" for c q by (rule refill_env) simp
    ultimately have "refill_kept S b b'" unfolding updated(4) by (simp add: refill_kept_def)
    then show ?thesis using r by simp
  qed (use r in simp)
qed

lemma refill_delete: "refill_kept S b (snd (deletePool now ref force b))"
proof -
  let ?c = "b\<lparr>fk_pools := AList.delete ref (fk_pools b)\<rparr>"
  have "refill_kept S b ?c" by (simp add: refill_kept_def refill_def delete_conv)
  then have "refill_kept S b b'" if "env b' = env ?c" for b'
    using env_eqD(1) [OF that] refill_env [OF that] by (simp add: refill_kept_def)
  then show ?thesis using deletePool_env [of now ref force b] refill_kept_refl by metis
qed

lemma call_refill:
  assumes inv: "pool_inv b" and c: "\<not> revives ref c"
  shows "refill_kept (- {ref}) b (call_step now c b)"
proof (cases c)
  case (CallCreatePool p0)
  then show ?thesis using refill_create c by simp
next
  case (CallUpdatePool p0)
  then show ?thesis using refill_update [OF inv] c by simp
next
  case (CallDeletePool rf force)
  then show ?thesis using refill_delete by simp
next
  case (CallClaimVM ref rid)
  then show ?thesis by (simp add: refill_kept_env)
next
  case (CallHeartbeat l)
  then show ?thesis by (simp add: refill_kept_env)
next
  case (CallReleaseVM l)
  then show ?thesis by (simp add: refill_kept_env)
next
  case (CallTick ls ks)
  then show ?thesis by (simp add: refill_kept_env)
next
  case (CallReceive n)
  then show ?thesis by (simp add: refill_kept_heap split: option.split)
next
  case CallForget
  then show ?thesis by (simp add: refill_kept_env cleanup_end_def)
next
  case CallCleanup
  then show ?thesis by (simp add: refill_kept_env cleanup_begin_def)
next
  case (CallRemoveHost name)
  then show ?thesis by (simp add: removeHost_def refill_kept_heap Let_def split: option.split)
next
  case (CallAddHost dial h skip)
  then show ?thesis by (simp add: addHost_def refill_kept_heap kickReconcile_def Let_def split: option.split sum.split)
next
  case (CallUpdateHost dial h skip)
  then show ?thesis by (simp add: updateHost_def refill_kept_heap kickReconcile_def Let_def split: option.split sum.split)
next
  case (CallCordon name cordoned reason)
  then show ?thesis by (simp add: setCordoned_def refill_kept_heap kickReconcile_def Let_def split: option.split)
qed (simp_all add: refill_kept_heap SetFaults_def Run_begin_def cancel_run_def stop_begin_def Let_def)

lemma refills_step:
  assumes "fake_step_in (\<lambda>c. \<not> revives ref c) now b b'" "fake_inv b" "pool_inv b" "refills (- {ref}) b"
  shows "refills (- {ref}) b'"
proof -
  note g = step_grow [OF step_in_step [OF assms(1)] assms(2,4)]
  have old: "refill_kept (- {ref}) b b'"
    using assms(1)
  proof (cases rule: fake_step_in.cases)
    case (call c)
    then show ?thesis using call_refill [OF assms(3)] by simp
  next
    case (goroutine t r)
    then show ?thesis by (simp add: refill_kept_env)
  qed
  have "refill (- {ref}) b' p" if "ClaimHooks rid p v cmds \<in> set (fk_tasks b')" for rid p v cmds
  proof -
    have "ClaimHooks rid p v cmds \<in> set (fk_tasks b) \<or> (\<exists>k. pool_of b k = Some p)"
    proof -
      have "ClaimHooks rid p v cmds \<in> set (fk_tasks b) \<or> ClaimHooks rid p v cmds \<in> claim_tasks b"
        using growD(3) [OF g that] unfolding next_tasks_def Un_iff mem_Collect_eq fresh_task.simps by blast
      then show ?thesis unfolding claim_tasks_def by blast
    qed
    then show ?thesis using assms(4) old unfolding refills_def refill_kept_def by blast
  qed
  then show ?thesis using assms(4) old unfolding refills_def refill_kept_def by blast
qed

lemma still_runs:
  assumes "fake_runs_in (\<lambda>c. \<not> revives ref c) b b'" "fake_inv b" "hosts_inv b" "refills (- {ref}) b"
    and "vm_of b' i = Some vm'" "vm_pool vm' = ref"
  shows "\<exists>vm. vm_of b i = Some vm \<and> vm_pool vm = ref"
proof -
  have "fake_inv b' \<and> hosts_inv b' \<and> refills (- {ref}) b' \<and>
    (\<forall>i vm'. vm_of b' i = Some vm' \<and> vm_pool vm' = ref \<longrightarrow> (\<exists>vm. vm_of b i = Some vm \<and> vm_pool vm = ref))"
    using assms(1) unfolding fake_runs_in_def
  proof (induction rule: rtranclp_induct)
    case base
    then show ?case using assms(2-4) by blast
  next
    case (step b1 b2)
    then obtain now where s: "fake_step_in (\<lambda>c. \<not> revives ref c) now b1 b2" by blast
    have inv: "fake_inv b1" "hosts_inv b1" "refills (- {ref}) b1" using step.IH by blast+
    have r: "refills (- {ref}) b2" using refills_step [OF s inv(1) _ inv(3)] inv(2) by (simp add: hosts_inv_def)
    note g = step_grow [OF step_in_step [OF s] inv(1,3)]
    have "\<exists>vm. vm_of b i = Some vm \<and> vm_pool vm = ref" if "vm_of b2 i = Some vm2" "vm_pool vm2 = ref" for i vm2
      using growD(2) [OF g that(1)] that(2) step.IH by auto
    moreover have "fake_inv b2" "hosts_inv b2"
      using keep_step [OF step_in_step [OF s] inv(1)] hosts_inv_step [OF step_in_step [OF s] inv(1,2)] by blast+
    ultimately show ?case using r by blast
  qed
  then show ?thesis using assms(5,6) by blast
qed

end
