(* ===== verification/FakeProps.thy ===== *)
theory FakeProps
  imports FakePlay FakeRuns
begin

section \<open>Properties of the fake battery\<close>

text \<open>
  What the fake promises a client, over every interleaving of calls and goroutines. The
  examples are executions of \<open>FakePlay\<close>.
\<close>

subsection \<open>Leases\<close>

text \<open>
  C21. In every reachable state, a Lease is that of a MicroVM the fake holds: the MicroVM
  knows the Lease, is of its Pool, and is leased or being deleted. No two Leases are of one
  MicroVM, and no two have one request id.
\<close>

theorem fake_leases_consistent:
  assumes "fake_reachable b" "lease_of b l = Some r"
  shows "lr_LeaseID r = l \<and>
    (\<exists>vm. vmByUID b (lr_VMUID r) = Some vm \<and> vm_uid vm = lr_VMUID r \<and> vm_leaseID vm = l \<and> vm_pool vm = lr_Pool r \<and>
       vm_phase vm \<in> {LEASED, DELETING}) \<and>
    (\<forall>l' r'. lease_of b l' = Some r' \<longrightarrow>
       lr_VMUID r' = lr_VMUID r \<or> lr_RequestID r' = lr_RequestID r \<and> lr_RequestID r \<noteq> [] \<longrightarrow> l' = l)"
proof -
  note inv = reachable_inv [OF assms(1)]
  have "l' = l" if "lease_of b l' = Some r'" "lr_VMUID r' = lr_VMUID r" for l' r'
    using lease_inv [OF inv that(1)] lease_inv [OF inv assms(2)] that(2) by (metis option.inject)
  moreover have "l' = l" if "lease_of b l' = Some r'" "lr_RequestID r' = lr_RequestID r" "lr_RequestID r \<noteq> []" for l' r'
    using linvD(4) [OF fake_invD(1) [OF inv] that(1) assms(2)] that(2,3) by simp
  ultimately show ?thesis by (auto simp: vmByUID_def intro: lease_inv [OF inv assms(2)])
qed

theorem fake_leases_consistent_witness:
  "\<exists>r. lease_of (demo_fake demo_claim) ''l'' = Some r \<and> vmByUID (demo_fake demo_claim) (lr_VMUID r) \<noteq> None"
proof -
  have "lease_of (demo_fake demo_claim) ''l'' \<noteq> None" by code_simp
  then obtain r where "lease_of (demo_fake demo_claim) ''l'' = Some r" by blast
  with fake_leases_consistent [OF demo_reachable this] show ?thesis by blast
qed

text \<open>
  C22. A step changes the Leases in no other way than this: a claim in flight for an unleased
  MicroVM of the Pool gets one, if no Lease has its request id; a heartbeat moves the expiry
  to the Pool's threshold from now; and a Lease ends once it has expired, or once its MicroVM
  is gone, or with its Pool, or when the fake has stopped.
\<close>

theorem fake_lease_changes:
  assumes "fake_reachable b" "fake_step now b b'"
  shows "lease_change now b b' l"
  by (rule lease_step [OF assms(2) reachable_inv [OF assms(1)]])

theorem fake_lease_changes_witness:
  "lease_change 4 (demo_fake (take 1 demo_claim)) (demo_fake demo_claim) ''l'' \<and>
   lease_of (demo_fake (take 1 demo_claim)) ''l'' = None \<and> lease_of (demo_fake demo_claim) ''l'' \<noteq> None"
proof -
  let ?b = "demo_fake (take 1 demo_claim)"
  have "demo_fake demo_claim = make_move (Go 4 0 (fine ''l'')) ?b"
    by (simp add: demo_fake_def demo_claim_def play_def)
  moreover have ok: "0 < length (fk_tasks ?b) \<and> outcome_ok (fine ''l'') (fk_tasks ?b ! 0) ?b" by code_simp
  ultimately have "fake_step 4 ?b (demo_fake demo_claim)"
    using fake_step.goroutine [of "fk_tasks ?b ! 0" ?b "fine ''l''" 4] by auto
  then have "lease_change 4 ?b (demo_fake demo_claim) ''l''" by (rule fake_lease_changes [OF demo_reachable])
  moreover have "lease_of ?b ''l'' = None" "lease_of (demo_fake demo_claim) ''l'' \<noteq> None" by code_simp+
  ultimately show ?thesis by blast
qed




text \<open>
  C24. \<open>ClaimVM\<close> with the request id of a Lease that the fake holds takes no MicroVM and
  changes nothing. It answers with that Lease, its MicroVM and its Host; while the MicroVM is
  being deleted it answers ABORTED, and for another Pool INVALID_ARGUMENT.
\<close>

theorem fake_claim_replay:
  assumes "fake_reachable b" "lease_of b l = Some r" "lr_RequestID r = rid" "rid \<noteq> []" "length rid \<le> 255"
    and "pool_of b ref \<noteq> None"
  shows "\<exists>ans vm. claimVM_begin now ref rid b = (Some ans, b) \<and> vmByUID b (lr_VMUID r) = Some vm \<and>
    (if lr_Pool r \<noteq> ref then \<exists>m. ans = Inl (Status c_InvalidArgument m)
     else if vm_phase vm = DELETING then \<exists>m. ans = Inl (Status c_Aborted m)
     else \<exists>addr. ans = Inr \<lparr>cr_leaseID = l, cr_vmUID = lr_VMUID r, cr_host = vm_host vm, cr_address = addr\<rparr>)"
proof -
  note inv = reachable_inv [OF assms(1)]
  obtain i vm where vm: "fk_vmByUID b (lr_VMUID r) = Some i" "vm_of b i = Some vm" "vm_uid vm = lr_VMUID r"
    "lr_LeaseID r = l"
    using lease_inv [OF inv assms(2)] by metis
  have "leaseByRequestIDLocked rid b \<noteq> None" using leaseByRequestID_None [OF inv _ assms(2)] assms(3) by blast
  then obtain r' where r': "leaseByRequestIDLocked rid b = Some r'" by blast
  have "r' = r"
    using linvD(4) [OF fake_invD(1) [OF inv] leaseByRequestID_Some(1) [OF inv r'] assms(2)]
      leaseByRequestID_Some [OF inv r'] assms(2,3,4) by simp
  then show ?thesis
    using assms r' vm
    by (auto simp: claimVM_begin_def maxRequestIDLength_def poolLocked_def replayLocked_def vmByUID_def claim_answer_def
        withInterfaces_def errInvalid_def Let_def split: option.splits)
qed

theorem fake_claim_replay_witness:
  "\<exists>addr. claimVM_begin 9 demo_ref ''r'' (demo_fake demo_claim) =
     (Some (Inr \<lparr>cr_leaseID = ''l'', cr_vmUID = ''u'', cr_host = ''h'', cr_address = addr\<rparr>), demo_fake demo_claim)"
proof -
  let ?b = "demo_fake demo_claim"
  have "map_option (\<lambda>r. (lr_RequestID r, lr_Pool r, lr_VMUID r)) (lease_of ?b ''l'') = Some (''r'', demo_ref, ''u'')"
    by code_simp
  then obtain r where r: "lease_of ?b ''l'' = Some r" "lr_RequestID r = ''r''" "lr_Pool r = demo_ref" "lr_VMUID r = ''u''"
    by auto
  have p: "pool_of ?b demo_ref \<noteq> None" by code_simp
  have v: "map_option (\<lambda>vm. (vm_phase vm, vm_host vm)) (vmByUID ?b ''u'') = Some (LEASED, ''h'')" by code_simp
  show ?thesis
    using fake_claim_replay [OF demo_reachable r(1,2) _ _ p, of 9] r(3,4) v by (auto split: if_splits)
qed



subsection \<open>Pools\<close>

text \<open>
  C26. \<open>DeletePool\<close> is refused, and changes nothing, exactly when the fake has no such Pool,
  or when it is not forced and a MicroVM of the Pool is leased or being claimed. Otherwise the
  Pool is gone with all its Leases, each of its MicroVMs is DELETING, knows no Lease and has a
  deletion started, and no other Pool, Lease or MicroVM is touched.
\<close>

theorem fake_delete_pool:
  assumes "fake_reachable b" "deletePool now ref force b = (err, b')"
  shows "(err \<noteq> None \<longleftrightarrow> pool_of b ref = None \<or>
      \<not> force \<and> (\<exists>i vm. vm_of b i = Some vm \<and> vm_pool vm = ref \<and> vm_phase vm \<in> {LEASED, PRE_LEASE_HOOK_RUNNING})) \<and>
    (err \<noteq> None \<longrightarrow> b' = b) \<and>
    (err = None \<longrightarrow>
      pool_of b' = (pool_of b)(ref := None) \<and>
      (\<forall>l r. lease_of b' l = Some r \<longleftrightarrow> lease_of b l = Some r \<and> lr_Pool r \<noteq> ref) \<and>
      (\<forall>i vm. vm_of b i = Some vm \<longrightarrow>
         (if vm_pool vm = ref
          then vm_of b' i = Some (vm\<lparr>vm_phase := DELETING, vm_updated := now, vm_leaseID := [], vm_deleteEvent := None\<rparr>) \<and>
               DelStart i None \<in> set (fk_tasks b')
          else vm_of b' i = Some vm)))"
proof -
  note inv = reachable_inv [OF assms(1)]
  note eff = deletePool_effect [OF inv assms(2)]
  have tasks: "DelStart i None \<in> set (fk_tasks b')" if "err = None" "vm_of b i = Some vm" "vm_pool vm = ref" for i vm
  proof -
    have "vm \<in> set (pool_vms ref b)" using that pool_vms_of map_of_SomeD [OF that(2)] by (force simp: pool_vms_def)
    then show ?thesis using eff(6) [OF that(1)] vm_inv(1) [OF inv that(2)] by force
  qed
  have leases: "lease_of b' l = Some r \<longleftrightarrow> lease_of b l = Some r \<and> lr_Pool r \<noteq> ref" if "err = None" for l r
    using eff(4) [OF that, of l] by (auto split: option.splits)
  have vms: "vm_of b' i = (if vm_pool vm = ref
      then Some (vm\<lparr>vm_phase := DELETING, vm_updated := now, vm_leaseID := [], vm_deleteEvent := None\<rparr>) else Some vm)"
    if "err = None" "vm_of b i = Some vm" for i vm
    using eff(3) [OF that(1), of i] that(2) by simp
  have "err \<noteq> None \<longleftrightarrow> pool_of b ref = None \<or>
      \<not> force \<and> (\<exists>i vm. vm_of b i = Some vm \<and> vm_pool vm = ref \<and> vm_phase vm \<in> {LEASED, PRE_LEASE_HOOK_RUNNING})"
    using eff(1) by (simp add: delete_refused_def leasing_def)
  then show ?thesis using eff(2,5) tasks leases vms by simp
qed

theorem fake_delete_pool_witness:
  "(\<exists>e. deletePool 5 demo_ref False (demo_fake demo_claim) = (Some e, demo_fake demo_claim)) \<and>
   lease_of (snd (deletePool 5 demo_ref True (demo_fake demo_claim))) ''l'' = None"
proof -
  let ?b = "demo_fake demo_claim"
  have v: "map_option (\<lambda>vm. (vm_pool vm, vm_phase vm)) (vm_of ?b 1) = Some (demo_ref, LEASED)"
    "map_option lr_Pool (lease_of ?b ''l'') = Some demo_ref" "fst (deletePool 5 demo_ref True ?b) = None" by code_simp+
  obtain e b1 where d: "deletePool 5 demo_ref False ?b = (e, b1)" by (cases "deletePool 5 demo_ref False ?b")
  obtain f b2 where d2: "deletePool 5 demo_ref True ?b = (f, b2)" by (cases "deletePool 5 demo_ref True ?b")
  have "e \<noteq> None \<and> b1 = ?b" using fake_delete_pool [OF demo_reachable d] v(1) by auto
  moreover have "lease_of b2 ''l'' = None"
    using fake_delete_pool [OF demo_reachable d2] v(2,3) d2 by (cases "lease_of b2 ''l''") auto
  ultimately show ?thesis using d d2 by auto
qed






subsection \<open>Hosts\<close>

text \<open>
  C28. A MicroVM is placed only on a Host that the Pool names and that the fake holds
  uncordoned, and there is one whenever there is such a Host; by default it is one with the
  fewest live MicroVMs of the Pool.
\<close>

theorem fake_placement:
  assumes "pickHostLocked ps b = (host, ps')"
  shows "(host = None \<longleftrightarrow> \<not> (\<exists>h\<in>set (ps_FlintlockHosts (pl_spec ps)). eligible (fk_hosts b) h)) \<and>
    (\<forall>h. host = Some h \<longrightarrow>
       h \<in> set (ps_FlintlockHosts (pl_spec ps)) \<and> eligible (fk_hosts b) h \<and>
       (fk_placement b = PlacementLeastVMs \<longrightarrow>
          (\<forall>h'\<in>set (ps_FlintlockHosts (pl_spec ps)).
             eligible (fk_hosts b) h' \<longrightarrow> perHost (pl_key ps) b h \<le> perHost (pl_key ps) b h')))"
proof (cases "filter (eligible (fk_hosts b)) (ps_FlintlockHosts (pl_spec ps))")
  case Nil
  then show ?thesis using assms by (auto simp: pickHostLocked_def filter_empty_conv)
next
  case (Cons c cs)
  then have some: "host \<noteq> None" using assms by (auto simp: pickHostLocked_def split: Placement.splits)
  have mem: "h' \<in> set (c # cs) \<longleftrightarrow> h' \<in> set (ps_FlintlockHosts (pl_spec ps)) \<and> eligible (fk_hosts b) h'" for h'
    unfolding Cons [symmetric] by auto
  have "perHost (pl_key ps) b h \<le> perHost (pl_key ps) b h'"
    if "host = Some h" "fk_placement b = PlacementLeastVMs" "h' \<in> set (c # cs)" for h h'
    using least_fold(2) [OF that(3), of "perHost (pl_key ps) b"] assms that(1,2) Cons by (auto simp: pickHostLocked_def)
  moreover have "\<exists>h\<in>set (ps_FlintlockHosts (pl_spec ps)). eligible (fk_hosts b) h" using mem [of c] by auto
  ultimately show ?thesis using some pickHost_eligible assms mem by auto
qed

theorem fake_placement_witness:
  "fst (pickHostLocked (new_pool demo_spec) (demo_fake [])) = Some ''h''"
proof -
  obtain host ps where e: "pickHostLocked (new_pool demo_spec) (demo_fake []) = (host, ps)"
    by (cases "pickHostLocked (new_pool demo_spec) (demo_fake [])")
  have "ps_FlintlockHosts (pl_spec (new_pool demo_spec)) = [''h'']" "eligible (fk_hosts (demo_fake [])) ''h''" by code_simp+
  then show ?thesis using fake_placement [OF e] e by auto
qed

text \<open>
  C29. In every reachable state the fake holds the Host of each of its MicroVMs and every Host
  that a Pool names: \<open>RemoveHost\<close> refuses a Host in use, and \<open>CreatePool\<close> and \<open>UpdatePool\<close> refuse
  a Host that is not held.
\<close>

theorem fake_hosts_held:
  assumes "fake_reachable b"
  shows "(\<forall>i vm. vm_of b i = Some vm \<longrightarrow> held (fk_hosts b) (vm_host vm)) \<and>
    (\<forall>key p h. pool_of b key = Some p \<longrightarrow> h \<in> set (ps_FlintlockHosts (pl_spec (pool_at b p))) \<longrightarrow> held (fk_hosts b) h)"
  using reachable_hosts [OF assms] by (auto simp: hosts_inv_def pool_inv_def)

theorem fake_hosts_held_witness:
  "\<exists>vm. vm_of (demo_fake []) 1 = Some vm \<and> held (fk_hosts (demo_fake [])) (vm_host vm)"
proof -
  have "vm_of (demo_fake []) 1 \<noteq> None" by code_simp
  then show ?thesis using fake_hosts_held [OF demo_reachable, of "[]"] by blast
qed

subsection \<open>Events\<close>

text \<open>
  C30. From its subscription until it is dropped, a stream is sent the replayed events of its
  Pool and then every event published for it, in order, with no gap and no repetition: what
  it has not been sent yet is what is in its buffer. The bus may meanwhile publish events of
  any Pool, and serve, open and close other streams.
\<close>

theorem fake_stream_complete:
  assumes "subscribe order (Some k) e = ((s0, backlog), e1)" "bus_run xs e1 = (e2, out)"
    and "map_of (bus_subs e2) (sub_id s0) = Some s" "\<not> sub_dropped s"
  shows "(backlog @ sent_to (sub_id s0) out) @ sub_ch s = recent e k @ published_for s0 xs"
proof -
  have e: "map_of (bus_subs e1) (sub_id s0) = Some s0" "sub_id s0 \<le> bus_nextSub e1" "sub_ch s0 = []" "backlog = recent e k"
    using assms(1) by (auto simp: subscribe_def Let_def update_conv)
  show ?thesis using bus_run_stream [of xs e1 "sub_id s0" s] assms(2-4) e by auto
qed

theorem fake_stream_complete_witness:
  "\<exists>s0 backlog e1 e2 out s. subscribe [] (Some demo_ref) (fk_events (demo_fake [])) = ((s0, backlog), e1) \<and>
     bus_run [Subscribe [] None, Receive 2] e1 = (e2, out) \<and> map_of (bus_subs e2) (sub_id s0) = Some s \<and>
     (backlog @ sent_to (sub_id s0) out) @ sub_ch s = recent (fk_events (demo_fake [])) demo_ref \<and> backlog \<noteq> []"
proof -
  let ?e = "fk_events (demo_fake [])"
  let ?xs = "[Subscribe [] None, Receive 2]"
  obtain s0 backlog e1 where 1: "subscribe [] (Some demo_ref) ?e = ((s0, backlog), e1)" by (metis surj_pair)
  obtain e2 out where 2: "bus_run ?xs e1 = (e2, out)" by (metis surj_pair)
  have "case subscribe [] (Some demo_ref) ?e of ((s0, bl), e1) \<Rightarrow> case bus_run ?xs e1 of (e2, out) \<Rightarrow>
      bl \<noteq> [] \<and> (case map_of (bus_subs e2) (sub_id s0) of None \<Rightarrow> False | Some s \<Rightarrow> \<not> sub_dropped s)"
    by code_simp
  then obtain s where 3: "map_of (bus_subs e2) (sub_id s0) = Some s" "\<not> sub_dropped s" "backlog \<noteq> []"
    using 1 2 by (auto split: option.splits)
  from fake_stream_complete [OF 1 2 3(1,2)] 1 2 3 show ?thesis by (auto simp del: bus_run.simps)
qed

subsection \<open>Executions that the documentation does not expect\<close>

text \<open>
  A Lease that has expired and that no tick has swept is renewed by a heartbeat, although the
  comment of \<open>leaseServer.Heartbeat\<close> says that it is NOT_FOUND once the Lease has expired.
\<close>

lemma heartbeat_renews_expired:
  "map_option lr_ExpiresAt (lease_of (demo_fake demo_claim) ''l'') = Some 14 \<and>
   fst (heartbeat 100 ''l'' (demo_fake demo_claim)) = Inr 110"
  by code_simp

text \<open>
  A Pool is deleted by force while a claim runs its pre-lease hooks, and created again before
  they end. The claim then leases the MicroVM that the deletion of the Pool has marked
  DELETING and whose deletion is still due; once the Host has deleted it, the Lease of the
  answered claim is gone, long before its expiry.
\<close>

definition recreated_moves :: "move list" where
  "recreated_moves = [Do 3 (CallClaimVM demo_ref ''r''), Do 3 (CallDeletePool demo_ref True), Do 3 (CallCreatePool demo_spec)]"

lemma claim_of_deleting_vm:
  "map_option vm_phase (vm_of (demo_fake recreated_moves) 1) = Some DELETING \<and>
   map_option vm_phase (vm_of (demo_fake (recreated_moves @ [Go 4 0 (fine ''l'')])) 1) = Some LEASED \<and>
   map_option lr_ExpiresAt (lease_of (demo_fake (recreated_moves @ [Go 4 0 (fine ''l'')])) ''l'') = Some 14 \<and>
   DelStart 1 None \<in> set (fk_tasks (demo_fake (recreated_moves @ [Go 4 0 (fine ''l'')]))) \<and>
   lease_of (demo_fake (recreated_moves @ [Go 4 0 (fine ''l''), Go 5 0 (fine []), Go 5 1 (fine [])])) ''l'' = None"
  by code_simp

text \<open>
  A tick while a claim runs its hooks counts the claimed MicroVM as leased and provisions
  another one, and the end of the claim one more: an IMMEDIATE_ON_LEASE Pool of size 1 then
  has two MicroVMs provisioning. BA-075 of \<open>docs/requirements/10-battery.md\<close> counts the MicroVMs
  being claimed, and BA-076 has the claim provision only the shortfall.
\<close>

lemma tick_during_claim_overfills:
  "let b = demo_fake [Do 3 (CallClaimVM demo_ref ''r''), Do 3 (CallTick [] [demo_ref]), Go 4 0 (fine ''l'')]
   in ps_Size (pl_spec (pool_at b 0)) = 1 \<and> rs_Type (ps_Replenishment (pl_spec (pool_at b 0))) = IMMEDIATE_ON_LEASE \<and>
      c_provisioning (countsLocked demo_ref b) = 2"
  by code_simp

end
