(* ===== verification/FakeTrack.thy ===== *)
theory FakeTrack
  imports FakePlay
begin

section \<open>A Lease stays with its MicroVM\<close>

text \<open>
  Over any execution in which a Lease id is not drawn twice, a Lease that has ended does not
  come back, and one that is still held is of the same MicroVM as before, for the same request.
\<close>

subsection \<open>The index by uid\<close>

text \<open>A uid that a step finds in the index is kept by the step for the MicroVM that had it.\<close>

lemma index_simps [simp]:
  "fk_vmByUID (applyHookFailurePolicy now i hook cause b) = fk_vmByUID b"
  "fk_vmByUID (fold dropLeaseLocked ls b) = fk_vmByUID b"
  "fk_vmByUID (snd (consumeHookFailure k kind b)) = fk_vmByUID b"
  "fk_vmByUID (snd (claimVM_begin now ref rid b)) = fk_vmByUID b"
  subgoal by (simp add: applyHookFailurePolicy_def Let_def split: option.split)
  subgoal by (induction ls arbitrary: b) simp_all
  subgoal by (rule core_eqD(2)) simp
  subgoal by (simp add: claimVM_begin_def consumeHookFailure_def applyHookFailurePolicy_def Let_def
        split: option.split sum.split prod.split bool.split)
  done

lemma index_tick [simp]: "fk_vmByUID (tick ls ks now b) = fk_vmByUID b"
proof -
  have "fk_vmByUID (fst (fold (tick_lease now) ls st)) = fk_vmByUID (fst st)" for st
    by (induction ls arbitrary: st) (simp_all add: tick_lease_def Let_def split: option.split prod.split)
  moreover have "fk_vmByUID (fold (tick_pool now) ks c) = fk_vmByUID c" for c
    by (induction ks arbitrary: c) (simp_all add: tick_pool_def Let_def split: option.split)
  ultimately show ?thesis by (simp add: tick_def Let_def split_beta)
qed

lemma index_drain: "fk_vmByUID (fold (drain_vm now key) vms b) = fk_vmByUID b"
  by (induction vms arbitrary: b) (simp_all add: drain_vm_def Let_def)

lemma index_call: "fk_vmByUID (call_step now c b) = fk_vmByUID b"
proof (cases c)
  case (CallDeletePool ref force)
  then show ?thesis by (simp add: deletePool_def Let_def index_drain split: sum.split)
next
  case (CallReleaseVM l)
  then show ?thesis by (simp add: releaseVM_start_def releaseVM_begin_def split: option.split)
qed (auto simp: createPool_def updatePool_def heartbeat_def SetFaults_def Run_begin_def cancel_run_def stop_begin_def
      cleanup_begin_def cleanup_end_def addHost_def updateHost_def removeHost_def setCordoned_def Let_def
      split: sum.splits option.splits prod.splits if_splits)

lemma index_deleteVM_end:
  "fk_vmByUID (deleteVM_end now i c b) u = Some j \<Longrightarrow> fk_vmByUID b u = Some j"
  by (auto simp: deleteVM_end_def finishDeletionLocked_def Let_def split: option.splits if_splits)

lemma index_provision [simp]:
  "fk_vmByUID (provision_start ctx v b) = fk_vmByUID b" "fk_vmByUID (provision_waited now ctx v cmds f b) = fk_vmByUID b"
  "fk_vmByUID (provision_hooked now ctx v cmds s b) = fk_vmByUID b"
  by (auto simp: provision_start_def provision_waited_def provision_hooked_def dropReserved_def consumeHookFailure_def
      split: prod.split option.split bool.split)

lemma index_created:
  "fk_vmByUID (provision_created now ctx v cmds cr b) =
     (case cr of
        None \<Rightarrow> fk_vmByUID b
      | Some u \<Rightarrow> if u \<noteq> [] \<and> aliveLocked (fst v) b then (fk_vmByUID b)(u \<mapsto> fst v) else fk_vmByUID b)"
  by (auto simp: provision_created_def dropReserved_def Let_def split: prod.split option.split)

lemma index_claim_end [simp]: "fk_vmByUID (snd (claimVM_end now tok rid p v cmds s b)) = fk_vmByUID b"
  by (simp add: claimVM_end_def Let_def split: prod.split option.split)

lemma index_deleteVM_begin [simp]: "fk_vmByUID (snd (deleteVM_begin now i e b)) = fk_vmByUID b"
  by (simp add: deleteVM_begin_def Let_def split: option.split)

lemma index_task:
  assumes "outcome_ok r t b" "fk_vmByUID (task_step now r t (end_task t b)) u = Some j"
  shows "fk_vmByUID b u = Some j \<or> fk_vmByUID b u = None"
proof (cases t)
  case (ProvCreate ctx v cmds)
  then show ?thesis using assms by (auto simp: index_created split: option.splits if_splits)
next
  case (DelStart i e)
  obtain d b1 where "deleteVM_begin now i e (end_task t b) = (d, b1)" by (cases "deleteVM_begin now i e (end_task t b)")
  then show ?thesis
    using assms(2) DelStart index_deleteVM_begin [of now i e "end_task t b"] by (simp split: deletion.splits)
next
  case (DelHost i h u')
  then show ?thesis using assms(2) index_deleteVM_end [of now i _ "end_task t b" u j] by simp
qed (use assms(2) in simp_all)

subsection \<open>New Lease ids\<close>

text \<open>The ids a step may add: that of the claim which ends with it.\<close>

lemma call_no_new_lease:
  assumes "fake_inv b" "call_ok c b" "lease_of b l = None"
  shows "lease_of (call_step now c b) l = None"
proof (rule ccontr)
  assume "lease_of (call_step now c b) l \<noteq> None"
  then obtain r where r: "lease_of (call_step now c b) l = Some r" by blast
  show False
  proof (cases c)
    case (CallDeletePool ref force)
    obtain err b1 where d: "deletePool now ref force b = (err, b1)" by (cases "deletePool now ref force b")
    then show ?thesis
      using r assms(3) CallDeletePool deletePool_effect(2,4) [OF assms(1) d] by (cases err) auto
  next
    case (CallTick ls ks)
    have "fake_inv (b\<lparr>fk_kicked := False\<rparr>)" using assms(1) by (simp add: fake_inv_def)
    then show ?thesis using tick_effect(2) [of "b\<lparr>fk_kicked := False\<rparr>" ls ks now l] r assms(3) CallTick by simp
  next
    case (CallClaimVM ref rid)
    then show ?thesis using r assms(3) by (simp add: claimVM_begin_leases)
  next
    case (CallReleaseVM l')
    then show ?thesis using r assms by (simp add: releaseVM_start_effect(2))
  next
    case (CallHeartbeat l')
    then show ?thesis
      using r assms(3) by (auto simp: heartbeat_def Let_def split: option.splits if_splits)
  next
    case CallForget
    then show ?thesis using r assms(3) by (auto simp: cleanup_end_def dropLeases_of split: if_splits)
  qed (use r assms(3) in \<open>auto simp: createPool_def updatePool_def SetFaults_def Run_begin_def cancel_run_def stop_begin_def
      cleanup_begin_def addHost_def updateHost_def removeHost_def setCordoned_def Let_def
      split: sum.splits option.splits prod.splits if_splits\<close>)
qed

lemma claim_no_new_lease:
  assumes inv: "fake_inv b" and t: "ClaimHooks rid p v cmds \<in> set (fk_tasks b)"
    and ok: "outcome_ok r (ClaimHooks rid p v cmds) b" and l: "lease_of b l = None" "l \<noteq> out_token r"
  shows "lease_of (task_step now r (ClaimHooks rid p v cmds) (end_task (ClaimHooks rid p v cmds) b)) l = None"
proof -
  obtain i k h where v: "v = (i, k, h)" by (cases v)
  let ?t = "ClaimHooks rid p (i, k, h) cmds"
  obtain ans b' where c: "claimVM_end now (out_token r) rid p (i, k, h) cmds (out_err r) (end_task ?t b) = (ans, b')"
    by (cases "claimVM_end now (out_token r) rid p (i, k, h) cmds (out_err r) (end_task ?t b)")
  note e = claimVM_end_effect [OF inv t [unfolded v] ok [unfolded v] refl c]
  have "lease_of b' l = None"
  proof (cases "grants rid (i, k, h) cmds (out_err r) b")
    case True
    then obtain vm where "vm_of b i = Some vm" by (auto simp: grants_def)
    then show ?thesis using e(3) [OF True] l by simp
  qed (use e(2) l in simp)
  then show ?thesis using c v by simp
qed

lemma task_no_new_lease:
  assumes "fake_inv b" "t \<in> set (fk_tasks b)" "outcome_ok r t b" "lease_of b l = None" "l \<noteq> out_token r"
  shows "lease_of (task_step now r t (end_task t b)) l = None"
proof (cases t)
  case (ClaimHooks rid p v cmds)
  then show ?thesis using claim_no_new_lease assms by simp
next
  case (DelHost i h u)
  have i0: "fake_inv (end_task t b)" by (rule keep_end_task [OF assms(1)])
  show ?thesis
  proof (cases "vm_of b i")
    case None
    then show ?thesis using DelHost assms(4) by (simp add: deleteVM_end_def Let_def finishDeletionLocked_def)
  next
    case (Some v)
    then show ?thesis using DelHost assms(4) deleteVM_end_effect(2) [OF i0, of i v] by simp
  qed
next
  case (DelStart i e)
  then show ?thesis
    using assms(4) deleteVM_begin_effect(2) [of now i e "end_task t b"] by (auto split: prod.split deletion.split)
qed (use assms(4) in \<open>simp_all add: provision_leases\<close>)

subsection \<open>One step\<close>

text \<open>What battery decided when it granted a Lease, which no heartbeat changes.\<close>

definition grant :: "LeaseRecord \<Rightarrow> string \<times> string \<times> PoolRef \<times> string" where
  "grant r = (lr_LeaseID r, lr_VMUID r, lr_Pool r, lr_RequestID r)"

lemma step_lease_same:
  assumes "fake_step now b b'" "fake_inv b" "lease_of b l = Some r" "lease_of b' l = Some r'"
  shows "grant r' = grant r"
  using lease_step [OF assms(1,2), of l] assms(3,4) by (auto simp: lease_change_def renewed_def grant_def)

lemma step_lease_vm:
  assumes st: "fake_step now b b'" and inv: "fake_inv b"
    and l: "lease_of b l = Some r" "fk_vmByUID b (lr_VMUID r) = Some i" "lease_of b' l = Some r'"
  shows "fk_vmByUID b' (lr_VMUID r') = Some i"
proof -
  have same: "lr_VMUID r' = lr_VMUID r" using step_lease_same [OF st inv l(1,3)] by (simp add: grant_def)
  obtain j vm where j: "fk_vmByUID b' (lr_VMUID r') = Some j" using lease_inv [OF keep_step [OF st inv] l(3)] by metis
  from st have "fk_vmByUID b (lr_VMUID r) = Some j \<or> fk_vmByUID b (lr_VMUID r) = None"
    using j by (cases rule: fake_step.cases) (auto simp: same index_call dest: index_task)
  then show ?thesis using l(2) j by simp
qed

end
