(* ===== verification/FakeServer.thy ===== *)
theory FakeServer
  imports FakeTrack
begin

section \<open>The fake battery as a server\<close>

text \<open>
  \<open>internal/fakebattery/server.go\<close>: the handlers of the gRPC services, over the operations of
  \<open>FakeOps\<close>, as the stubs that a \<open>Connection\<close> calls. A call runs concurrently with everything
  else that the fake does. The state therefore carries a plan, which says for each point at
  which a call waits what happens meanwhile, when the call goes on and what a Host then
  answers, or that the caller's deadline passes first; any plan is possible. A call that is
  given up goes on in the fake as the goroutine it is. The state also records, for the
  statements alone, the Leases the fake has ever issued: their ids are random and do not come
  twice.
\<close>

subsection \<open>A call and what happens meanwhile\<close>

record turn =
  tn_now :: time
  tn_moves :: "move list"
  tn_outcome :: "outcome option"

record sys =
  sy_fake :: fake
  sy_history :: "(string \<times> LeaseRecord) list"
  sy_plan :: "turn list"

abbreviation sy_issued :: "sys \<Rightarrow> string \<rightharpoonup> LeaseRecord" where
  "sy_issued w \<equiv> map_of (sy_history w)"

definition settle :: "fake \<Rightarrow> sys \<Rightarrow> sys" where
  "settle b w = w\<lparr>sy_fake := b, sy_history := sy_history w @ filter (\<lambda>(l, r). sy_issued w l = None) (fk_leases b)\<rparr>"

text \<open>Others move, but no one else takes the turn of the task \<open>mine\<close>.\<close>

fun allowed :: "task option \<Rightarrow> move \<Rightarrow> sys \<Rightarrow> bool" where
  "allowed mine (Do now c) w \<longleftrightarrow> True"
| "allowed mine (Go now n r) w \<longleftrightarrow>
     (n < length (fk_tasks (sy_fake w)) \<longrightarrow> Some (fk_tasks (sy_fake w) ! n) \<noteq> mine) \<and> sy_issued w (out_token r) = None"

definition other :: "task option \<Rightarrow> move \<Rightarrow> sys \<Rightarrow> sys" where
  "other mine m w = (if allowed mine m w then settle (make_move m (sy_fake w)) w else w)"

definition others :: "task option \<Rightarrow> move list \<Rightarrow> sys \<Rightarrow> sys" where "others mine = fold (other mine)"

definition next_turn :: "sys \<Rightarrow> turn \<times> sys" where
  "next_turn w = (case sy_plan w of
     [] \<Rightarrow> (\<lparr>tn_now = 0, tn_moves = [], tn_outcome = None\<rparr>, w) | t # ts \<Rightarrow> (t, w\<lparr>sy_plan := ts\<rparr>))"

text \<open>A call arrives; a call in flight as the task \<open>t\<close> goes on, with an outcome, or is given up.\<close>

definition arrive :: "sys \<Rightarrow> time \<times> sys" where
  "arrive w = (case next_turn w of (t, w1) \<Rightarrow> (tn_now t, others None (tn_moves t) w1))"

definition resume :: "task \<Rightarrow> sys \<Rightarrow> (time \<times> outcome) option \<times> sys" where
  "resume t w =
     (case next_turn w of (tn, w1) \<Rightarrow>
        let w2 = others (Some t) (tn_moves tn) w1
        in (case tn_outcome tn of
              None \<Rightarrow> None
            | Some r \<Rightarrow>
                if t \<in> set (fk_tasks (sy_fake w2)) \<and> outcome_ok r t (sy_fake w2) \<and> sy_issued w2 (out_token r) = None
                then Some (tn_now tn, r) else None,
            w2))"

definition lost :: grpc_error where "lost = Status c_DeadlineExceeded ''context deadline exceeded''"

subsection \<open>The handlers\<close>

text \<open>Every call passes \<open>unaryFaultInterceptor\<close> first; \<open>fail\<close> makes an answer of an error.\<close>

definition unaryFaultInterceptor ::
  "(grpc_error \<Rightarrow> 'a) \<Rightarrow> (time \<Rightarrow> sys \<Rightarrow> 'a \<times> sys) \<Rightarrow> sys \<Rightarrow> 'a \<times> sys" where
  "unaryFaultInterceptor fail handler w =
     (case arrive w of (now, w1) \<Rightarrow>
        case unavailable now (sy_fake w1) of
          Some e \<Rightarrow> (fail e, w1)
        | None \<Rightarrow> handler now w1)"

definition claim_response :: "claimResult \<Rightarrow> Claim" where
  "claim_response res =
     \<lparr>cl_LeaseID = cr_leaseID res, cl_VMUID = cr_vmUID res, cl_Host = \<lparr>hr_Name = cr_host res, hr_Address = cr_address res\<rparr>\<rparr>"

text \<open>\<open>claimVM\<close> while its pre-lease hooks run, as the task \<open>t\<close>.\<close>

definition claim_in_flight :: "task \<Rightarrow> sys \<Rightarrow> (grpc_error + claimResult) \<times> sys" where
  "claim_in_flight t w =
     (case resume t w of
        (Some (now, r), w1) \<Rightarrow>
          (case t of
             ClaimHooks rid p v cmds \<Rightarrow>
               (case claimVM_end now (out_token r) rid p v cmds (out_err r) (end_task t (sy_fake w1)) of
                  (ans, b) \<Rightarrow> (ans, settle b w1))
           | _ \<Rightarrow> (Inl lost, w1))
      | (None, w1) \<Rightarrow> (Inl lost, w1))"

definition serve_ClaimVM :: "PoolRef \<Rightarrow> string \<Rightarrow> sys \<Rightarrow> (grpc_error + Claim) \<times> sys" where
  "serve_ClaimVM ref rid =
     unaryFaultInterceptor Inl (\<lambda>now w.
       case claimVM_begin now ref rid (sy_fake w) of
         (Some ans, b) \<Rightarrow> (map_sum id claim_response ans, settle b w)
       | (None, b) \<Rightarrow>
           (case claim_in_flight (last (fk_tasks b)) (settle b w) of
              (ans, w1) \<Rightarrow> (map_sum id claim_response ans, w1)))"

definition serve_Heartbeat :: "string \<Rightarrow> sys \<Rightarrow> (grpc_error + time) \<times> sys" where
  "serve_Heartbeat l =
     unaryFaultInterceptor Inl (\<lambda>now w. case heartbeat now l (sy_fake w) of (ans, b) \<Rightarrow> (ans, settle b w))"

text \<open>\<open>deleteVM\<close> as \<open>releaseVM\<close> waits for it: whether the Host has confirmed the deletion.\<close>

definition pending_cleanup :: grpc_error where
  "pending_cleanup = Status c_Unavailable ''vm cleanup pending, retry later''"

definition await_deletion :: "int \<Rightarrow> string \<Rightarrow> string \<Rightarrow> sys \<Rightarrow> grpc_error option \<times> sys" where
  "await_deletion i h u w =
     (case resume (DelHost i h u) w of
        (None, w1) \<Rightarrow> (Some lost, w1)
      | (Some (now, r), w1) \<Rightarrow>
          (let confirmed = deleteOnHost (fk_hosts (sy_fake w1)) h u (out_deleted r)
           in (if confirmed then None else Some pending_cleanup,
               settle (deleteVM_end now i confirmed (end_task (DelHost i h u) (sy_fake w1))) w1)))"

definition await_release :: "int \<Rightarrow> sys \<Rightarrow> grpc_error option \<times> sys" where
  "await_release i w =
     (case resume (DelStart i (Some VM_DELETED_ON_RELEASE)) w of
        (None, w1) \<Rightarrow> (Some lost, w1)
      | (Some (now, r), w1) \<Rightarrow>
          (case deleteVM_begin now i (Some VM_DELETED_ON_RELEASE)
                  (end_task (DelStart i (Some VM_DELETED_ON_RELEASE)) (sy_fake w1)) of
             (DeletionDone, b) \<Rightarrow> (None, settle b w1)
           | (DeletionInFlight, b) \<Rightarrow> (Some pending_cleanup, settle b w1)
           | (DeletionOnHost h u, b) \<Rightarrow> await_deletion i h u (settle (spawn [DelHost i h u] b) w1)))"

definition serve_ReleaseVM :: "string \<Rightarrow> sys \<Rightarrow> grpc_error option \<times> sys" where
  "serve_ReleaseVM l =
     unaryFaultInterceptor Some (\<lambda>now w.
       case releaseVM_begin now l (sy_fake w) of
         (Inl ans, b) \<Rightarrow> (ans, settle b w)
       | (Inr i, b) \<Rightarrow> await_release i (settle (spawn [DelStart i (Some VM_DELETED_ON_RELEASE)] b) w))"

definition serve_ListLeases :: "PoolRef option \<Rightarrow> sys \<Rightarrow> (grpc_error + LeaseRecord list) \<times> sys" where
  "serve_ListLeases flt = unaryFaultInterceptor Inl (\<lambda>now w. (Inr (listLeases flt (sy_fake w)), w))"

subsection \<open>The handlers of Pools\<close>

text \<open>The package's own conversions; \<open>z\<close> is the first constant of the strategies.\<close>

definition server_specFromProto :: "ReplenishmentStrategyType \<Rightarrow> proto_PoolSpec option \<Rightarrow> grpc_error + PoolSpec" where
  "server_specFromProto z s =
     (case s of
        None \<Rightarrow> Inl (errInvalid ''spec is required'')
      | Some s \<Rightarrow>
          Inr \<lparr>ps_Ref = \<lparr>ref_Name = pp_Name s, ref_Namespace = pp_Namespace s\<rparr>,
               ps_Template = pp_MicrovmTemplate s, ps_Size = pp_Size s,
               ps_FlintlockHosts = pp_FlintlockHosts s,
               ps_Replenishment =
                 (case pp_ReplenishmentStrategy s of
                    None \<Rightarrow> \<lparr>rs_Type = z, rs_MinSize = None\<rparr>
                  | Some rs \<Rightarrow> \<lparr>rs_Type = rs_Type rs, rs_MinSize = rs_MinSize rs\<rparr>),
               ps_CreateCommands = pp_CreateCommands s, ps_PreLeaseCommands = pp_PreLeaseCommands s,
               ps_HookFailurePolicy = pp_HookFailurePolicy s,
               ps_HeartbeatInterval = (case pp_HeartbeatInterval s of None \<Rightarrow> 0 | Some d \<Rightarrow> d),
               ps_HeartbeatExpiryThreshold = (case pp_HeartbeatExpiryThreshold s of None \<Rightarrow> 0 | Some d \<Rightarrow> d)\<rparr>)"

definition server_specToProto :: "PoolSpec \<Rightarrow> proto_PoolSpec" where
  "server_specToProto spec =
     \<lparr>pp_Name = ref_Name (ps_Ref spec), pp_Namespace = ref_Namespace (ps_Ref spec),
      pp_Size = ps_Size spec, pp_FlintlockHosts = ps_FlintlockHosts spec,
      pp_ReplenishmentStrategy =
        Some \<lparr>rs_Type = rs_Type (ps_Replenishment spec), rs_MinSize = rs_MinSize (ps_Replenishment spec)\<rparr>,
      pp_CreateCommands = ps_CreateCommands spec, pp_PreLeaseCommands = ps_PreLeaseCommands spec,
      pp_HookFailurePolicy = ps_HookFailurePolicy spec, pp_MicrovmTemplate = ps_Template spec,
      pp_HeartbeatInterval =
        (if ps_HeartbeatInterval spec > 0 then Some (ps_HeartbeatInterval spec) else None),
      pp_HeartbeatExpiryThreshold =
        (if ps_HeartbeatExpiryThreshold spec > 0 then Some (ps_HeartbeatExpiryThreshold spec) else None)\<rparr>"

definition server_poolToProto :: "Pool \<Rightarrow> proto_PoolSpec \<times> PoolStatus" where
  "server_poolToProto p = (server_specToProto (pool_Spec p), pool_Status p)"

text \<open>Answering with an operation that takes the lock once.\<close>

definition answer_with :: "('a \<Rightarrow> 'b) \<Rightarrow> (grpc_error + 'a) \<times> fake \<Rightarrow> sys \<Rightarrow> (grpc_error + 'b) \<times> sys" where
  "answer_with f r w = (case r of (ans, b) \<Rightarrow> (map_sum id f ans, settle b w))"

definition serve_CreatePool ::
  "ReplenishmentStrategyType \<Rightarrow> proto_PoolSpec \<Rightarrow> sys \<Rightarrow> (grpc_error + proto_PoolSpec \<times> PoolStatus) \<times> sys" where
  "serve_CreatePool z s =
     unaryFaultInterceptor Inl (\<lambda>now w.
       case server_specFromProto z (Some s) of
         Inl e \<Rightarrow> (Inl e, w)
       | Inr spec \<Rightarrow> answer_with server_poolToProto (createPool spec (sy_fake w)) w)"

definition serve_UpdatePool ::
  "ReplenishmentStrategyType \<Rightarrow> proto_PoolSpec \<Rightarrow> sys \<Rightarrow> (grpc_error + proto_PoolSpec \<times> PoolStatus) \<times> sys" where
  "serve_UpdatePool z s =
     unaryFaultInterceptor Inl (\<lambda>now w.
       case server_specFromProto z (Some s) of
         Inl e \<Rightarrow> (Inl e, w)
       | Inr spec \<Rightarrow> answer_with server_poolToProto (updatePool spec (sy_fake w)) w)"

text \<open>The request of \<open>Connection.DeletePool\<close> does not set force.\<close>

definition serve_DeletePool :: "PoolRef \<Rightarrow> sys \<Rightarrow> grpc_error option \<times> sys" where
  "serve_DeletePool ref =
     unaryFaultInterceptor Some (\<lambda>now w. case deletePool now ref False (sy_fake w) of (e, b) \<Rightarrow> (e, settle b w))"

definition serve_GetPool :: "PoolRef \<Rightarrow> sys \<Rightarrow> (grpc_error + proto_PoolSpec \<times> PoolStatus) \<times> sys" where
  "serve_GetPool ref =
     unaryFaultInterceptor Inl (\<lambda>now w. (map_sum id server_poolToProto (getPool ref (sy_fake w)), w))"

definition serve_ListPools :: "string option \<Rightarrow> sys \<Rightarrow> (grpc_error + (proto_PoolSpec \<times> PoolStatus) list) \<times> sys" where
  "serve_ListPools ns =
     unaryFaultInterceptor Inl (\<lambda>now w.
       (Inr (map server_poolToProto (listPools (case ns of None \<Rightarrow> [] | Some n \<Rightarrow> n) (sy_fake w))), w))"

definition fake_stub :: "ReplenishmentStrategyType \<Rightarrow> sys battery_stub" where
  "fake_stub z =
     \<lparr>rpc_CreatePool = serve_CreatePool z, rpc_UpdatePool = serve_UpdatePool z, rpc_DeletePool = serve_DeletePool,
      rpc_GetPool = serve_GetPool, rpc_ListPools = serve_ListPools, rpc_ClaimVM = serve_ClaimVM,
      rpc_Heartbeat = serve_Heartbeat, rpc_ReleaseVM = serve_ReleaseVM, rpc_ListLeases = serve_ListLeases\<rparr>"

end
