(* ===== verification/LeaseService.thy ===== *)
theory LeaseService
  imports ClaimFacts
begin

section \<open>What the Claim Controller relies on from battery\<close>

text \<open>
  The contract of battery's \<open>Lease\<close> service as the Claim Controller uses it, over any world
  that holds a battery: the Leases it has ever issued, and those it holds now. An id that has
  ended does not come back. A claim with a request id is answered with a Lease issued for
  that request, of the Pool that was asked; a release that is answered with success or with
  NotFound leaves the Lease not held. The second locale adds a controller's environment whose
  other calls do not touch battery's history.
\<close>

definition later :: "('w \<Rightarrow> string \<rightharpoonup> LeaseRecord) \<Rightarrow> ('w \<Rightarrow> string set) \<Rightarrow> 'w \<Rightarrow> 'w \<Rightarrow> bool" where
  "later issued holds w w' \<longleftrightarrow> issued w \<subseteq>\<^sub>m issued w' \<and> holds w' \<inter> dom (issued w) \<subseteq> holds w"

lemma later_refl [simp]: "later issued holds w w"
  by (simp add: later_def)

lemma later_trans: "later issued holds w v \<Longrightarrow> later issued holds v u \<Longrightarrow> later issued holds w u"
  unfolding later_def using map_le_implies_dom_le map_le_trans by blast

lemma later_issued: "later issued holds w w' \<Longrightarrow> issued w l = Some r \<Longrightarrow> issued w' l = Some r"
  by (metis domI later_def map_le_def)

lemma later_ended: "later issued holds w w' \<Longrightarrow> l \<in> dom (issued w) \<Longrightarrow> l \<notin> holds w \<Longrightarrow> l \<notin> holds w'"
  by (auto simp: later_def)

text \<open>battery says that the Lease is not there.\<close>

definition says_gone :: "battery_error option \<Rightarrow> bool" where
  "says_gone e \<longleftrightarrow> (case e of None \<Rightarrow> True | Some e \<Rightarrow> errors_Is e ErrNotFound)"

locale lease_service =
  fixes B :: "'w battery_client" and sound :: "'w \<Rightarrow> bool"
    and issued :: "'w \<Rightarrow> string \<rightharpoonup> LeaseRecord" and holds :: "'w \<Rightarrow> string set"
  assumes held_issued: "sound w \<Longrightarrow> holds w \<subseteq> dom (issued w)"
    and one_request: "sound w \<Longrightarrow> l \<in> holds w \<Longrightarrow> l' \<in> holds w \<Longrightarrow> issued w l = Some r \<Longrightarrow> issued w l' = Some r' \<Longrightarrow>
          lr_RequestID r = lr_RequestID r' \<Longrightarrow> lr_RequestID r \<noteq> [] \<Longrightarrow> l = l'"
    and one_vm: "sound w \<Longrightarrow> l \<in> holds w \<Longrightarrow> l' \<in> holds w \<Longrightarrow> issued w l = Some r \<Longrightarrow> issued w l' = Some r' \<Longrightarrow>
          lr_VMUID r = lr_VMUID r' \<Longrightarrow> l = l'"
    and ClaimVM_law: "sound w \<Longrightarrow> ClaimVM B p rid w = (ans, w') \<Longrightarrow>
          sound w' \<and> later issued holds w w' \<and>
          (\<forall>c. ans = Inr c \<longrightarrow> (\<exists>r. issued w' (cl_LeaseID c) = Some r \<and> lr_LeaseID r = cl_LeaseID c \<and>
             lr_VMUID r = cl_VMUID c \<and> lr_Pool r = p \<and> (rid \<noteq> [] \<longrightarrow> lr_RequestID r = rid)))"
    and Heartbeat_law: "sound w \<Longrightarrow> Heartbeat B l w = (ha, w') \<Longrightarrow>
          sound w' \<and> later issued holds w w' \<and> (\<forall>t. ha = Inr t \<longrightarrow> l \<in> holds w')"
    and ReleaseVM_law: "sound w \<Longrightarrow> ReleaseVM B l w = (e, w') \<Longrightarrow>
          sound w' \<and> later issued holds w w' \<and> (says_gone e \<and> l \<in> dom (issued w) \<longrightarrow> l \<notin> holds w')"
    and ListLeases_law: "sound w \<Longrightarrow> ListLeases B flt w = (la, w') \<Longrightarrow>
          sound w' \<and> later issued holds w w' \<and> (\<forall>ls. la = Inr ls \<longrightarrow> (\<forall>r\<in>set ls. lr_LeaseID r \<in> holds w'))"

locale leased_claims = lease_service +
  fixes E :: "'a claim_env"
  assumes Battery_E: "Battery E = B"
    and reader_law: "sound w \<Longrightarrow> sound (snd (APIReader_claim E k w)) \<and> later issued holds w (snd (APIReader_claim E k w))"
    and pool_law: "sound w \<Longrightarrow> sound (snd (APIReader_pool E k w)) \<and> later issued holds w (snd (APIReader_pool E k w))"
    and node_law: "sound w \<Longrightarrow> sound (snd (Client_node E n w)) \<and> later issued holds w (snd (Client_node E n w))"
    and clock_law: "sound w \<Longrightarrow> sound (snd (Clock_Now E w)) \<and> later issued holds w (snd (Clock_Now E w))"
begin

lemma calls_later:
  assumes "calls E w w'" "sound w"
  shows "sound w' \<and> later issued holds w w'"
  using assms
proof (cases rule: calls.cases)
  case (1 p r)
  then show ?thesis using ClaimVM_law [OF assms(2), of p r] Battery_E by (cases "ClaimVM B p r w") simp
next
  case (2 lid)
  then show ?thesis using Heartbeat_law [OF assms(2), of lid] Battery_E by (cases "Heartbeat B lid w") simp
next
  case (3 lid)
  then show ?thesis using ReleaseVM_law [OF assms(2), of lid] Battery_E by (cases "ReleaseVM B lid w") simp
next
  case (4 po)
  then show ?thesis using ListLeases_law [OF assms(2), of po] Battery_E by (cases "ListLeases B po w") simp
qed (use reader_law pool_law node_law clock_law assms(2) in simp_all)

lemma passes_later:
  assumes "passes E w w'" "sound w"
  shows "sound w' \<and> later issued holds w w'"
  using assms(1)
proof (induction rule: rtranclp_induct)
  case (step y z)
  then show ?case using calls_later [OF step(2)] later_trans [of issued holds w y z] by simp
qed (simp add: assms(2))

text \<open>A Lease whose release battery has answered is gone, and stays gone.\<close>

lemma released_gone:
  assumes "released E w w' l" "sound w" "l \<in> dom (issued w)"
  shows "l \<notin> holds w'"
proof -
  obtain e where e: "asked E w w' (ReleaseVM B l) e" "says_gone e"
    using assms(1) by (auto simp: released_def says_gone_def Battery_E)
  from e(1) obtain v where v: "passes E w v" "fst (ReleaseVM B l v) = e" "passes E (snd (ReleaseVM B l v)) w'"
    by (auto simp: asked_def)
  note s = passes_later [OF v(1) assms(2)]
  have lv: "l \<in> dom (issued v)" using s assms(3) later_issued [of issued holds w v l] by auto
  obtain u where u: "ReleaseVM B l v = (e, u)" using v(2) by (cases "ReleaseVM B l v") simp
  note law = ReleaseVM_law [OF conjunct1 [OF s] u]
  have "l \<notin> holds u" "l \<in> dom (issued u)" using law e(2) lv later_issued [of issued holds v u l] by auto
  moreover have "later issued holds u w'" using passes_later [of u w'] v(3) u law by simp
  ultimately show ?thesis by (simp add: later_ended)
qed

text \<open>A claim that gets a Lease gets one issued for it.\<close>

lemma bound_issued:
  assumes "claimed_from E w w' c st" "sound w"
  shows "\<exists>fresh r. asked E w w' (APIReader_claim E (ObjectKeyFromObject (claim_meta c))) (Inr fresh) \<and>
    issued w' (LeaseID st) = Some r \<and> MicroVM st = Some (lr_VMUID r) \<and>
    lr_Pool r = \<lparr>ref_Name = PoolRefName (claim_spec c), ref_Namespace = om_Namespace (claim_meta c)\<rparr> \<and>
    (om_UID (claim_meta fresh) \<noteq> [] \<longrightarrow> lr_RequestID r = om_UID (claim_meta fresh))"
proof -
  let ?p = "\<lparr>ref_Name = PoolRefName (claim_spec c), ref_Namespace = om_Namespace (claim_meta c)\<rparr>"
  from assms(1) obtain u fresh cl where
    u: "asked E w u (APIReader_claim E (ObjectKeyFromObject (claim_meta c))) (Inr fresh)"
      "asked E u w' (ClaimVM B ?p (om_UID (claim_meta fresh))) (Inr cl)"
      "LeaseID st = cl_LeaseID cl" "MicroVM st = Some (cl_VMUID cl)"
    unfolding claimed_from_def Battery_E by blast
  from u(2) obtain v where v: "passes E u v" "fst (ClaimVM B ?p (om_UID (claim_meta fresh)) v) = Inr cl"
    "passes E (snd (ClaimVM B ?p (om_UID (claim_meta fresh)) v)) w'"
    by (auto simp: asked_def)
  obtain x where x: "ClaimVM B ?p (om_UID (claim_meta fresh)) v = (Inr cl, x)" using v(2)
    by (cases "ClaimVM B ?p (om_UID (claim_meta fresh)) v") simp
  have wu: "passes E w u" using u(1) unfolding asked_def by (auto intro: rtranclp_trans [OF passes_snd(5)])
  have sv: "sound v" using passes_later [OF rtranclp_trans [OF wu v(1)] assms(2)] by simp
  note law = ClaimVM_law [OF sv x]
  from law obtain r where r: "issued x (cl_LeaseID cl) = Some r" "lr_VMUID r = cl_VMUID cl" "lr_Pool r = ?p"
    "om_UID (claim_meta fresh) \<noteq> [] \<longrightarrow> lr_RequestID r = om_UID (claim_meta fresh)" by blast
  have xw: "passes E x w'" using v(3) x by simp
  have "issued w' (cl_LeaseID cl) = Some r"
    using passes_later [OF xw] law r(1) later_issued [of issued holds x w'] by simp
  moreover have "calls E v x" using calls.intros(1) [of E v ?p "om_UID (claim_meta fresh)"] x by (simp add: Battery_E)
  then have "passes E u w'" using v(1) xw by (meson converse_rtranclp_into_rtranclp rtranclp_trans)
  then have "asked E w w' (APIReader_claim E (ObjectKeyFromObject (claim_meta c))) (Inr fresh)"
    by (rule asked_mono [OF u(1) rtranclp.rtrancl_refl])
  ultimately show ?thesis using u(3,4) r(2-4) by auto
qed

end

end
