(* ===== verification/FakeContract.thy ===== *)
theory FakeContract
  imports FakeServer LeaseService
begin

section \<open>The fake battery keeps the contract\<close>

text \<open>
  The contract of \<open>LeaseService\<close>, proved of the client over the fake's server under every plan:
  whatever else the fake does while a call is in flight, and however the Hosts answer.
\<close>

subsection \<open>The state between calls\<close>

definition sys_holds :: "sys \<Rightarrow> string set" where "sys_holds w = dom (lease_of (sy_fake w))"

definition sys_sound :: "sys \<Rightarrow> bool" where
  "sys_sound w \<longleftrightarrow> fake_reachable (sy_fake w) \<and>
     (\<forall>l r. lease_of (sy_fake w) l = Some r \<longrightarrow> (\<exists>r0. sy_issued w l = Some r0 \<and> grant r0 = grant r))"

text \<open>
  From \<open>w\<close> to \<open>w'\<close> the history grows, no Lease comes back, and one that is held in both is of
  the same MicroVM.
\<close>

definition goes :: "sys \<Rightarrow> sys \<Rightarrow> bool" where
  "goes w w' \<longleftrightarrow> sys_sound w' \<and> later sy_issued sys_holds w w' \<and>
     (\<forall>l r r' i. lease_of (sy_fake w) l = Some r \<longrightarrow> fk_vmByUID (sy_fake w) (lr_VMUID r) = Some i \<longrightarrow>
        lease_of (sy_fake w') l = Some r' \<longrightarrow> fk_vmByUID (sy_fake w') (lr_VMUID r') = Some i)"

lemma goes_refl: "sys_sound w \<Longrightarrow> goes w w"
  by (auto simp: goes_def)

lemma goesD: "goes w w' \<Longrightarrow> sys_sound w'" "goes w w' \<Longrightarrow> later sy_issued sys_holds w w'"
  by (simp_all add: goes_def)

lemma sound_inv: "sys_sound w \<Longrightarrow> fake_inv (sy_fake w)"
  by (simp add: sys_sound_def reachable_inv)

lemma sound_issued: "sys_sound w \<Longrightarrow> lease_of (sy_fake w) l = Some r \<Longrightarrow> \<exists>r0. sy_issued w l = Some r0 \<and> grant r0 = grant r"
  by (simp add: sys_sound_def)

lemma goes_trans:
  assumes "goes w v" "goes v u" "sys_sound w"
  shows "goes w u"
proof -
  have "fk_vmByUID (sy_fake u) (lr_VMUID r') = Some i"
    if l: "lease_of (sy_fake w) l = Some r" "fk_vmByUID (sy_fake w) (lr_VMUID r) = Some i" "lease_of (sy_fake u) l = Some r'"
    for l r r' i
  proof -
    have "l \<in> dom (sy_issued w)" using sound_issued [OF assms(3) l(1)] by auto
    then have "l \<in> dom (sy_issued v)" using goesD(2) [OF assms(1)] by (meson later_def map_le_implies_dom_le subsetD)
    then have "l \<in> sys_holds v" using goesD(2) [OF assms(2)] l(3) by (auto simp: later_def sys_holds_def)
    then obtain q where "lease_of (sy_fake v) l = Some q" by (auto simp: sys_holds_def)
    then show ?thesis using assms(1,2) l unfolding goes_def by blast
  qed
  then show ?thesis
    using assms later_trans [OF goesD(2) [OF assms(1)] goesD(2) [OF assms(2)]] by (simp add: goes_def)
qed

lemma settle_simps [simp]: "sy_fake (settle b w) = b" "sy_plan (settle b w) = sy_plan w"
  by (simp_all add: settle_def)

lemma issued_settle: "sy_issued (settle b w) l = (case sy_issued w l of Some r \<Rightarrow> Some r | None \<Rightarrow> lease_of b l)"
proof -
  have "map_of (filter (\<lambda>(l, r). sy_issued w l = None) xs) l = (if sy_issued w l = None then map_of xs l else None)" for xs
    by (induction xs) auto
  then show ?thesis by (auto simp: settle_def map_add_def split: option.split)
qed

text \<open>A step that draws no id twice.\<close>

lemma goes_settle:
  assumes st: "fake_step now (sy_fake w) b" and s: "sys_sound w"
    and new: "\<And>l. l \<in> dom (sy_issued w) \<Longrightarrow> lease_of (sy_fake w) l = None \<Longrightarrow> lease_of b l = None"
  shows "goes w (settle b w)"
proof -
  note inv = sound_inv [OF s]
  have r: "fake_reachable b" using runs_reachable [OF runs_step [OF st]] s by (simp add: sys_sound_def)
  have "\<exists>r0. sy_issued (settle b w) l = Some r0 \<and> grant r0 = grant r" if "lease_of b l = Some r" for l r
  proof (cases "sy_issued w l")
    case (Some r0)
    then have "lease_of (sy_fake w) l \<noteq> None" using new [of l] that by auto
    then obtain q where q: "lease_of (sy_fake w) l = Some q" by blast
    then show ?thesis
      using sound_issued [OF s q] step_lease_same [OF st inv q that] Some by (simp add: issued_settle)
  qed (simp add: issued_settle that)
  moreover have "later sy_issued sys_holds w (settle b w)"
    using new by (force simp: later_def map_le_def issued_settle sys_holds_def)
  ultimately show ?thesis using r step_lease_vm [OF st inv] by (simp add: goes_def sys_sound_def)
qed

lemma goes_plan: "sys_sound w \<Longrightarrow> goes w (w\<lparr>sy_plan := ts\<rparr>)"
  by (auto simp: goes_def later_def sys_sound_def sys_holds_def)

lemma goes_same: "sys_sound w \<Longrightarrow> goes w (settle (sy_fake w) w)"
  using sound_issued by (fastforce simp: goes_def later_def map_le_def issued_settle sys_holds_def sys_sound_def split: option.split)

lemma goes_call:
  assumes "sys_sound w" "call_ok c (sy_fake w)"
  shows "goes w (settle (call_step now c (sy_fake w)) w)"
  by (rule goes_settle [OF fake_step.call [OF assms(2)] assms(1)])
    (simp add: call_no_new_lease [OF sound_inv [OF assms(1)] assms(2)])

lemma goes_task:
  assumes "sys_sound w" "t \<in> set (fk_tasks (sy_fake w))" "outcome_ok r t (sy_fake w)" "sy_issued w (out_token r) = None"
  shows "goes w (settle (task_step now r t (end_task t (sy_fake w))) w)"
proof (rule goes_settle [OF fake_step.goroutine [OF assms(2,3)] assms(1)])
  fix l
  assume "l \<in> dom (sy_issued w)" "lease_of (sy_fake w) l = None"
  then show "lease_of (task_step now r t (end_task t (sy_fake w))) l = None"
    using task_no_new_lease [OF sound_inv [OF assms(1)] assms(2,3), of l now] assms(4) by fastforce
qed

lemma goes_other: "sys_sound w \<Longrightarrow> goes w (other mine m w)"
proof (cases m)
  case (Do now c)
  assume "sys_sound w"
  then show ?thesis using Do goes_call goes_same by (simp add: other_def)
next
  case (Go now n r)
  assume "sys_sound w"
  then show ?thesis using Go goes_task goes_same goes_refl by (simp add: other_def)
qed

lemma goes_others: "sys_sound w \<Longrightarrow> goes w (others mine ms w)"
proof (induction ms arbitrary: w)
  case (Cons m ms)
  have "goes w (other mine m w)" by (rule goes_other [OF Cons.prems])
  then show ?case using Cons goes_trans goesD(1) by (auto simp: others_def)
qed (simp add: others_def goes_refl)

lemma next_turn_goes: "sys_sound w \<Longrightarrow> next_turn w = (t, w1) \<Longrightarrow> goes w w1"
  by (auto simp: next_turn_def goes_refl goes_plan split: list.splits)

lemma arrive_goes: "sys_sound w \<Longrightarrow> arrive w = (now, w1) \<Longrightarrow> goes w w1"
proof -
  assume s: "sys_sound w" and a: "arrive w = (now, w1)"
  obtain t w0 where n: "next_turn w = (t, w0)" by (cases "next_turn w")
  note g = next_turn_goes [OF s n]
  show ?thesis using a n goes_trans [OF g goes_others [OF goesD(1) [OF g]] s] by (auto simp: arrive_def)
qed

lemma resume_goes:
  assumes "sys_sound w" "resume t w = (o', w1)"
  shows "goes w w1" "o' = Some (now, r) \<Longrightarrow>
    t \<in> set (fk_tasks (sy_fake w1)) \<and> outcome_ok r t (sy_fake w1) \<and> sy_issued w1 (out_token r) = None"
proof -
  obtain tn w0 where n: "next_turn w = (tn, w0)" by (cases "next_turn w")
  have w1: "w1 = others (Some t) (tn_moves tn) w0" using assms(2) n by (simp add: resume_def Let_def)
  show "goes w w1"
    unfolding w1 using next_turn_goes [OF assms(1) n] goes_others goesD(1) goes_trans assms(1) by blast
  show "o' = Some (now, r) \<Longrightarrow>
    t \<in> set (fk_tasks (sy_fake w1)) \<and> outcome_ok r t (sy_fake w1) \<and> sy_issued w1 (out_token r) = None"
    using assms(2) n w1 by (auto simp: resume_def Let_def split: option.splits if_splits)
qed

subsection \<open>The handlers\<close>

lemma interceptor_law:
  assumes h: "\<And>now w a w'. sys_sound w \<Longrightarrow> h now w = (a, w') \<Longrightarrow> goes w w' \<and> Q w a w'"
    and unav: "\<And>m w w'. Q w (fail (Status c_Unavailable m)) w'"
    and prior: "\<And>w v a w'. sys_sound w \<Longrightarrow> goes w v \<Longrightarrow> Q v a w' \<Longrightarrow> Q w a w'"
    and s: "sys_sound w" and f: "unaryFaultInterceptor fail h w = (a, w')"
  shows "goes w w' \<and> Q w a w'"
proof -
  obtain now w1 where w1: "arrive w = (now, w1)" by (cases "arrive w")
  note g = arrive_goes [OF s w1]
  show ?thesis
  proof (cases "unavailable now (sy_fake w1)")
    case None
    then have "h now w1 = (a, w')" using f w1 by (simp add: unaryFaultInterceptor_def)
    from h [OF goesD(1) [OF g] this] show ?thesis using prior [OF s g] goes_trans [OF g _ s] by blast
  next
    case (Some e)
    then show ?thesis
      using f w1 g unav by (auto simp: unaryFaultInterceptor_def unavailable_def split: if_splits)
  qed
qed

text \<open>The answer to a claim is a Lease that the fake holds, for that Pool and request.\<close>

definition right_claim :: "fake \<Rightarrow> PoolRef \<Rightarrow> string \<Rightarrow> claimResult \<Rightarrow> bool" where
  "right_claim b p rid res \<longleftrightarrow>
     (\<exists>r. lease_of b (cr_leaseID res) = Some r \<and> lr_LeaseID r = cr_leaseID res \<and> lr_VMUID r = cr_vmUID res \<and>
        lr_Pool r = p \<and> (rid \<noteq> [] \<longrightarrow> lr_RequestID r = rid))"

lemma claim_answer_Inr:
  assumes "claim_answer b a = Inr res"
  obtains res' where "a = Inr res'" "cr_leaseID res = cr_leaseID res'" "cr_vmUID res = cr_vmUID res'"
  using assms by (cases a) (auto simp: claim_answer_def withInterfaces_def split: option.splits)

lemma replay_right:
  assumes inv: "fake_inv b" and r: "leaseByRequestIDLocked rid b = Some r"
    and same: "fk_leases b1 = fk_leases b" "fk_vmByUID b1 = fk_vmByUID b"
      "\<And>i vm'. vm_of b1 i = Some vm' \<Longrightarrow> \<exists>vm. vm_of b i = Some vm \<and> vm_uid vm' = vm_uid vm"
    and ans: "claim_answer b2 (replayLocked r key b1) = Inr res"
  shows "right_claim b1 key rid res"
proof -
  obtain res' where res': "replayLocked r key b1 = Inr res'" "cr_leaseID res = cr_leaseID res'" "cr_vmUID res = cr_vmUID res'"
    using claim_answer_Inr [OF ans] by blast
  then obtain vm' where v: "vmByUID b1 (lr_VMUID r) = Some vm'" "cr_leaseID res = lr_LeaseID r" "cr_vmUID res = vm_uid vm'" "lr_Pool r = key"
    by (auto simp: replayLocked_def Let_def split: if_splits option.splits)
  note l = leaseByRequestID_Some [OF inv r]
  from v(1) obtain i where i: "fk_vmByUID b1 (lr_VMUID r) = Some i" "vm_of b1 i = Some vm'"
    by (auto simp: vmByUID_def bind_eq_Some_conv)
  then obtain vm where "vm_of b i = Some vm" "vm_uid vm' = vm_uid vm" using same(3) by blast
  then have "vm_uid vm' = lr_VMUID r" using linvD(2) [OF fake_invD(1) [OF inv]] i(1) same(2) by fastforce
  then show ?thesis using l v same(1) by (auto simp: right_claim_def)
qed

lemma claim_begin_right:
  assumes inv: "fake_inv b" and c: "claimVM_begin now ref rid b = (Some (Inr res), b')"
  shows "right_claim b' ref rid res"
proof -
  have b': "b' = b" and r: "\<exists>r. leaseByRequestIDLocked rid b = Some r \<and> claim_answer b (replayLocked r ref b) = Inr res"
    using c by (auto simp: claimVM_begin_def split: if_splits sum.splits option.splits prod.splits bool.splits)
  then show ?thesis using replay_right [OF inv, of rid _ b b ref res] by auto
qed

lemma claim_begin_task:
  assumes "claimVM_begin now ref rid b = (None, b')"
  obtains p i h cmds where "last (fk_tasks b') = ClaimHooks rid p (i, ref, h) cmds"
  using assms by (auto simp: claimVM_begin_def split: if_splits sum.splits option.splits prod.splits bool.splits)

lemma claim_end_right:
  assumes inv: "fake_inv b" and t: "ClaimHooks rid p (i, k, h) cmds \<in> set (fk_tasks b)"
    and ok: "outcome_ok r (ClaimHooks rid p (i, k, h) cmds) b"
    and c: "claimVM_end now (out_token r) rid p (i, k, h) cmds (out_err r) (end_task (ClaimHooks rid p (i, k, h) cmds) b) = (Inr res, b')"
  shows "right_claim b' k rid res"
proof (cases "grants rid (i, k, h) cmds (out_err r) b")
  case True
  then obtain vm where vm: "vm_of b i = Some vm" by (auto simp: grants_def)
  show ?thesis
    using claimVM_end_effect(3) [OF inv t ok refl c True vm] by (auto simp: right_claim_def new_lease_def)
next
  case False
  let ?b0 = "end_task (ClaimHooks rid p (i, k, h) cmds) b"
  have i0: "fake_inv ?b0" by (rule keep_end_task [OF inv])
  let ?hooks = "runHooks_result (fk_hosts ?b0) h cmds (out_err r)"
  have hooks: "?hooks = None"
  proof (cases ?hooks)
    case (Some cause)
    then show ?thesis using c unfolding claimVM_end_def by simp
  qed
  have alive: "vm_of ?b0 i \<noteq> None \<and> pool_of ?b0 k \<noteq> None"
  proof (rule ccontr)
    assume "\<not> ?thesis"
    then show False using c hooks unfolding claimVM_end_def by (auto split: option.splits)
  qed
  then obtain vm a where a: "vm_of ?b0 i = Some vm" "pool_of ?b0 k = Some a" by blast
  have "grants rid (i, k, h) cmds (out_err r) b \<longleftrightarrow> (rid \<noteq> [] \<longrightarrow> leaseByRequestIDLocked rid ?b0 = None)"
    using hooks a by (simp add: grants_def leaseByRequestIDLocked_def)
  then obtain q where q: "rid \<noteq> []" "leaseByRequestIDLocked rid ?b0 = Some q"
    using False by (cases "leaseByRequestIDLocked rid ?b0") auto
  let ?b1 = "setPhaseLocked now i AVAILABLE (upd_vm i (\<lambda>vm. vm\<lparr>vm_leaseID := []\<rparr>) ?b0)"
  have e: "claim_answer ?b1 (replayLocked q k ?b1) = Inr res" "b' = ?b1"
    using c hooks a q unfolding claimVM_end_def by (auto simp: Let_def)
  show ?thesis
    unfolding e(2) by (rule replay_right [OF i0 q(2) _ _ _ e(1)]) (auto split: if_splits)
qed

lemma right_claim_issued:
  assumes "sys_sound w" "right_claim (sy_fake w) p rid res" "c = claim_response res"
  shows "\<exists>r. sy_issued w (cl_LeaseID c) = Some r \<and> lr_LeaseID r = cl_LeaseID c \<and> lr_VMUID r = cl_VMUID c \<and> lr_Pool r = p \<and>
    (rid \<noteq> [] \<longrightarrow> lr_RequestID r = rid)"
proof -
  obtain r where r: "lease_of (sy_fake w) (cr_leaseID res) = Some r" "lr_LeaseID r = cr_leaseID res" "lr_VMUID r = cr_vmUID res"
    "lr_Pool r = p" "rid \<noteq> [] \<longrightarrow> lr_RequestID r = rid"
    using assms(2) by (auto simp: right_claim_def)
  from sound_issued [OF assms(1) r(1)] show ?thesis using r(2-5) assms(3) by (auto simp: grant_def claim_response_def)
qed

definition claim_right :: "PoolRef \<Rightarrow> string \<Rightarrow> grpc_error + Claim \<Rightarrow> sys \<Rightarrow> bool" where
  "claim_right p rid a w \<longleftrightarrow>
     (\<forall>c. a = Inr c \<longrightarrow> (\<exists>r. sy_issued w (cl_LeaseID c) = Some r \<and> lr_LeaseID r = cl_LeaseID c \<and>
        lr_VMUID r = cl_VMUID c \<and> lr_Pool r = p \<and> (rid \<noteq> [] \<longrightarrow> lr_RequestID r = rid)))"

lemma claim_in_flight_law:
  assumes s: "sys_sound w" and f: "claim_in_flight (ClaimHooks rid p (i, k, h) cmds) w = (a, w')"
  shows "goes w w' \<and> claim_right k rid (map_sum id claim_response a) w'"
proof -
  let ?t = "ClaimHooks rid p (i, k, h) cmds"
  obtain o' w1 where r: "resume ?t w = (o', w1)" by (cases "resume ?t w")
  note g = resume_goes(1) [OF s r]
  show ?thesis
  proof (cases o')
    case None
    then show ?thesis using f r g by (auto simp: claim_in_flight_def claim_right_def lost_def)
  next
    case (Some x)
    obtain now q where x: "x = (now, q)" by (cases x)
    have ok: "?t \<in> set (fk_tasks (sy_fake w1))" "outcome_ok q ?t (sy_fake w1)" "sy_issued w1 (out_token q) = None"
      using resume_goes(2) [OF s r] Some x by auto
    obtain ans b where c: "claimVM_end now (out_token q) rid p (i, k, h) cmds (out_err q) (end_task ?t (sy_fake w1)) = (ans, b)"
      by (cases "claimVM_end now (out_token q) rid p (i, k, h) cmds (out_err q) (end_task ?t (sy_fake w1))")
    have e: "a = ans" "w' = settle b w1" using f r Some x c by (simp_all add: claim_in_flight_def)
    have g1: "goes w1 w'" unfolding e(2) using goes_task [OF goesD(1) [OF g] ok, of now] c by simp
    have "claim_right k rid (map_sum id claim_response ans) w'"
    proof (cases ans)
      case (Inr res)
      have "right_claim b k rid res"
        by (rule claim_end_right [OF sound_inv [OF goesD(1) [OF g]] ok(1,2)]) (use c Inr in simp)
      then show ?thesis using right_claim_issued [OF goesD(1) [OF g1], of k rid res] e(2) Inr by (simp add: claim_right_def)
    qed (simp add: claim_right_def)
    then show ?thesis using goes_trans [OF g g1 s] e(1) by simp
  qed
qed

lemma serve_ClaimVM_law:
  assumes "sys_sound w" "serve_ClaimVM ref rid w = (a, w')"
  shows "goes w w' \<and> claim_right ref rid a w'"
proof (rule interceptor_law [OF _ _ _ assms(1) assms(2) [unfolded serve_ClaimVM_def], where Q = "\<lambda>w a w'. claim_right ref rid a w'"])
  fix now w a w'
  assume s: "sys_sound w" and h: "(case claimVM_begin now ref rid (sy_fake w) of
         (Some ans, b) \<Rightarrow> (map_sum id claim_response ans, settle b w)
       | (None, b) \<Rightarrow>
           (case claim_in_flight (last (fk_tasks b)) (settle b w) of
              (ans, w1) \<Rightarrow> (map_sum id claim_response ans, w1))) = (a, w')"
  obtain ao b where c: "claimVM_begin now ref rid (sy_fake w) = (ao, b)" by (cases "claimVM_begin now ref rid (sy_fake w)")
  have g: "goes w (settle b w)" using goes_call [OF s, of "CallClaimVM ref rid" now] c by simp
  show "goes w w' \<and> claim_right ref rid a w'"
  proof (cases ao)
    case (Some ans)
    have e: "a = map_sum id claim_response ans" "w' = settle b w" using h c Some by simp_all
    show ?thesis
    proof (cases ans)
      case (Inr res)
      have "right_claim b ref rid res" by (rule claim_begin_right [OF sound_inv [OF s]]) (use c Some Inr in simp)
      then show ?thesis using right_claim_issued [OF goesD(1) [OF g], of ref rid res] e g Inr by (simp add: claim_right_def)
    qed (use g e in \<open>simp add: claim_right_def\<close>)
  next
    case None
    obtain p i hh cmds where t: "last (fk_tasks b) = ClaimHooks rid p (i, ref, hh) cmds"
      using claim_begin_task c None by blast
    obtain ans w1 where f: "claim_in_flight (last (fk_tasks b)) (settle b w) = (ans, w1)"
      by (cases "claim_in_flight (last (fk_tasks b)) (settle b w)")
    have e: "a = map_sum id claim_response ans" "w' = w1" using h c None f by simp_all
    show ?thesis
      using claim_in_flight_law [OF goesD(1) [OF g] f [unfolded t]] goes_trans [OF g _ s] e by simp
  qed
qed (simp_all add: claim_right_def)

lemma serve_Heartbeat_law:
  assumes "sys_sound w" "serve_Heartbeat l w = (a, w')"
  shows "goes w w' \<and> (\<forall>t. a = Inr t \<longrightarrow> l \<in> sys_holds w')"
proof (rule interceptor_law [OF _ _ _ assms(1) assms(2) [unfolded serve_Heartbeat_def], where Q = "\<lambda>w a w'. \<forall>t. a = Inr t \<longrightarrow> l \<in> sys_holds w'"])
  fix now w a w'
  assume s: "sys_sound w" and h: "(case heartbeat now l (sy_fake w) of (ans, b) \<Rightarrow> (ans, settle b w)) = (a, w')"
  obtain ans b where c: "heartbeat now l (sy_fake w) = (ans, b)" by (cases "heartbeat now l (sy_fake w)")
  have "goes w (settle b w)" using goes_call [OF s, of "CallHeartbeat l" now] c by simp
  moreover have "l \<in> dom (lease_of b)" if "ans = Inr t" for t
    using c that by (auto simp: heartbeat_def Let_def split: if_splits option.splits)
  ultimately show "goes w w' \<and> (\<forall>t. a = Inr t \<longrightarrow> l \<in> sys_holds w')" using h c by (auto simp: sys_holds_def)
qed simp_all

lemma serve_ListLeases_law:
  assumes "sys_sound w" "serve_ListLeases flt w = (a, w')"
  shows "goes w w' \<and> (\<forall>ls. a = Inr ls \<longrightarrow> (\<forall>r\<in>set ls. lr_LeaseID r \<in> sys_holds w'))"
proof (rule interceptor_law [OF _ _ _ assms(1) assms(2) [unfolded serve_ListLeases_def], where Q = "\<lambda>w a w'. \<forall>ls. a = Inr ls \<longrightarrow> (\<forall>r\<in>set ls. lr_LeaseID r \<in> sys_holds w')"])
  fix now w a w'
  assume s: "sys_sound w" and h: "(Inr (listLeases flt (sy_fake w)), w) = (a, w')"
  note inv = sound_inv [OF s]
  have "lr_LeaseID r \<in> sys_holds w" if r: "r \<in> set (listLeases flt (sy_fake w))" for r
  proof -
    obtain l where "(l, r) \<in> set (fk_leases (sy_fake w))" using r by (auto simp: listLeases_def split: if_splits)
    then have "lease_of (sy_fake w) l = Some r" using fake_invD(3) [OF inv] by simp
    then show ?thesis using lease_inv [OF inv] by (metis domI sys_holds_def)
  qed
  then show "goes w w' \<and> (\<forall>ls. a = Inr ls \<longrightarrow> (\<forall>r\<in>set ls. lr_LeaseID r \<in> sys_holds w'))"
    using h goes_refl [OF s] by auto
qed simp_all

subsection \<open>Releasing\<close>

definition gone_answer :: "grpc_error option \<Rightarrow> bool" where
  "gone_answer e \<longleftrightarrow> (case e of Some (Status c_NotFound m) \<Rightarrow> True | None \<Rightarrow> True | _ \<Rightarrow> False)"

text \<open>The Lease has been issued, and while it is held it is that of the MicroVM \<open>i\<close>.\<close>

definition follows :: "string \<Rightarrow> int \<Rightarrow> sys \<Rightarrow> bool" where
  "follows l i w \<longleftrightarrow> l \<in> dom (sy_issued w) \<and>
     (\<forall>r. lease_of (sy_fake w) l = Some r \<longrightarrow> fk_vmByUID (sy_fake w) (lr_VMUID r) = Some i)"

lemma follows_goes:
  assumes "follows l i w" "goes w w'"
  shows "follows l i w'"
proof -
  have "l \<in> dom (sy_issued w')"
    using assms goesD(2) [OF assms(2)] by (meson follows_def later_def map_le_implies_dom_le subsetD)
  moreover have "fk_vmByUID (sy_fake w') (lr_VMUID r') = Some i" if "lease_of (sy_fake w') l = Some r'" for r'
  proof -
    have "l \<in> sys_holds w" using goesD(2) [OF assms(2)] that assms(1) by (auto simp: later_def sys_holds_def follows_def)
    then obtain r where "lease_of (sy_fake w) l = Some r" by (auto simp: sys_holds_def)
    then show ?thesis using assms that unfolding goes_def follows_def by blast
  qed
  ultimately show ?thesis by (simp add: follows_def)
qed

lemma follows_vm:
  assumes "follows l i w" "sys_sound w" "l \<in> sys_holds w"
  obtains vm where "vm_of (sy_fake w) i = Some vm" "vm_leaseID vm = l"
proof -
  obtain r where r: "lease_of (sy_fake w) l = Some r" using assms(3) by (auto simp: sys_holds_def)
  then have "fk_vmByUID (sy_fake w) (lr_VMUID r) = Some i" using assms(1) by (simp add: follows_def)
  then show ?thesis using lease_inv [OF sound_inv [OF assms(2)] r] that by (metis option.inject)
qed

lemma await_deletion_law:
  assumes s: "sys_sound w" and l: "follows l i w" and f: "await_deletion i h u w = (a, w')"
  shows "goes w w' \<and> (gone_answer a \<longrightarrow> l \<notin> sys_holds w')"
proof -
  let ?t = "DelHost i h u"
  obtain o' w1 where r: "resume ?t w = (o', w1)" by (cases "resume ?t w")
  note g = resume_goes(1) [OF s r]
  note s1 = goesD(1) [OF g] and l1 = follows_goes [OF l g]
  show ?thesis
  proof (cases o')
    case None
    then show ?thesis using f r g by (auto simp: await_deletion_def gone_answer_def lost_def)
  next
    case (Some x)
    obtain now q where x: "x = (now, q)" by (cases x)
    have ok: "?t \<in> set (fk_tasks (sy_fake w1))" "outcome_ok q ?t (sy_fake w1)" "sy_issued w1 (out_token q) = None"
      using resume_goes(2) [OF s r] Some x by auto
    let ?c = "deleteOnHost (fk_hosts (sy_fake w1)) h u (out_deleted q)"
    let ?b = "deleteVM_end now i ?c (end_task ?t (sy_fake w1))"
    have e: "a = (if ?c then None else Some pending_cleanup)" "w' = settle ?b w1"
      using f r Some x by (auto simp: await_deletion_def Let_def)
    have g1: "goes w1 w'" unfolding e(2) using goes_task [OF s1 ok, of now] by simp
    have "l \<notin> sys_holds w'" if c: ?c
    proof (cases "l \<in> sys_holds w1")
      case True
      obtain vm where "vm_of (sy_fake w1) i = Some vm" "vm_leaseID vm = l" using follows_vm [OF l1 s1 True] .
      then show ?thesis
        using deleteVM_end_effect(2) [OF keep_end_task [OF sound_inv [OF s1], of ?t], of i vm now i ?c l] c e(2)
        by (auto simp: sys_holds_def)
    next
      case False
      then show ?thesis using goesD(2) [OF g1] l1 by (auto simp: follows_def later_def)
    qed
    then show ?thesis
      using goes_trans [OF g g1 s] e(1) by (auto simp: gone_answer_def pending_cleanup_def)
  qed
qed

lemma await_release_law:
  assumes s: "sys_sound w" and l: "follows l i w" and f: "await_release i w = (a, w')"
  shows "goes w w' \<and> (gone_answer a \<longrightarrow> l \<notin> sys_holds w')"
proof -
  let ?t = "DelStart i (Some VM_DELETED_ON_RELEASE)"
  obtain o' w1 where r: "resume ?t w = (o', w1)" by (cases "resume ?t w")
  note g = resume_goes(1) [OF s r]
  note s1 = goesD(1) [OF g] and l1 = follows_goes [OF l g]
  show ?thesis
  proof (cases o')
    case None
    then show ?thesis using f r g by (auto simp: await_release_def gone_answer_def lost_def)
  next
    case (Some x)
    obtain now q where x: "x = (now, q)" by (cases x)
    have ok: "?t \<in> set (fk_tasks (sy_fake w1))" "outcome_ok q ?t (sy_fake w1)" "sy_issued w1 (out_token q) = None"
      using resume_goes(2) [OF s r] Some x by auto
    let ?b0 = "end_task ?t (sy_fake w1)"
    obtain d b where d: "deleteVM_begin now i (Some VM_DELETED_ON_RELEASE) ?b0 = (d, b)"
      by (cases "deleteVM_begin now i (Some VM_DELETED_ON_RELEASE) ?b0")
    note g1 = goes_task [OF s1 ok, of now, simplified, unfolded d prod.case]
    show ?thesis
    proof (cases d)
      case DeletionDone
      have e: "a = None" "w' = settle b w1" using f r Some x d DeletionDone by (simp_all add: await_release_def)
      have "vm_of (sy_fake w1) i = None" "b = ?b0"
        using d DeletionDone by (auto simp: deleteVM_begin_def Let_def split: option.splits if_splits)
      then have "l \<notin> sys_holds w'" using follows_vm [OF l1 s1] e(2) by (fastforce simp: sys_holds_def)
      then show ?thesis using goes_trans [OF g g1 s] DeletionDone e by simp
    next
      case DeletionInFlight
      then show ?thesis
        using f r Some x d goes_trans [OF g g1 s] by (auto simp: await_release_def gone_answer_def pending_cleanup_def)
    next
      case (DeletionOnHost h u)
      have g2: "goes w (settle (spawn [DelHost i h u] b) w1)" using goes_trans [OF g g1 s] DeletionOnHost by simp
      have "await_deletion i h u (settle (spawn [DelHost i h u] b) w1) = (a, w')"
        using f r Some x d DeletionOnHost by (simp add: await_release_def)
      then show ?thesis
        using await_deletion_law [OF goesD(1) [OF g2] follows_goes [OF l g2]] goes_trans [OF g2 _ s] by blast
    qed
  qed
qed

lemma serve_ReleaseVM_law:
  assumes "sys_sound w" "serve_ReleaseVM l w = (a, w')"
  shows "goes w w' \<and> (gone_answer a \<and> l \<in> dom (sy_issued w) \<longrightarrow> l \<notin> sys_holds w')"
proof (rule interceptor_law [OF _ _ _ assms(1) assms(2) [unfolded serve_ReleaseVM_def],
      where Q = "\<lambda>w a w'. gone_answer a \<and> l \<in> dom (sy_issued w) \<longrightarrow> l \<notin> sys_holds w'"])
  fix now w a w'
  assume s: "sys_sound w" and h: "(case releaseVM_begin now l (sy_fake w) of
         (Inl ans, b) \<Rightarrow> (ans, settle b w)
       | (Inr i, b) \<Rightarrow> await_release i (settle (spawn [DelStart i (Some VM_DELETED_ON_RELEASE)] b) w)) = (a, w')"
  obtain x b where c: "releaseVM_begin now l (sy_fake w) = (x, b)" by (cases "releaseVM_begin now l (sy_fake w)")
  have g: "goes w (settle (releaseVM_start now l (sy_fake w)) w)" using goes_call [OF s, of "CallReleaseVM l" now] by simp
  show "goes w w' \<and> (gone_answer a \<and> l \<in> dom (sy_issued w) \<longrightarrow> l \<notin> sys_holds w')"
  proof (cases x)
    case (Inl ans)
    have "l \<notin> dom (lease_of b)"
      using c Inl by (auto simp: releaseVM_begin_def split: option.splits)
    then show ?thesis using h c Inl g by (auto simp: releaseVM_start_def sys_holds_def)
  next
    case (Inr i)
    let ?w1 = "settle (spawn [DelStart i (Some VM_DELETED_ON_RELEASE)] b) w"
    have g1: "goes w ?w1" using g c Inr by (simp add: releaseVM_start_def)
    obtain r vm where r: "lease_of (sy_fake w) l = Some r" "vmByUID (sy_fake w) (lr_VMUID r) = Some vm" "vm_id vm = i"
      using c Inr by (auto simp: releaseVM_begin_def split: option.splits)
    have "fk_vmByUID (sy_fake w) (lr_VMUID r) = Some i"
      using r lease_inv [OF sound_inv [OF s] r(1)] by (metis bind.bind_lunit option.inject vmByUID_def)
    moreover have "l \<in> dom (sy_issued w)" using sound_issued [OF s r(1)] by auto
    ultimately have "follows l i w" using r(1) by (simp add: follows_def)
    then have "follows l i ?w1" by (rule follows_goes [OF _ g1])
    then show ?thesis
      using await_release_law [OF goesD(1) [OF g1], of l i a w'] h c Inr goes_trans [OF g1 _ s] by simp
  qed
next
  fix w v a w'
  assume "goes w v" and Q: "gone_answer a \<and> l \<in> dom (sy_issued v) \<longrightarrow> l \<notin> sys_holds w'"
  then show "gone_answer a \<and> l \<in> dom (sy_issued w) \<longrightarrow> l \<notin> sys_holds w'"
    using goesD(2) by (meson later_def map_le_implies_dom_le subsetD)
qed (simp add: gone_answer_def)

subsection \<open>The contract\<close>

lemma says_gone_mapErr: "says_gone (mapErr c e) \<longleftrightarrow> gone_answer e"
  by (auto simp: says_gone_def mapErr_def mapErr1_def gone_answer_def split: option.split grpc_error.split grpc_code.split)

abbreviation fake_client :: "ReplenishmentStrategyType \<Rightarrow> (sys \<Rightarrow> ctx_state) \<Rightarrow> sys battery_client" where
  "fake_client z ctx \<equiv> Connection z (fake_stub z) ctx"

lemma fake_client_calls:
  "ClaimVM (fake_client z ctx) ref rid w = answer ctx id (serve_ClaimVM ref rid w)"
  "Heartbeat (fake_client z ctx) l w = answer ctx id (serve_Heartbeat l w)"
  "ReleaseVM (fake_client z ctx) l w = (case serve_ReleaseVM l w of (e, w') \<Rightarrow> (mapErr (ctx w') e, w'))"
  "ListLeases (fake_client z ctx) flt w = answer ctx id (serve_ListLeases flt w)"
  by (simp_all add: Connection_def fake_stub_def)

lemma fake_release_law:
  assumes s: "sys_sound w" and r: "ReleaseVM (fake_client z ctx) l w = (e, w')"
  shows "sys_sound w' \<and> later sy_issued sys_holds w w' \<and> (says_gone e \<and> l \<in> dom (sy_issued w) \<longrightarrow> l \<notin> sys_holds w')"
proof -
  obtain e' w1 where q: "serve_ReleaseVM l w = (e', w1)" by (cases "serve_ReleaseVM l w")
  have "(mapErr (ctx w1) e', w1) = (e, w')" using r unfolding fake_client_calls q prod.case .
  then have e: "w1 = w'" "mapErr (ctx w') e' = e" by auto
  show ?thesis
    using serve_ReleaseVM_law [OF s q] goesD [of w w1] says_gone_mapErr [of "ctx w'" e'] unfolding e by simp
qed

lemma answer_eq:
  assumes "answer ctx id r = (a, w')"
  obtains a' where "r = (a', w')" "\<And>x. a = Inr x \<longleftrightarrow> a' = Inr x"
  using assms by (cases r; cases "fst r") (auto simp: answer_def)

lemma fake_claim_law:
  assumes "sys_sound w" "ClaimVM (fake_client z ctx) p rid w = (ans, w')"
  shows "sys_sound w' \<and> later sy_issued sys_holds w w' \<and>
    (\<forall>c. ans = Inr c \<longrightarrow> (\<exists>r. sy_issued w' (cl_LeaseID c) = Some r \<and> lr_LeaseID r = cl_LeaseID c \<and>
       lr_VMUID r = cl_VMUID c \<and> lr_Pool r = p \<and> (rid \<noteq> [] \<longrightarrow> lr_RequestID r = rid)))"
proof -
  obtain a where a: "serve_ClaimVM p rid w = (a, w')" "\<And>x. ans = Inr x \<longleftrightarrow> a = Inr x"
    using answer_eq [OF assms(2) [unfolded fake_client_calls]] by metis
  show ?thesis
    using serve_ClaimVM_law [OF assms(1) a(1)] goesD [of w w'] unfolding claim_right_def a(2) by simp
qed

lemma fake_heartbeat_law:
  assumes "sys_sound w" "Heartbeat (fake_client z ctx) l w = (ans, w')"
  shows "sys_sound w' \<and> later sy_issued sys_holds w w' \<and> (\<forall>t. ans = Inr t \<longrightarrow> l \<in> sys_holds w')"
proof -
  obtain a where a: "serve_Heartbeat l w = (a, w')" "\<And>x. ans = Inr x \<longleftrightarrow> a = Inr x"
    using answer_eq [OF assms(2) [unfolded fake_client_calls]] by metis
  show ?thesis using serve_Heartbeat_law [OF assms(1) a(1)] goesD [of w w'] unfolding a(2) by simp
qed

lemma fake_list_law:
  assumes "sys_sound w" "ListLeases (fake_client z ctx) flt w = (ans, w')"
  shows "sys_sound w' \<and> later sy_issued sys_holds w w' \<and> (\<forall>ls. ans = Inr ls \<longrightarrow> (\<forall>r\<in>set ls. lr_LeaseID r \<in> sys_holds w'))"
proof -
  obtain a where a: "serve_ListLeases flt w = (a, w')" "\<And>x. ans = Inr x \<longleftrightarrow> a = Inr x"
    using answer_eq [OF assms(2) [unfolded fake_client_calls]] by metis
  show ?thesis using serve_ListLeases_law [OF assms(1) a(1)] goesD [of w w'] unfolding a(2) by simp
qed

lemma held_record:
  assumes "sys_sound w" "l \<in> sys_holds w" "sy_issued w l = Some r"
  obtains q where "lease_of (sy_fake w) l = Some q" "grant q = grant r"
  using assms sound_issued [OF assms(1)] by (fastforce simp: sys_holds_def)

interpretation served: lease_service "fake_client z ctx" sys_sound sy_issued sys_holds
proof
  fix w
  assume s: "sys_sound w"
  note inv = sound_inv [OF s]
  show "sys_holds w \<subseteq> dom (sy_issued w)" using sound_issued [OF s] by (fastforce simp: sys_holds_def)
  fix l l' r r'
  assume l: "l \<in> sys_holds w" "l' \<in> sys_holds w" "sy_issued w l = Some r" "sy_issued w l' = Some r'"
  obtain q where q: "lease_of (sy_fake w) l = Some q" "grant q = grant r" using held_record [OF s l(1,3)] .
  obtain q' where q': "lease_of (sy_fake w) l' = Some q'" "grant q' = grant r'" using held_record [OF s l(2,4)] .
  show "l = l'" if "lr_RequestID r = lr_RequestID r'" "lr_RequestID r \<noteq> []"
    using linvD(4) [OF fake_invD(1) [OF inv] q(1) q'(1)] q(2) q'(2) that by (simp add: grant_def)
  show "l = l'" if "lr_VMUID r = lr_VMUID r'"
    using lease_inv [OF inv q(1)] lease_inv [OF inv q'(1)] q(2) q'(2) that by (metis grant_def option.inject prod.inject)
qed (rule fake_claim_law fake_heartbeat_law fake_release_law fake_list_law; assumption)+

text \<open>
  The Claim Controller's environment over the fake: the API server and the clock are
  parameters that read the world, in which the fake goes on before each call.
\<close>

definition reads :: "(sys \<Rightarrow> 'a) \<Rightarrow> sys \<Rightarrow> 'a \<times> sys" where
  "reads f w = (case arrive w of (now, w1) \<Rightarrow> (f w1, w1))"

definition fake_env ::
  "kube_api \<Rightarrow> (key \<Rightarrow> sys \<Rightarrow> api_error + MicroVMClaim) \<Rightarrow> (key \<Rightarrow> sys \<Rightarrow> api_error + ObjectMeta) \<Rightarrow>
   (string \<Rightarrow> sys \<Rightarrow> api_error + ObjectMeta) \<Rightarrow> (sys \<Rightarrow> time) \<Rightarrow> ReplenishmentStrategyType \<Rightarrow> (sys \<Rightarrow> ctx_state) \<Rightarrow>
   sys claim_env" where
  "fake_env K claims pools nodes clk z ctx =
     \<lparr>kube = K, Battery = fake_client z ctx, APIReader_claim = (\<lambda>k. reads (claims k)),
      APIReader_pool = (\<lambda>k. reads (pools k)), Client_node = (\<lambda>n. reads (nodes n)), Clock_Now = reads clk\<rparr>"

lemma reads_law: "sys_sound w \<Longrightarrow> sys_sound (snd (reads f w)) \<and> later sy_issued sys_holds w (snd (reads f w))"
proof -
  assume s: "sys_sound w"
  obtain now w1 where a: "arrive w = (now, w1)" by (cases "arrive w")
  show ?thesis using goesD [OF arrive_goes [OF s a]] by (simp add: reads_def a)
qed

interpretation fake_claims: leased_claims "fake_client z ctx" sys_sound sy_issued sys_holds "fake_env K claims pools nodes clk z ctx"
  by unfold_locales (simp_all add: fake_env_def reads_law)

end
