(* ===== verification/HostSet.thy ===== *)
theory HostSet
  imports Kube "HOL-Library.AList" "HOL-Library.List_Lexorder" "HOL-Library.Char_ord"
begin

section \<open>The Hosts battery places on\<close>

text \<open>
  \<open>internal/controller/inventory/hostset.go\<close>: the set of Hosts that the Inventory Controller
  publishes and the Pool Controller resolves a Pool's selector against. A Go map is an
  association list without duplicate keys, whose order is the order in which a \<open>range\<close>
  happens to meet the keys. Strings are compared byte by byte, as Go does, which is the
  lexicographic order on lists of characters.
\<close>

type_synonym 'v go_map = "(string \<times> 'v) list"

text \<open>\<open>maps.Equal\<close>: as many keys, and the same value at every key of the first.\<close>

definition maps_Equal :: "'v go_map \<Rightarrow> 'v go_map \<Rightarrow> bool" where
  "maps_Equal m n \<longleftrightarrow> length m = length n \<and> list_all (\<lambda>(k, v). map_of n k = Some v) m"

text \<open>\<open>slices.Sorted(maps.Keys(m))\<close>.\<close>

definition sorted_keys :: "'v go_map \<Rightarrow> string list" where
  "sorted_keys m = sort (map fst m)"

type_synonym Hosts = "string go_map"

record Host =
  host_Name :: string
  host_Address :: string

text \<open>A read of a key that is not there gives the zero value, the empty string.\<close>

definition at :: "Hosts \<Rightarrow> string \<Rightarrow> string" where
  "at h name = (case map_of h name of None \<Rightarrow> [] | Some a \<Rightarrow> a)"

definition Hosts_List :: "Hosts \<Rightarrow> Host list" where
  "Hosts_List h = map (\<lambda>name. \<lparr>host_Name = name, host_Address = at h name\<rparr>) (sorted_keys h)"

text \<open>\<open>changed\<close> counts the channels closed so far: a waiter holds the number of its channel.\<close>

record HostSet =
  hs_hosts :: Hosts
  hs_synced :: bool
  hs_changed :: nat

definition NewHostSet :: HostSet where
  "NewHostSet = \<lparr>hs_hosts = [], hs_synced = False, hs_changed = 0\<rparr>"

definition HostSet_publish :: "Hosts \<Rightarrow> HostSet \<Rightarrow> HostSet" where
  "HostSet_publish new h =
     (if hs_synced h \<and> maps_Equal (hs_hosts h) new then h
      else \<lparr>hs_hosts = new, hs_synced = True, hs_changed = Suc (hs_changed h)\<rparr>)"

definition Has :: "string \<Rightarrow> HostSet \<Rightarrow> bool" where
  "Has name h \<longleftrightarrow> map_of (hs_hosts h) name \<noteq> None"

text \<open>\<open>Hosts\<close> answers \<open>ErrNotSynced\<close>, as \<open>Matching\<close> does, before the first publication.\<close>

datatype matching_error = ErrNotSynced | ListFailed api_error

definition HostSet_Hosts :: "HostSet \<Rightarrow> matching_error + Host list" where
  "HostSet_Hosts h = (if hs_synced h then Inr (Hosts_List (hs_hosts h)) else Inl ErrNotSynced)"

text \<open>
  \<open>Matching\<close> takes the lock once in \<open>Synced\<close> and once in every \<open>Has\<close>, and the Inventory
  Controller may publish in between: \<open>look\<close> is one such reading of the set. \<open>listNodes\<close> lists
  the Nodes that have the labels.
\<close>

fun keep_Hosts :: "('w \<Rightarrow> HostSet \<times> 'w) \<Rightarrow> ObjectMeta list \<Rightarrow> 'w \<Rightarrow> string list \<times> 'w" where
  "keep_Hosts look [] w = ([], w)"
| "keep_Hosts look (n # ns) w =
     (case look w of (h, w1) \<Rightarrow>
        case keep_Hosts look ns w1 of (names, w2) \<Rightarrow>
          (if Has (om_Name n) h then om_Name n # names else names, w2))"

definition HostSet_Matching ::
  "('w \<Rightarrow> HostSet \<times> 'w) \<Rightarrow> ((string \<rightharpoonup> string) \<Rightarrow> 'w \<Rightarrow> (api_error + ObjectMeta list) \<times> 'w) \<Rightarrow>
   (string \<rightharpoonup> string) \<Rightarrow> 'w \<Rightarrow> (matching_error + string list) \<times> 'w" where
  "HostSet_Matching look listNodes selector w =
     (case look w of (h, w1) \<Rightarrow>
        if \<not> hs_synced h then (Inl ErrNotSynced, w1)
        else (case listNodes selector w1 of
                (Inl e, w2) \<Rightarrow> (Inl (ListFailed e), w2)
              | (Inr nodes, w2) \<Rightarrow>
                  (case keep_Hosts look nodes w2 of (names, w3) \<Rightarrow> (Inr (sort names), w3))))"

subsection \<open>Facts\<close>

lemma maps_Equal_iff:
  assumes "distinct (map fst m)" "distinct (map fst n)"
  shows "maps_Equal m n \<longleftrightarrow> map_of m = map_of n"
proof
  assume eq: "maps_Equal m n"
  have sub: "set m \<subseteq> set n"
    using eq by (auto simp: maps_Equal_def list_all_iff intro: map_of_SomeD)
  have "card (set m) = card (set n)"
    using eq assms by (simp add: maps_Equal_def distinct_card distinct_map)
  then have "set m = set n" using sub by (intro card_subset_eq) simp_all
  then show "map_of m = map_of n" by (intro map_of_inject_set [THEN iffD2] assms)
next
  assume eq: "map_of m = map_of n"
  have "set m = set n" using eq map_of_inject_set [OF assms] by simp
  moreover have "distinct m" "distinct n" using assms by (simp_all add: distinct_map)
  ultimately have "length m = length n" by (metis distinct_card)
  moreover have "\<forall>(k, v)\<in>set m. map_of n k = Some v" using map_of_is_SomeI [OF assms(1)] unfolding eq by blast
  ultimately show "maps_Equal m n" by (simp add: maps_Equal_def list_all_iff)
qed

lemma publish_hosts:
  assumes "distinct (map fst (hs_hosts h))" "distinct (map fst new)"
  shows "map_of (hs_hosts (HostSet_publish new h)) = map_of new" "hs_synced (HostSet_publish new h)"
  using maps_Equal_iff [OF assms] by (auto simp: HostSet_publish_def)

lemma publish_distinct:
  "distinct (map fst (hs_hosts h)) \<Longrightarrow> distinct (map fst new) \<Longrightarrow> distinct (map fst (hs_hosts (HostSet_publish new h)))"
  by (simp add: HostSet_publish_def)

text \<open>Waiters wake exactly when the set changes or is published for the first time.\<close>

lemma publish_changed_iff:
  assumes "distinct (map fst (hs_hosts h))" "distinct (map fst new)"
  shows "hs_changed (HostSet_publish new h) \<noteq> hs_changed h \<longleftrightarrow> \<not> hs_synced h \<or> map_of (hs_hosts h) \<noteq> map_of new"
  using maps_Equal_iff [OF assms] by (auto simp: HostSet_publish_def)

lemma sorted_keys_simps [simp]: "set (sorted_keys m) = fst ` set m" "sorted (sorted_keys m)"
  by (simp_all add: sorted_keys_def)

lemma distinct_sorted_keys [simp]: "distinct (sorted_keys m) \<longleftrightarrow> distinct (map fst m)"
  by (simp add: sorted_keys_def)

lemma map_of_Hosts_List: "map_of (map (\<lambda>h. (host_Name h, host_Address h)) (Hosts_List m)) = map_of m"
proof
  fix k
  have *: "map_of (map (\<lambda>k. (k, f k)) ks) k = (if k \<in> set ks then Some (f k) else None)" for f :: "string \<Rightarrow> string" and ks
    by (induction ks) auto
  show "map_of (map (\<lambda>h. (host_Name h, host_Address h)) (Hosts_List m)) k = map_of m k"
    using map_of_eq_None_iff [of m k]
    by (cases "map_of m k") (auto simp: Hosts_List_def comp_def * at_def)
qed

lemma keep_Hosts_subset: "set (fst (keep_Hosts look ns w)) \<subseteq> om_Name ` set ns"
  by (induction ns arbitrary: w) (auto split: prod.splits, (metis fst_conv image_eqI subsetD)+)

lemma Matching_sorted: "HostSet_Matching look ln sel w = (Inr names, w') \<Longrightarrow> sorted names"
  by (auto simp: HostSet_Matching_def split: prod.splits if_splits sum.splits)

text \<open>While nothing is published meanwhile, the answer is the listed Nodes that are Hosts.\<close>

lemma keep_Hosts_still:
  assumes "\<And>w. look w = (h, w)"
  shows "keep_Hosts look ns w = (filter (\<lambda>n. Has n h) (map om_Name ns), w)"
  by (induction ns) (auto simp: assms)

end
