(* ===== verification/PoolTypes.thy ===== *)
theory PoolTypes
  imports HostSet BatteryClient
begin

section \<open>Pools and the Pool Controller's scope\<close>

text \<open>
  The resource \<open>Pool\<close> (\<open>api/v1alpha1/pool_types.go\<close>), its conversion to battery's specification
  (\<open>internal/controller/pool_convert.go\<close>), the memory of stalled Pools
  (\<open>poolStalls\<close> of \<open>pool_stall.go\<close>) and the scope of one reconcile of one Pool
  (\<open>pool_scope.go\<close>, over \<open>internal/reconcile/scope.go\<close>).
\<close>

subsection \<open>The resource\<close>

datatype v1_ReplenishmentStrategyType =
  ReplenishImmediateOnLease | ReplenishMinSizeThreshold | ReplenishReplaceOnDelete | ReplenishOther string

datatype v1_HookFailurePolicy = HookFailureDeleteAndReplace | HookFailureQuarantine | HookFailureOther string

datatype NetworkInterfaceType = NetworkInterfaceMacvtap | NetworkInterfaceTap | NetworkInterfaceOther string

record v1_ReplenishmentStrategy =
  vrs_Type :: v1_ReplenishmentStrategyType
  vrs_MinSize :: "int option"

record PoolHooks =
  hooks_Create :: "string list"
  hooks_PreLease :: "string list"
  hooks_FailurePolicy :: v1_HookFailurePolicy

record PoolLease =
  lease_HeartbeatInterval :: "duration option"
  lease_ExpiryThreshold :: "duration option"

record Kernel =
  kernel_Image :: string
  kernel_Cmdline :: labels
  kernel_Filename :: "string option"
  kernel_AddNetworkConfig :: bool

record Initrd =
  initrd_Image :: string
  initrd_Filename :: "string option"

record Volume =
  vol_ID :: string
  vol_ReadOnly :: bool
  vol_MountPoint :: "string option"
  vol_PartitionID :: "string option"
  vol_SizeInMb :: "int option"
  vol_ContainerSource :: "string option"
  vol_VirtiofsSource :: "string option"

record StaticAddress =
  sa_Address :: string
  sa_Gateway :: "string option"
  sa_Nameservers :: "string list"

text \<open>\<open>NetworkOverrides\<close> has the bridge's name as its only field, so it is that name.\<close>

record NetworkInterface =
  ni_DeviceID :: string
  ni_Type :: NetworkInterfaceType
  ni_GuestMAC :: "string option"
  ni_Address :: "StaticAddress option"
  ni_Overrides :: "string option option"

record CPUConfig =
  cpu_FeaturesToEnable :: "string list"
  cpu_KVMCapabilitiesToDisable :: "string list"

record MicroVMTemplate =
  tpl_Provider :: "string option"
  tpl_VCPU :: int
  tpl_MemoryInMb :: int
  tpl_Kernel :: Kernel
  tpl_Initrd :: "Initrd option"
  tpl_RootVolume :: Volume
  tpl_AdditionalVolumes :: "Volume list"
  tpl_Interfaces :: "NetworkInterface list"
  tpl_Metadata :: labels
  tpl_Labels :: labels
  tpl_CPUConfig :: "CPUConfig option"

text \<open>\<open>PoolPlacement\<close> has the selector as its only field.\<close>

record v1_PoolSpec =
  vps_Template :: MicroVMTemplate
  vps_Size :: int
  vps_NodeSelector :: labels
  vps_Replenishment :: v1_ReplenishmentStrategy
  vps_Hooks :: PoolHooks
  vps_Lease :: PoolLease

record v1_PoolStatus =
  vst_ObservedGeneration :: int
  vst_Available :: int
  vst_Leased :: int
  vst_Provisioning :: int
  vst_Quarantined :: int
  vst_Conditions :: "Condition list"

record v1_Pool =
  vp_meta :: ObjectMeta
  vp_spec :: v1_PoolSpec
  vp_status :: v1_PoolStatus

text \<open>
  What the API server admits, from the validation markers of the types. The markers'
  defaults are filled in before, so the enumerations and the two durations are always set.
\<close>

definition crd_Volume :: "Volume \<Rightarrow> bool" where
  "crd_Volume v \<longleftrightarrow>
     (vol_ContainerSource v \<noteq> None) \<noteq> (vol_VirtiofsSource v \<noteq> None) \<and>
     (case vol_SizeInMb v of None \<Rightarrow> True | Some n \<Rightarrow> 1 \<le> n)"

definition crd_NetworkInterface :: "NetworkInterface \<Rightarrow> bool" where
  "crd_NetworkInterface n \<longleftrightarrow>
     ni_DeviceID n \<noteq> [] \<and> ni_Type n \<in> {NetworkInterfaceMacvtap, NetworkInterfaceTap} \<and>
     (case ni_Address n of None \<Rightarrow> True | Some a \<Rightarrow> sa_Address a \<noteq> [])"

definition crd_MicroVMTemplate :: "MicroVMTemplate \<Rightarrow> bool" where
  "crd_MicroVMTemplate t \<longleftrightarrow>
     1 \<le> tpl_VCPU t \<and> tpl_VCPU t \<le> 64 \<and> 1024 \<le> tpl_MemoryInMb t \<and> tpl_MemoryInMb t \<le> 32768 \<and>
     kernel_Image (tpl_Kernel t) \<noteq> [] \<and> (case tpl_Initrd t of None \<Rightarrow> True | Some i \<Rightarrow> initrd_Image i \<noteq> []) \<and>
     crd_Volume (tpl_RootVolume t) \<and> list_all crd_Volume (tpl_AdditionalVolumes t) \<and>
     tpl_Interfaces t \<noteq> [] \<and> list_all crd_NetworkInterface (tpl_Interfaces t)"

definition crd_ReplenishmentStrategy :: "v1_ReplenishmentStrategy \<Rightarrow> bool" where
  "crd_ReplenishmentStrategy r \<longleftrightarrow>
     vrs_Type r \<in> {ReplenishImmediateOnLease, ReplenishMinSizeThreshold, ReplenishReplaceOnDelete} \<and>
     (case vrs_MinSize r of None \<Rightarrow> vrs_Type r \<noteq> ReplenishMinSizeThreshold | Some m \<Rightarrow> 1 \<le> m)"

definition crd_PoolSpec :: "v1_PoolSpec \<Rightarrow> bool" where
  "crd_PoolSpec sp \<longleftrightarrow>
     crd_MicroVMTemplate (vps_Template sp) \<and> 0 \<le> vps_Size sp \<and> crd_ReplenishmentStrategy (vps_Replenishment sp) \<and>
     hooks_FailurePolicy (vps_Hooks sp) \<in> {HookFailureDeleteAndReplace, HookFailureQuarantine} \<and>
     (case lease_HeartbeatInterval (vps_Lease sp) of None \<Rightarrow> False | Some d \<Rightarrow> 0 < d) \<and>
     (case lease_ExpiryThreshold (vps_Lease sp) of None \<Rightarrow> False | Some d \<Rightarrow> 0 < d)"

definition PoolConditionReady :: string where "PoolConditionReady = ''Ready''"
definition PoolConditionExhausted :: string where "PoolConditionExhausted = ''Exhausted''"

lemma pool_conditions_distinct [simp]:
  "PoolConditionReady \<noteq> PoolConditionExhausted" "PoolConditionExhausted \<noteq> PoolConditionReady"
  by (simp_all add: PoolConditionReady_def PoolConditionExhausted_def)

subsection \<open>Conversion to battery's specification\<close>

text \<open>\<open>clonePtr\<close>, \<open>slices.Clone\<close> and \<open>maps.Clone\<close> copy values, which values of the model are anyway.\<close>

definition poolRef :: "v1_Pool \<Rightarrow> PoolRef" where
  "poolRef pool = \<lparr>ref_Name = om_Name (vp_meta pool), ref_Namespace = om_Namespace (vp_meta pool)\<rparr>"

fun replenishmentToBattery :: "v1_ReplenishmentStrategyType \<Rightarrow> ReplenishmentStrategyType" where
  "replenishmentToBattery ReplenishImmediateOnLease = IMMEDIATE_ON_LEASE"
| "replenishmentToBattery ReplenishMinSizeThreshold = MIN_SIZE_THRESHOLD"
| "replenishmentToBattery ReplenishReplaceOnDelete = REPLACE_ON_DELETE"
| "replenishmentToBattery (ReplenishOther t) = REPLENISHMENT_STRATEGY_TYPE_UNSPECIFIED"

fun hookFailurePolicyToBattery :: "v1_HookFailurePolicy \<Rightarrow> HookFailurePolicy" where
  "hookFailurePolicyToBattery HookFailureDeleteAndReplace = DELETE_AND_REPLACE"
| "hookFailurePolicyToBattery HookFailureQuarantine = QUARANTINE"
| "hookFailurePolicyToBattery (HookFailureOther p) = HOOK_FAILURE_POLICY_UNSPECIFIED"

definition volumeToFlintlock :: "Volume \<Rightarrow> fl_Volume" where
  "volumeToFlintlock v =
     \<lparr>flv_Id = vol_ID v, flv_IsReadOnly = vol_ReadOnly v, flv_MountPoint = vol_MountPoint v,
      flv_PartitionId = vol_PartitionID v, flv_SizeInMb = vol_SizeInMb v,
      flv_Source = Some \<lparr>fls_ContainerSource = vol_ContainerSource v, fls_VirtiofsSource = vol_VirtiofsSource v\<rparr>\<rparr>"

definition interfaceToFlintlock :: "NetworkInterface \<Rightarrow> fl_NetworkInterface" where
  "interfaceToFlintlock n =
     \<lparr>fln_DeviceId = ni_DeviceID n,
      fln_Type = (if ni_Type n = NetworkInterfaceTap then TAP else MACVTAP),
      fln_GuestMac = ni_GuestMAC n,
      fln_Address = map_option (\<lambda>a. \<lparr>fla_Address = sa_Address a, fla_Gateway = sa_Gateway a,
                                    fla_Nameservers = sa_Nameservers a\<rparr>) (ni_Address n),
      fln_BridgeName = ni_Overrides n\<rparr>"

definition templateToFlintlock :: "MicroVMTemplate \<Rightarrow> string \<Rightarrow> MicroVMSpec" where
  "templateToFlintlock t namespace =
     \<lparr>mvm_Id = [], mvm_Namespace = namespace, mvm_AllowGuestAgent = False, mvm_Labels = tpl_Labels t,
      mvm_Vcpu = tpl_VCPU t, mvm_MemoryInMb = tpl_MemoryInMb t,
      mvm_Kernel = Some \<lparr>flk_Image = kernel_Image (tpl_Kernel t), flk_Cmdline = kernel_Cmdline (tpl_Kernel t),
                         flk_Filename = kernel_Filename (tpl_Kernel t),
                         flk_AddNetworkConfig = kernel_AddNetworkConfig (tpl_Kernel t)\<rparr>,
      mvm_Initrd = map_option (\<lambda>i. \<lparr>fli_Image = initrd_Image i, fli_Filename = initrd_Filename i\<rparr>) (tpl_Initrd t),
      mvm_RootVolume = Some (volumeToFlintlock (tpl_RootVolume t)),
      mvm_AdditionalVolumes = map volumeToFlintlock (tpl_AdditionalVolumes t),
      mvm_Interfaces = map interfaceToFlintlock (tpl_Interfaces t), mvm_Metadata = tpl_Metadata t,
      mvm_Provider = tpl_Provider t,
      mvm_CpuConfig = map_option (\<lambda>c. \<lparr>flc_FeaturesToEnable = cpu_FeaturesToEnable c,
                         flc_KvmCapabilitiesToDisable = cpu_KVMCapabilitiesToDisable c\<rparr>) (tpl_CPUConfig t)\<rparr>"

definition poolSpecToBattery :: "v1_Pool \<Rightarrow> string list \<Rightarrow> PoolSpec" where
  "poolSpecToBattery pool hosts =
     (let spec = vp_spec pool
      in \<lparr>ps_Ref = poolRef pool,
          ps_Template = Some (templateToFlintlock (vps_Template spec) (om_Namespace (vp_meta pool))),
          ps_Size = vps_Size spec, ps_FlintlockHosts = hosts,
          ps_Replenishment = \<lparr>rs_Type = replenishmentToBattery (vrs_Type (vps_Replenishment spec)),
                              rs_MinSize = vrs_MinSize (vps_Replenishment spec)\<rparr>,
          ps_CreateCommands = hooks_Create (vps_Hooks spec),
          ps_PreLeaseCommands = hooks_PreLease (vps_Hooks spec),
          ps_HookFailurePolicy = hookFailurePolicyToBattery (hooks_FailurePolicy (vps_Hooks spec)),
          ps_HeartbeatInterval = (case lease_HeartbeatInterval (vps_Lease spec) of None \<Rightarrow> 0 | Some d \<Rightarrow> d),
          ps_HeartbeatExpiryThreshold = (case lease_ExpiryThreshold (vps_Lease spec) of None \<Rightarrow> 0 | Some d \<Rightarrow> d)\<rparr>)"

subsection \<open>The memory of stalled Pools\<close>

definition poolStallWait :: duration where "poolStallWait = minute"

record poolStallState =
  stall_shortfall :: int
  stall_since :: time
  stall_notFilling :: bool

record poolNotFilling =
  nf_shortfall :: int
  nf_since :: time

type_synonym poolStalls = "key \<rightharpoonup> poolStallState"

definition newPoolStalls :: poolStalls where "newPoolStalls = Map.empty"

definition forget :: "key \<Rightarrow> poolStalls \<Rightarrow> poolStalls" where
  "forget key r = r(key := None)"

text \<open>
  \<open>observe\<close>: the state of the Pool, made new by a stalled sighting when there is none for
  this shortfall, marked by one a minute or more after the first, and what it answers.
\<close>

definition observe ::
  "key \<Rightarrow> int \<Rightarrow> bool \<Rightarrow> time \<Rightarrow> poolStalls \<Rightarrow> (poolNotFilling option \<times> duration) \<times> poolStalls" where
  "observe key shortfall stalled now r =
     (let r1 = (case r key of
                  None \<Rightarrow> r
                | Some st \<Rightarrow> if stall_shortfall st \<noteq> shortfall then r(key := None) else r)
      in if r1 key = None \<and> \<not> stalled then ((None, 0), r1)
         else
           (let st = (case r1 key of
                        Some st \<Rightarrow> st
                      | None \<Rightarrow> \<lparr>stall_shortfall = shortfall, stall_since = now, stall_notFilling = False\<rparr>);
                st1 = (if stalled \<and> \<not> now < stall_since st + poolStallWait
                       then st\<lparr>stall_notFilling := True\<rparr> else st);
                r2 = r1(key \<mapsto> st1)
            in if stall_notFilling st1
               then ((Some \<lparr>nf_shortfall = stall_shortfall st1, nf_since = stall_since st1\<rparr>, 0), r2)
               else if stalled then ((None, stall_since st1 + poolStallWait - now), r2)
               else ((None, 0), r2)))"

subsection \<open>The scope\<close>

text \<open>
  What a reconcile is given: the Kubernetes library, battery's client, the interface
  \<open>PoolHosts\<close> and the clock. Each reads a world and may change it.
\<close>

record 'w pool_env =
  pe_kube :: kube_api
  pe_Battery :: "'w battery_client"
  Matching :: "labels \<Rightarrow> 'w \<Rightarrow> (matching_error + string list) \<times> 'w"
  pe_Now :: "'w \<Rightarrow> time \<times> 'w"

record 'w poolScope =
  po_Object :: v1_Pool
  po_Original :: v1_Pool
  refusal :: "battery_error option"
  po_held :: "Pool option"
  po_hosts :: "string list"
  sent :: bool
  notFilling :: "poolNotFilling option"
  Stalls :: "poolStalls option"
  po_World :: 'w

type_synonym 'w pool_step = "'w pool_env \<Rightarrow> ('w poolScope, reconcile_error) SubReconciler"

definition newPoolScope :: "v1_Pool \<Rightarrow> poolStalls option \<Rightarrow> 'w \<Rightarrow> 'w poolScope" where
  "newPoolScope pool stalls w =
     \<lparr>po_Object = pool, po_Original = pool, refusal = None, po_held = None, po_hosts = [], sent = False,
      notFilling = None, Stalls = stalls, po_World = w\<rparr>"

abbreviation pmeta :: "'w poolScope \<Rightarrow> ObjectMeta" where "pmeta s \<equiv> vp_meta (po_Object s)"

abbreviation pspec :: "'w poolScope \<Rightarrow> v1_PoolSpec" where "pspec s \<equiv> vp_spec (po_Object s)"

abbreviation pstatus :: "'w poolScope \<Rightarrow> v1_PoolStatus" where "pstatus s \<equiv> vp_status (po_Object s)"

definition upd_pstatus :: "(v1_PoolStatus \<Rightarrow> v1_PoolStatus) \<Rightarrow> 'w poolScope \<Rightarrow> 'w poolScope" where
  "upd_pstatus f s = s\<lparr>po_Object := (po_Object s)\<lparr>vp_status := f (pstatus s)\<rparr>\<rparr>"

definition upd_pmeta :: "(ObjectMeta \<Rightarrow> ObjectMeta) \<Rightarrow> 'w poolScope \<Rightarrow> 'w poolScope" where
  "upd_pmeta f s = s\<lparr>po_Object := (po_Object s)\<lparr>vp_meta := f (pmeta s)\<rparr>\<rparr>"

text \<open>\<open>setCondition\<close> stamps the condition with the clock's time and the Pool's generation.\<close>

definition setCondition ::
  "'w pool_env \<Rightarrow> string \<Rightarrow> ConditionStatus \<Rightarrow> string \<Rightarrow> string \<Rightarrow> 'w poolScope \<Rightarrow> 'w poolScope" where
  "setCondition E typ stat reason message s =
     (case pe_Now E (po_World s) of (now, w) \<Rightarrow>
        upd_pstatus (\<lambda>st. st\<lparr>vst_Conditions := SetCondition (pe_kube E) (om_Generation (pmeta s)) now typ stat
                                              reason message (vst_Conditions st)\<rparr>) (s\<lparr>po_World := w\<rparr>))"

definition set_counts :: "PoolStatus \<Rightarrow> v1_PoolStatus \<Rightarrow> v1_PoolStatus" where
  "set_counts counts st =
     st\<lparr>vst_Available := st_Available counts, vst_Leased := st_Leased counts,
        vst_Provisioning := st_Provisioning counts, vst_Quarantined := st_Quarantined counts\<rparr>"

subsection \<open>Writing the object\<close>

text \<open>
  \<open>reconcile.Scope.Patch\<close>, for an object of any kind. The converter to unstructured objects,
  the semantic equality and the two writes are the Kubernetes library's: \<open>ToUnstructured\<close>
  gives the object's status and the rest of it. A write answers with an error or nothing,
  since the scope's object is copied first.
\<close>

record ('o, 'u, 'w) object_writer =
  ToUnstructured :: "'o \<Rightarrow> string + 'u \<times> 'u"
  DeepEqual :: "'u \<Rightarrow> 'u \<Rightarrow> bool"
  Status_Patch :: "'o \<Rightarrow> 'o \<Rightarrow> 'w \<Rightarrow> api_error option \<times> 'w"
  Object_Patch :: "'o \<Rightarrow> 'o \<Rightarrow> 'w \<Rightarrow> api_error option \<times> 'w"

text \<open>One of the two writes: nothing when nothing changed, and an object that is gone is no error.\<close>

definition write_part ::
  "bool \<Rightarrow> ('o \<Rightarrow> 'o \<Rightarrow> 'w \<Rightarrow> api_error option \<times> 'w) \<Rightarrow> string \<Rightarrow> 'o \<Rightarrow> 'o \<Rightarrow> 'w \<Rightarrow> reconcile_error list \<times> 'w" where
  "write_part needed write text obj base w =
     (if \<not> needed then ([], w)
      else (case write obj base w of
              (None, w1) \<Rightarrow> ([], w1)
            | (Some e, w1) \<Rightarrow> (if IsNotFound e then [] else [ApiFailed text e], w1)))"

definition Scope_Patch ::
  "('o, 'u, 'w) object_writer \<Rightarrow> ('o \<Rightarrow> key) \<Rightarrow> 'o \<Rightarrow> 'o \<Rightarrow> 'w \<Rightarrow> reconcile_error list \<times> 'w" where
  "Scope_Patch W key obj orig w =
     (case ToUnstructured W orig of
        Inl e \<Rightarrow> ([Failed (''converting '' @ key_String (key orig) @ '': '' @ e)], w)
      | Inr (ostatus, orest) \<Rightarrow>
          (case ToUnstructured W obj of
             Inl e \<Rightarrow> ([Failed (''converting '' @ key_String (key obj) @ '': '' @ e)], w)
           | Inr (status, rest) \<Rightarrow>
               (case write_part (\<not> DeepEqual W ostatus status) (Status_Patch W)
                       (''patching the status of '' @ key_String (key obj) @ '': '') obj orig w of (e1, w1) \<Rightarrow>
                  case write_part (\<not> DeepEqual W orest rest) (Object_Patch W)
                         (''patching '' @ key_String (key obj) @ '': '') obj orig w1 of (e2, w2) \<Rightarrow>
                    (e1 @ e2, w2))))"

subsection \<open>Frame facts\<close>

lemma upd_pstatus_simps [simp]:
  "pstatus (upd_pstatus f s) = f (pstatus s)" "pmeta (upd_pstatus f s) = pmeta s" "pspec (upd_pstatus f s) = pspec s"
  "po_Original (upd_pstatus f s) = po_Original s" "refusal (upd_pstatus f s) = refusal s"
  "po_held (upd_pstatus f s) = po_held s" "po_hosts (upd_pstatus f s) = po_hosts s" "sent (upd_pstatus f s) = sent s"
  "notFilling (upd_pstatus f s) = notFilling s" "Stalls (upd_pstatus f s) = Stalls s"
  "po_World (upd_pstatus f s) = po_World s"
  by (simp_all add: upd_pstatus_def)

lemma upd_pmeta_simps [simp]:
  "pstatus (upd_pmeta f s) = pstatus s" "pmeta (upd_pmeta f s) = f (pmeta s)" "pspec (upd_pmeta f s) = pspec s"
  "po_Original (upd_pmeta f s) = po_Original s" "refusal (upd_pmeta f s) = refusal s"
  "po_held (upd_pmeta f s) = po_held s" "po_hosts (upd_pmeta f s) = po_hosts s" "sent (upd_pmeta f s) = sent s"
  "notFilling (upd_pmeta f s) = notFilling s" "Stalls (upd_pmeta f s) = Stalls s"
  "po_World (upd_pmeta f s) = po_World s"
  by (simp_all add: upd_pmeta_def)

lemma setCondition_simps [simp]:
  "pmeta (setCondition E t k r m s) = pmeta s" "pspec (setCondition E t k r m s) = pspec s"
  "vst_ObservedGeneration (pstatus (setCondition E t k r m s)) = vst_ObservedGeneration (pstatus s)"
  "vst_Available (pstatus (setCondition E t k r m s)) = vst_Available (pstatus s)"
  "vst_Leased (pstatus (setCondition E t k r m s)) = vst_Leased (pstatus s)"
  "vst_Provisioning (pstatus (setCondition E t k r m s)) = vst_Provisioning (pstatus s)"
  "vst_Quarantined (pstatus (setCondition E t k r m s)) = vst_Quarantined (pstatus s)"
  "po_Original (setCondition E t k r m s) = po_Original s" "refusal (setCondition E t k r m s) = refusal s"
  "po_held (setCondition E t k r m s) = po_held s" "po_hosts (setCondition E t k r m s) = po_hosts s"
  "sent (setCondition E t k r m s) = sent s" "notFilling (setCondition E t k r m s) = notFilling s"
  "Stalls (setCondition E t k r m s) = Stalls s"
  "po_World (setCondition E t k r m s) = snd (pe_Now E (po_World s))"
  by (simp_all add: setCondition_def split: prod.splits)

lemma set_counts_simps [simp]:
  "vst_ObservedGeneration (set_counts c st) = vst_ObservedGeneration st" "vst_Conditions (set_counts c st) = vst_Conditions st"
  "vst_Available (set_counts c st) = st_Available c" "vst_Leased (set_counts c st) = st_Leased c"
  "vst_Provisioning (set_counts c st) = st_Provisioning c" "vst_Quarantined (set_counts c st) = st_Quarantined c"
  by (simp_all add: set_counts_def)

end
