(* ===== verification/PoolSteps.thy ===== *)
theory PoolSteps
  imports PoolTypes
begin

section \<open>The Pool Controller's subreconcilers\<close>

text \<open>
  One definition per subreconciler, in the order \<open>poolChain\<close> runs them: deletion
  (\<open>pool_deletion.go\<close>), the finalizer, declaration, update and rejection
  (\<open>pool_subreconcilers.go\<close>), placement (\<open>pool_placement.go\<close>), stalls (\<open>pool_stall.go\<close>) and the status
  (\<open>pool_status.go\<close>); then \<open>PoolReconciler.Reconcile\<close>, and what turns battery's events and the
  changes of Nodes into reconciles (\<open>pool_events.go\<close>, \<open>pool_hook_events.go\<close>). Logging is left
  out.
\<close>

definition PoolFinalizer :: string where "PoolFinalizer = ''battery.liquidmetal-x.dev/pool''"

definition PoolReasonRejected :: string where "PoolReasonRejected = ''Rejected''"
definition PoolReasonDeletionBlocked :: string where "PoolReasonDeletionBlocked = ''DeletionBlocked''"
definition PoolReasonAtSize :: string where "PoolReasonAtSize = ''AtSize''"
definition PoolReasonBelowSize :: string where "PoolReasonBelowSize = ''BelowSize''"
definition PoolReasonNotFilling :: string where "PoolReasonNotFilling = ''NotFilling''"
definition PoolReasonNotInBattery :: string where "PoolReasonNotInBattery = ''NotInBattery''"
definition PoolReasonNoEligibleHost :: string where "PoolReasonNoEligibleHost = ''NoEligibleHost''"
definition PoolReasonNoneAvailable :: string where "PoolReasonNoneAvailable = ''NoneAvailable''"
definition PoolReasonAvailable :: string where "PoolReasonAvailable = ''Available''"
definition PoolReasonSizeZero :: string where "PoolReasonSizeZero = ''SizeZero''"

definition apostrophe :: string where "apostrophe = [CHR 0x27]"

subsection \<open>Deletion\<close>

definition drainedMinSize :: int where "drainedMinSize = 1"

definition drainedSpec :: "PoolSpec \<Rightarrow> PoolSpec" where
  "drainedSpec sp =
     sp\<lparr>ps_Size := 0, ps_Replenishment := \<lparr>rs_Type = MIN_SIZE_THRESHOLD, rs_MinSize = Some drainedMinSize\<rparr>\<rparr>"

definition isDrainedSpec :: "PoolSpec \<Rightarrow> bool" where
  "isDrainedSpec sp \<longleftrightarrow>
     ps_Size sp = 0 \<and> rs_Type (ps_Replenishment sp) = MIN_SIZE_THRESHOLD \<and>
     rs_MinSize (ps_Replenishment sp) = Some drainedMinSize"

definition setDeletionCounts :: "PoolStatus \<Rightarrow> 'w poolScope \<Rightarrow> 'w poolScope" where
  "setDeletionCounts counts s = upd_pstatus (set_counts counts) s"

definition releasePool :: "'w pool_env \<Rightarrow> 'w poolScope \<Rightarrow> 'w poolScope" where
  "releasePool E s =
     upd_pmeta (\<lambda>m. m\<lparr>om_Finalizers := RemoveFinalizer (pe_kube E) (om_Finalizers m) PoolFinalizer\<rparr>) s"

definition reportRefusal ::
  "'w pool_env \<Rightarrow> PoolRef \<Rightarrow> PoolStatus \<Rightarrow> 'w poolScope \<Rightarrow> 'w poolScope \<times> Result \<times> reconcile_error list" where
  "reportRefusal E ref st s =
     (setCondition E PoolConditionReady ConditionFalse PoolReasonDeletionBlocked
        (''battery holds '' @ show_int (st_Leased st) @
         '' leased MicroVMs of the Pool, and deletes the Pool with its other MicroVMs once they are gone: '' @
         ''a leased MicroVM goes when its claim is released or its Lease expires'')
        (setDeletionCounts st s),
      stop_result,
      [SentinelFailed (''battery refused to delete Pool '' @ PoolRef_String ref @ '': '' @
                       show_int (st_Leased st) @ '' leased MicroVMs remain: '') ErrFailedPrecondition])"

definition poolDeletion :: "'w pool_step" where
  "poolDeletion E s =
     (if \<not> deleting (pmeta s) then (s, no_result, [])
      else if \<not> ContainsFinalizer (pe_kube E) (om_Finalizers (pmeta s)) PoolFinalizer then (s, stop_result, [])
      else
        (let ref = poolRef (po_Object s)
         in case DeletePool (pe_Battery E) ref (po_World s) of
              (None, w) \<Rightarrow> (releasePool E (s\<lparr>po_World := w\<rparr>), stop_result, [])
            | (Some e, w) \<Rightarrow>
                if errors_Is e ErrNotFound then (releasePool E (s\<lparr>po_World := w\<rparr>), stop_result, [])
                else if \<not> errors_Is e ErrFailedPrecondition
                then (s\<lparr>po_World := w\<rparr>, stop_result,
                      [BatteryFailed (''deleting Pool '' @ PoolRef_String ref @ '' from battery: '') e])
                else
                  (case GetPool (pe_Battery E) ref w of
                     (Inl e, w1) \<Rightarrow>
                       if errors_Is e ErrNotFound then (releasePool E (s\<lparr>po_World := w1\<rparr>), stop_result, [])
                       else (s\<lparr>po_World := w1\<rparr>, stop_result,
                             [BatteryFailed (''getting Pool '' @ PoolRef_String ref @ '' from battery: '') e])
                   | (Inr held, w1) \<Rightarrow>
                       if isDrainedSpec (pool_Spec held)
                       then reportRefusal E ref (pool_Status held) (s\<lparr>po_World := w1\<rparr>)
                       else
                         (case UpdatePool (pe_Battery E) (drainedSpec (pool_Spec held)) w1 of
                            (Inl e, w2) \<Rightarrow>
                              (case reportRefusal E ref (pool_Status held) (s\<lparr>po_World := w2\<rparr>) of
                                 (s1, res, errs) \<Rightarrow>
                                   (s1, res, BatteryFailed (''sending Pool '' @ PoolRef_String ref @ apostrophe @
                                               ''s drained spec to battery: '') e # errs))
                          | (Inr updated, w2) \<Rightarrow>
                              reportRefusal E ref (pool_Status updated) (s\<lparr>po_World := w2\<rparr>)))))"

subsection \<open>Placement and declaration\<close>

definition poolFinalizer :: "'w pool_step" where
  "poolFinalizer E = EnsureFinalizer (pe_kube E) PoolFinalizer pmeta (\<lambda>m. upd_pmeta (\<lambda>_. m))"

definition poolPlacement :: "'w pool_step" where
  "poolPlacement E s =
     (case Matching E (vps_NodeSelector (pspec s)) (po_World s) of
        (Inl ErrNotSynced, w) \<Rightarrow> (s\<lparr>po_World := w\<rparr>, stop_result, [])
      | (Inl (ListFailed e), w) \<Rightarrow>
          (s\<lparr>po_World := w\<rparr>, stop_result,
           [ApiFailed (''resolving the selector of Pool '' @ PoolRef_String (poolRef (po_Object s)) @
                       '': listing Nodes: '') e])
      | (Inr hosts, w) \<Rightarrow> (s\<lparr>po_World := w, po_hosts := hosts\<rparr>, no_result, []))"

text \<open>What both steps do once battery has accepted the Pool's specification.\<close>

definition accepted :: "Pool \<Rightarrow> 'w poolScope \<Rightarrow> 'w poolScope" where
  "accepted held s =
     (upd_pstatus (\<lambda>st. st\<lparr>vst_ObservedGeneration := om_Generation (pmeta s)\<rparr>) s)\<lparr>po_held := Some held, sent := True\<rparr>"

definition poolDeclaration :: "'w pool_step" where
  "poolDeclaration E s =
     (let ref = poolRef (po_Object s)
      in case GetPool (pe_Battery E) ref (po_World s) of
           (Inr held, w) \<Rightarrow> (s\<lparr>po_World := w, po_held := Some held\<rparr>, no_result, [])
         | (Inl e, w) \<Rightarrow>
             if \<not> errors_Is e ErrNotFound
             then (s\<lparr>po_World := w\<rparr>, stop_result,
                   [BatteryFailed (''getting Pool '' @ PoolRef_String ref @ '' from battery: '') e])
             else if \<not> ContainsFinalizer (pe_kube E) (om_Finalizers (vp_meta (po_Original s))) PoolFinalizer
             then (s\<lparr>po_World := w\<rparr>, stop_result, [])
             else
               (case CreatePool (pe_Battery E) (poolSpecToBattery (po_Object s) (po_hosts s)) w of
                  (Inr held, w1) \<Rightarrow> (accepted held (s\<lparr>po_World := w1\<rparr>), no_result, [])
                | (Inl e, w1) \<Rightarrow>
                    if errors_Is e ErrAlreadyExists then (s\<lparr>po_World := w1\<rparr>, no_result, [])
                    else if errors_Is e ErrInvalid
                    then (s\<lparr>po_World := w1, refusal := Some e\<rparr>, no_result, [])
                    else (s\<lparr>po_World := w1\<rparr>, stop_result,
                          [BatteryFailed (''creating Pool '' @ PoolRef_String ref @ '' in battery: '') e])))"

text \<open>The second half of \<open>poolUpdate\<close>, with the Pool as battery holds it.\<close>

definition sendUpdate :: "Pool \<Rightarrow> 'w pool_step" where
  "sendUpdate held E s =
     (let moved = (om_Generation (pmeta s) \<noteq> vst_ObservedGeneration (pstatus s));
          placed = (sort (ps_FlintlockHosts (pool_Spec held)) = po_hosts s)
      in if \<not> moved \<and> placed then (s, no_result, [])
         else
           (case UpdatePool (pe_Battery E) (poolSpecToBattery (po_Object s) (po_hosts s)) (po_World s) of
              (Inr held, w) \<Rightarrow> (accepted held (s\<lparr>po_World := w\<rparr>), no_result, [])
            | (Inl e, w) \<Rightarrow>
                if errors_Is e ErrInvalid then (s\<lparr>po_World := w, refusal := Some e\<rparr>, no_result, [])
                else (s\<lparr>po_World := w\<rparr>, stop_result,
                      [BatteryFailed (''updating Pool '' @ PoolRef_String (poolRef (po_Object s)) @ '' in battery: '') e])))"

definition poolUpdate :: "'w pool_step" where
  "poolUpdate E s =
     (if refusal s \<noteq> None then (s, no_result, [])
      else
        (case po_held s of
           Some held \<Rightarrow> sendUpdate held E s
         | None \<Rightarrow>
             (case GetPool (pe_Battery E) (poolRef (po_Object s)) (po_World s) of
                (Inr held, w) \<Rightarrow> sendUpdate held E (s\<lparr>po_World := w, po_held := Some held\<rparr>)
              | (Inl e, w) \<Rightarrow>
                  if errors_Is e ErrNotFound then (s\<lparr>po_World := w\<rparr>, no_result, [])
                  else (s\<lparr>po_World := w\<rparr>, stop_result,
                        [BatteryFailed (''getting Pool '' @ PoolRef_String (poolRef (po_Object s)) @
                                        '' from battery: '') e]))))"

subsection \<open>Rejection\<close>

definition TrimPrefix :: "string \<Rightarrow> string \<Rightarrow> string" where
  "TrimPrefix s pre = (if take (length pre) s = pre then drop (length pre) s else s)"

definition batteryMessage :: "battery_error \<Rightarrow> sentinel \<Rightarrow> string" where
  "batteryMessage err k = TrimPrefix (Error err) (sentinel_text k @ '': '')"

definition poolRejection :: "'w pool_step" where
  "poolRejection E s =
     (case refusal s of
        None \<Rightarrow>
          (case FindStatusCondition (pe_kube E) (vst_Conditions (pstatus s)) PoolConditionReady of
             None \<Rightarrow> (s, no_result, [])
           | Some ready \<Rightarrow>
               if cond_Reason ready = PoolReasonRejected
               then (upd_pstatus (\<lambda>st. st\<lparr>vst_Conditions :=
                       RemoveStatusCondition (pe_kube E) (vst_Conditions st) PoolConditionReady\<rparr>) s, no_result, [])
               else (s, no_result, []))
      | Some err \<Rightarrow>
          (setCondition E PoolConditionReady ConditionFalse PoolReasonRejected (batteryMessage err ErrInvalid) s,
           no_result, []))"

subsection \<open>Stalls\<close>

text \<open>\<open>poolShortfall\<close> computes on \<open>int32\<close>. It reads \<open>s.held\<close>, which the caller has found not nil.\<close>

definition poolShortfall :: "PoolStatus \<Rightarrow> v1_PoolSpec \<Rightarrow> int option" where
  "poolShortfall st sp =
     (case vrs_Type (vps_Replenishment sp) of
        ReplenishImmediateOnLease \<Rightarrow> Some (int32 (vps_Size sp - st_Available st))
      | ReplenishReplaceOnDelete \<Rightarrow> Some (int32 (vps_Size sp - int32 (st_Available st + st_Leased st)))
      | _ \<Rightarrow> None)"

definition poolStall :: "'w pool_step" where
  "poolStall E s =
     (case Stalls s of
        None \<Rightarrow> (s, no_result, [])
      | Some r \<Rightarrow>
          (let key = ObjectKeyFromObject (pmeta s);
               forgotten = (s\<lparr>Stalls := Some (forget key r)\<rparr>, no_result, [])
           in case po_held s of
                None \<Rightarrow> forgotten
              | Some held \<Rightarrow>
                  if refusal s \<noteq> None \<or> po_hosts s = [] \<or>
                     om_Generation (pmeta s) \<noteq> vst_ObservedGeneration (pstatus s) then forgotten
                  else
                    (case poolShortfall (pool_Status held) (pspec s) of
                       None \<Rightarrow> forgotten
                     | Some shortfall \<Rightarrow>
                         if shortfall \<le> 0 then forgotten
                         else
                           (case pe_Now E (po_World s) of (now, w) \<Rightarrow>
                              case observe key shortfall (st_Provisioning (pool_Status held) = 0) now r of
                                ((nf, after), r1) \<Rightarrow>
                                  (s\<lparr>po_World := w, Stalls := Some r1, notFilling := nf\<rparr>,
                                   if after > 0 then requeue after else no_result, [])))))"

subsection \<open>Status\<close>

definition zero_counts :: PoolStatus where
  "zero_counts = \<lparr>st_Available = 0, st_Leased = 0, st_Provisioning = 0, st_Quarantined = 0\<rparr>"

definition poolCounts :: "'w pool_step" where
  "poolCounts E s =
     (let copy = (\<lambda>s. (upd_pstatus (set_counts (case po_held s of None \<Rightarrow> zero_counts | Some held \<Rightarrow> pool_Status held)) s,
                       no_result, []))
      in if po_held s = None \<and> refusal s = None
         then (case GetPool (pe_Battery E) (poolRef (po_Object s)) (po_World s) of
                 (Inr held, w) \<Rightarrow> copy (s\<lparr>po_World := w, po_held := Some held\<rparr>)
               | (Inl e, w) \<Rightarrow>
                   if \<not> errors_Is e ErrNotFound
                   then (s\<lparr>po_World := w\<rparr>, stop_result,
                         [BatteryFailed (''getting Pool '' @ PoolRef_String (poolRef (po_Object s)) @
                                         '' from battery: '') e])
                   else copy (s\<lparr>po_World := w\<rparr>))
         else copy s)"

definition poolExhaustion :: "'w pool_step" where
  "poolExhaustion E s =
     (if vps_Size (pspec s) \<le> 0
      then setCondition E PoolConditionExhausted ConditionFalse PoolReasonSizeZero
             (''The Pool'' @ apostrophe @ ''s size is zero'') s
      else if vst_Available (pstatus s) = 0
      then setCondition E PoolConditionExhausted ConditionTrue PoolReasonNoneAvailable
             ''battery reports no available MicroVM'' s
      else setCondition E PoolConditionExhausted ConditionFalse PoolReasonAvailable
             (''battery reports '' @ show_int (vst_Available (pstatus s)) @ '' available MicroVMs'') s,
      no_result, [])"

definition countOf :: "int \<Rightarrow> string \<Rightarrow> string" where
  "countOf n noun = (if n = 1 then ''1 '' @ noun else show_int n @ '' '' @ noun @ ''s'')"

definition notFillingMessage :: "poolNotFilling \<Rightarrow> string" where
  "notFillingMessage nf =
     ''The Pool has been '' @ countOf (nf_shortfall nf) ''MicroVM'' @ '' short since '' @ format_rfc3339 (nf_since nf) @
     ''. battery does not report why provisioning fails: see the log of the battery container''"

text \<open>The sum of the counts is an \<open>int32\<close> too.\<close>

definition pool_total :: "v1_PoolStatus \<Rightarrow> int" where
  "pool_total st = int32 (int32 (vst_Available st + vst_Leased st) + vst_Provisioning st)"

definition of_size_message :: "int \<Rightarrow> int \<Rightarrow> string" where
  "of_size_message n sz =
     show_int n @ '' of '' @ show_int sz @ '' MicroVMs are available, leased or provisioning''"

definition poolReadiness :: "'w pool_step" where
  "poolReadiness E s =
     (if refusal s \<noteq> None then (s, no_result, [])
      else
        (let n = pool_total (pstatus s); sz = vps_Size (pspec s)
         in (if po_hosts s = []
             then setCondition E PoolConditionReady ConditionFalse PoolReasonNoEligibleHost
                    (''The Pool'' @ apostrophe @ ''s node selector matches no Host'') s
             else if po_held s = None
             then setCondition E PoolConditionReady ConditionFalse PoolReasonNotInBattery
                    ''battery does not hold the Pool'' s
             else if n < sz
             then (case notFilling s of
                     Some nf \<Rightarrow> setCondition E PoolConditionReady ConditionFalse PoolReasonNotFilling
                                 (notFillingMessage nf) s
                   | None \<Rightarrow> setCondition E PoolConditionReady ConditionFalse PoolReasonBelowSize
                               (of_size_message n sz) s)
             else setCondition E PoolConditionReady ConditionTrue PoolReasonAtSize (of_size_message n sz) s,
             no_result, [])))"

subsection \<open>The chain and the reconcile\<close>

definition poolChain :: "'w pool_env \<Rightarrow> ('w poolScope, reconcile_error) Chain" where
  "poolChain E =
     \<lparr>Steps = [poolDeletion E, poolFinalizer E, poolPlacement E, poolDeclaration E, poolUpdate E,
               poolRejection E, poolStall E, poolCounts E, poolExhaustion E, poolReadiness E],
      Finally = []\<rparr>"

text \<open>
  \<open>PoolReconciler.Reconcile\<close>. Its memory of stalls is shared by every reconcile, under a lock;
  the work queue runs one reconcile of a Pool at a time, and a reconcile only touches the
  entry of its own Pool. An error drops the result, as controller-runtime does.
\<close>

definition pool_Reconcile ::
  "'w pool_env \<Rightarrow> (key \<Rightarrow> 'w \<Rightarrow> (api_error + v1_Pool) \<times> 'w) \<Rightarrow> (v1_Pool, 'u, 'w) object_writer \<Rightarrow>
   key \<Rightarrow> poolStalls \<Rightarrow> 'w \<Rightarrow> (poolStalls \<times> duration \<times> reconcile_error list) \<times> 'w" where
  "pool_Reconcile E Client_Get W req stalls w =
     (case Client_Get req w of
        (Inl e, w1) \<Rightarrow>
          (if IsNotFound e then ((forget req stalls, 0, []), w1) else ((stalls, 0, [ApiFailed [] e]), w1))
      | (Inr pool, w1) \<Rightarrow>
          (case Run (poolChain E) (newPoolScope pool (Some stalls) w1) of (s, res, chainErr) \<Rightarrow>
             case Scope_Patch W (\<lambda>p. ObjectKeyFromObject (vp_meta p)) (po_Object s) (po_Original s) (po_World s) of
               (patchErr, w2) \<Rightarrow>
                 let errs = chainErr @ patchErr
                 in ((case Stalls s of None \<Rightarrow> stalls | Some r \<Rightarrow> r,
                      if errs \<noteq> [] then 0 else RequeueAfter res, errs), w2)))"

subsection \<open>What brings a Pool back\<close>

definition everyPool :: "api_error + v1_Pool list \<Rightarrow> key list" where
  "everyPool listed =
     (case listed of Inl _ \<Rightarrow> [] | Inr pools \<Rightarrow> map (\<lambda>p. ObjectKeyFromObject (vp_meta p)) pools)"

text \<open>\<open>nodeLabelsChanged\<close> on an update.\<close>

definition nodeLabelsChanged :: "ObjectMeta \<Rightarrow> ObjectMeta \<Rightarrow> bool" where
  "nodeLabelsChanged old new \<longleftrightarrow> om_Labels old \<noteq> om_Labels new"

text \<open>
  One turn of \<open>hostsChangedSource\<close>: it takes the channel, which is the count of the changes so
  far, before it looks whether the set is published, and gives the Pools it enqueues and the
  channel it then waits on. \<open>look\<close> is a reading of the set and \<open>list\<close> one of the Pools.
\<close>

definition hostsChangedSource_turn ::
  "('w \<Rightarrow> HostSet \<times> 'w) \<Rightarrow> ('w \<Rightarrow> (api_error + v1_Pool list) \<times> 'w) \<Rightarrow> 'w \<Rightarrow> (key list \<times> nat) \<times> 'w" where
  "hostsChangedSource_turn look list w =
     (case look w of (h, w1) \<Rightarrow>
        case look w1 of (h', w2) \<Rightarrow>
          if hs_synced h' then (case list w2 of (pools, w3) \<Rightarrow> ((everyPool pools, hs_changed h), w3))
          else (([], hs_changed h), w2))"

text \<open>
  \<open>poolHookEvents\<close>: the last event id recorded for each Pool's uid. \<open>record_hook\<close> is its
  handler: it gives the Kubernetes Event it records, the Pool's uid and the message, or none.
  \<open>parse\<close> reads the payload's hook and error, empty where it gives none.
\<close>

type_synonym recorded = "string \<rightharpoonup> int"

definition first :: "string \<Rightarrow> int \<Rightarrow> recorded \<Rightarrow> bool \<times> recorded" where
  "first uid i rec =
     (case rec uid of
        Some prev \<Rightarrow> if i \<le> prev then (False, rec) else (True, rec(uid \<mapsto> i))
      | None \<Rightarrow> (True, rec(uid \<mapsto> i)))"

definition hookFailedNote :: "(string \<Rightarrow> string \<times> string) \<Rightarrow> Event \<Rightarrow> string" where
  "hookFailedNote parse ev =
     (let (hook, err) = (if ev_Payload ev = [] then ([], []) else parse (ev_Payload ev));
          msg = (if hook = [] then ''A hook'' else ''The '' @ hook @ '' hook'') @ '' failed on MicroVM '' @ ev_VMUID ev
      in if err \<noteq> [] then msg @ '': '' @ err
         else msg @ ''; battery does not report why: see the log of the battery container'')"

definition record_hook ::
  "(string \<Rightarrow> string \<times> string) \<Rightarrow> (key \<Rightarrow> api_error + v1_Pool) \<Rightarrow> Event \<Rightarrow> recorded \<Rightarrow>
   (string \<times> string) option \<times> recorded" where
  "record_hook parse getPool ev rec =
     (if ev_Type ev \<noteq> VM_HOOK_FAILED \<or> ref_Name (ev_Pool ev) = [] then (None, rec)
      else
        (case getPool (ref_Namespace (ev_Pool ev), ref_Name (ev_Pool ev)) of
           Inl _ \<Rightarrow> (None, rec)
         | Inr pool \<Rightarrow>
             (case first (om_UID (vp_meta pool)) (ev_ID ev) rec of
                (False, rec1) \<Rightarrow> (None, rec1)
              | (True, rec1) \<Rightarrow> (Some (om_UID (vp_meta pool), hookFailedNote parse ev), rec1))))"

text \<open>
  \<open>poolEvents.handle\<close> gives the Kubernetes Event it records and the Pool it enqueues, and
  \<open>resync\<close> every Pool. The memory is None without a recorder, \<open>room\<close> is how many sends the
  context lets through, None when it is never done.
\<close>

definition pool_handle ::
  "(string \<Rightarrow> string \<times> string) \<Rightarrow> (key \<Rightarrow> api_error + v1_Pool) \<Rightarrow> nat option \<Rightarrow> Event \<Rightarrow> recorded option \<Rightarrow>
   ((string \<times> string) option \<times> key list) \<times> recorded option" where
  "pool_handle parse getPool room ev hooks =
     (if ref_Name (ev_Pool ev) = [] then ((None, []), hooks)
      else
        (let (k8s, hooks1) = (case hooks of
                                None \<Rightarrow> (None, None)
                              | Some rec \<Rightarrow> (case record_hook parse getPool ev rec of (e, rec1) \<Rightarrow> (e, Some rec1)))
         in ((k8s, if room = Some 0 then [] else [(ref_Namespace (ev_Pool ev), ref_Name (ev_Pool ev))]), hooks1)))"

definition pool_resync :: "nat option \<Rightarrow> api_error + v1_Pool list \<Rightarrow> key list" where
  "pool_resync room listed =
     (case listed of
        Inl _ \<Rightarrow> []
      | Inr pools \<Rightarrow>
          (let keys = map (\<lambda>p. ObjectKeyFromObject (vp_meta p)) pools
           in case room of None \<Rightarrow> keys | Some n \<Rightarrow> take n keys))"

end
