(* ===== verification/PoolFacts.thy ===== *)
theory PoolFacts
  imports PoolSteps ClaimCalls
begin

section \<open>What a reconcile of a Pool exchanges with battery\<close>

text \<open>
  \<open>pool_logged E\<close> is the environment \<open>E\<close> with every call to battery recorded together with
  battery's answer. The facts about a reconcile are read off that record: what the scope knows
  of battery is what battery answered, and what the controller sends follows from it.
\<close>

subsection \<open>The record\<close>

datatype pool_exchange =
  GetX PoolRef "battery_error + Pool" | CreateX PoolSpec "battery_error + Pool"
| UpdateX PoolSpec "battery_error + Pool" | DeleteX PoolRef "battery_error option" | OtherX

definition recording :: "('a \<Rightarrow> 'l) \<Rightarrow> ('w \<Rightarrow> 'a \<times> 'w) \<Rightarrow> 'w \<times> 'l list \<Rightarrow> 'a \<times> 'w \<times> 'l list" where
  "recording x f wl = (fst (f (fst wl)), snd (f (fst wl)), snd wl @ [x (fst (f (fst wl)))])"

definition recorded_battery :: "'w battery_client \<Rightarrow> ('w \<times> pool_exchange list) battery_client" where
  "recorded_battery B =
     \<lparr>CreatePool = (\<lambda>p. recording (CreateX p) (CreatePool B p)), UpdatePool = (\<lambda>p. recording (UpdateX p) (UpdatePool B p)),
      DeletePool = (\<lambda>p. recording (DeleteX p) (DeletePool B p)), GetPool = (\<lambda>p. recording (GetX p) (GetPool B p)),
      ListPools = (\<lambda>n. recording (\<lambda>_. OtherX) (ListPools B n)),
      ClaimVM = (\<lambda>p rid. recording (\<lambda>_. OtherX) (ClaimVM B p rid)),
      Heartbeat = (\<lambda>lid. recording (\<lambda>_. OtherX) (Heartbeat B lid)),
      ReleaseVM = (\<lambda>lid. recording (\<lambda>_. OtherX) (ReleaseVM B lid)),
      ListLeases = (\<lambda>p. recording (\<lambda>_. OtherX) (ListLeases B p))\<rparr>"

definition pool_logged :: "'w pool_env \<Rightarrow> ('w \<times> pool_exchange list) pool_env" where
  "pool_logged E =
     \<lparr>pe_kube = pe_kube E, pe_Battery = recorded_battery (pe_Battery E),
      Matching = (\<lambda>sel. unlogged (Matching E sel)), pe_Now = unlogged (pe_Now E)\<rparr>"

lemma recording_eq: "recording x f wl = (a, w, l) \<longleftrightarrow> f (fst wl) = (a, w) \<and> l = snd wl @ [x a]"
  by (cases "f (fst wl)") (auto simp: recording_def)

lemma unlogged_eq: "unlogged f wl = (a, w, l) \<longleftrightarrow> f (fst wl) = (a, w) \<and> l = snd wl"
  by (cases "f (fst wl)") (auto simp: unlogged_def)

lemma snd_recording [simp]: "snd (snd (recording x f wl)) = snd wl @ [x (fst (f (fst wl)))]"
  "fst (recording x f wl) = fst (f (fst wl))"
  by (simp_all add: recording_def)

lemma pool_logged_simps [simp]:
  "pe_kube (pool_logged E) = pe_kube E" "pe_Battery (pool_logged E) = recorded_battery (pe_Battery E)"
  "Matching (pool_logged E) sel = unlogged (Matching E sel)" "pe_Now (pool_logged E) = unlogged (pe_Now E)"
  "CreatePool (recorded_battery B) p = recording (CreateX p) (CreatePool B p)"
  "UpdatePool (recorded_battery B) p = recording (UpdateX p) (UpdatePool B p)"
  "DeletePool (recorded_battery B) r = recording (DeleteX r) (DeletePool B r)"
  "GetPool (recorded_battery B) r = recording (GetX r) (GetPool B r)"
  by (simp_all add: pool_logged_def recorded_battery_def)

abbreviation XLog :: "('w \<times> pool_exchange list) poolScope \<Rightarrow> pool_exchange list" where
  "XLog s \<equiv> snd (po_World s)"

subsection \<open>Reading the record\<close>

text \<open>The Pool as battery last answered for it, the refusal, and whether battery accepted a specification.\<close>

fun answered_pool :: "pool_exchange \<Rightarrow> Pool option" where
  "answered_pool (GetX r (Inr p)) = Some p"
| "answered_pool (CreateX sp (Inr p)) = Some p"
| "answered_pool (UpdateX sp (Inr p)) = Some p"
| "answered_pool x = None"

fun refused :: "pool_exchange \<Rightarrow> battery_error option" where
  "refused (CreateX sp (Inl e)) = (if errors_Is e ErrInvalid then Some e else None)"
| "refused (UpdateX sp (Inl e)) = (if errors_Is e ErrInvalid then Some e else None)"
| "refused x = None"

fun accepts :: "pool_exchange \<Rightarrow> bool" where
  "accepts (CreateX sp (Inr p)) \<longleftrightarrow> True"
| "accepts (UpdateX sp (Inr p)) \<longleftrightarrow> True"
| "accepts x \<longleftrightarrow> False"

fun is_update :: "pool_exchange \<Rightarrow> bool" where
  "is_update (UpdateX sp a) \<longleftrightarrow> True"
| "is_update x \<longleftrightarrow> False"

fun last_Some :: "('a \<Rightarrow> 'b option) \<Rightarrow> 'a list \<Rightarrow> 'b option" where
  "last_Some f [] = None"
| "last_Some f (x # xs) = (case last_Some f xs of Some y \<Rightarrow> Some y | None \<Rightarrow> f x)"

lemma last_Some_append [simp]:
  "last_Some f (xs @ [x]) = (case f x of Some y \<Rightarrow> Some y | None \<Rightarrow> last_Some f xs)"
  by (induction xs) (auto split: option.splits)

lemma last_Some_None: "last_Some f xs = None \<longleftrightarrow> \<not> list_ex (\<lambda>x. f x \<noteq> None) xs"
  by (induction xs) (auto split: option.splits)

text \<open>
  What may stand at a position of the record of a live Pool, after the exchanges \<open>before\<close>: a
  question about the Pool; its creation, once battery has said that it does not hold the Pool
  and the finalizer is stored; or an update, when battery's copy of the Pool is behind.
\<close>

definition behind :: "v1_Pool \<Rightarrow> string list \<Rightarrow> pool_exchange list \<Rightarrow> bool" where
  "behind c hosts before \<longleftrightarrow>
     (\<exists>held. last_Some answered_pool before = Some held \<and>
       (om_Generation (vp_meta c) \<noteq> vst_ObservedGeneration (vp_status c) \<and> \<not> list_ex accepts before \<or>
        sort (ps_FlintlockHosts (pool_Spec held)) \<noteq> hosts))"

fun allowed_exchange ::
  "kube_api \<Rightarrow> v1_Pool \<Rightarrow> string list \<Rightarrow> pool_exchange list \<Rightarrow> pool_exchange \<Rightarrow> bool" where
  "allowed_exchange K c hosts before (GetX r a) \<longleftrightarrow> r = poolRef c"
| "allowed_exchange K c hosts before (CreateX sp a) \<longleftrightarrow>
     sp = poolSpecToBattery c hosts \<and> ContainsFinalizer K (om_Finalizers (vp_meta c)) PoolFinalizer \<and>
     (\<exists>e. before = [GetX (poolRef c) (Inl e)] \<and> errors_Is e ErrNotFound)"
| "allowed_exchange K c hosts before (UpdateX sp a) \<longleftrightarrow>
     sp = poolSpecToBattery c hosts \<and> behind c hosts before \<and> \<not> list_ex is_update before"
| "allowed_exchange K c hosts before (DeleteX r a) \<longleftrightarrow> False"
| "allowed_exchange K c hosts before OtherX \<longleftrightarrow> False"

fun all_prefixes :: "('a list \<Rightarrow> 'a \<Rightarrow> bool) \<Rightarrow> 'a list \<Rightarrow> 'a list \<Rightarrow> bool" where
  "all_prefixes P before [] \<longleftrightarrow> True"
| "all_prefixes P before (x # xs) \<longleftrightarrow> P before x \<and> all_prefixes P (before @ [x]) xs"

lemma all_prefixes_append [simp]:
  "all_prefixes P before (xs @ [x]) \<longleftrightarrow> all_prefixes P before xs \<and> P (before @ xs) x"
  by (induction xs arbitrary: before) auto

text \<open>
  The invariant of the steps after the placement, on a live Pool \<open>c\<close> whose selector matches
  \<open>hosts\<close>: the object is \<open>c\<close> but for its status, and what the scope holds of battery is what
  the record says.
\<close>

definition declared :: "kube_api \<Rightarrow> v1_Pool \<Rightarrow> string list \<Rightarrow> ('w \<times> pool_exchange list) poolScope \<Rightarrow> bool" where
  "declared K c hosts s \<longleftrightarrow>
     pmeta s = vp_meta c \<and> pspec s = vp_spec c \<and> po_Original s = c \<and> po_hosts s = hosts \<and>
     po_held s = last_Some answered_pool (XLog s) \<and> refusal s = last_Some refused (XLog s) \<and>
     vst_ObservedGeneration (pstatus s) =
       (if list_ex accepts (XLog s) then om_Generation (vp_meta c) else vst_ObservedGeneration (vp_status c)) \<and>
     all_prefixes (allowed_exchange K c hosts) [] (XLog s)"

lemma poolRef_cong: "vp_meta p = vp_meta c \<Longrightarrow> poolRef p = poolRef c"
  by (simp add: poolRef_def)

lemma poolSpecToBattery_cong:
  "vp_meta p = vp_meta c \<Longrightarrow> vp_spec p = vp_spec c \<Longrightarrow> poolSpecToBattery p h = poolSpecToBattery c h"
  by (simp add: poolSpecToBattery_def poolRef_def)

lemma accepted_simps [simp]:
  "pmeta (accepted h s) = pmeta s" "pspec (accepted h s) = pspec s" "po_Original (accepted h s) = po_Original s"
  "po_hosts (accepted h s) = po_hosts s" "po_held (accepted h s) = Some h" "refusal (accepted h s) = refusal s"
  "po_World (accepted h s) = po_World s" "vst_ObservedGeneration (pstatus (accepted h s)) = om_Generation (pmeta s)"
  "vst_Conditions (pstatus (accepted h s)) = vst_Conditions (pstatus s)"
  "Stalls (accepted h s) = Stalls s" "notFilling (accepted h s) = notFilling s"
  by (simp_all add: accepted_def)

subsection \<open>The steps\<close>

text \<open>After the declaration, and what is then in the record.\<close>

definition pool_asked :: "pool_exchange list \<Rightarrow> bool" where
  "pool_asked l \<longleftrightarrow> l \<noteq> [] \<and> \<not> list_ex is_update l \<and> (last_Some refused l = None \<or> last_Some answered_pool l = None)"

lemma declared_declaration:
  assumes "declared (pe_kube E) c hosts s" "XLog s = []" "poolDeclaration (pool_logged E) s = (s', res, err)"
  shows "declared (pe_kube E) c hosts s'" and "pool_asked (XLog s')" and "Stalls s' = Stalls s" "notFilling s' = notFilling s"
    and "err = [] \<Longrightarrow> Stop res \<Longrightarrow> \<not> ContainsFinalizer (pe_kube E) (om_Finalizers (vp_meta c)) PoolFinalizer"
  using assms poolRef_cong [of "po_Object s" c] poolSpecToBattery_cong [of "po_Object s" c hosts]
  by (auto simp: declared_def pool_asked_def poolDeclaration_def recording_eq Let_def dest: errors_Is_unique
      split: prod.splits sum.splits if_splits)

lemma behind_held:
  assumes "declared K c hosts s" "po_held s = Some held"
  shows "behind c hosts (XLog s) \<longleftrightarrow>
    om_Generation (pmeta s) \<noteq> vst_ObservedGeneration (pstatus s) \<or> sort (ps_FlintlockHosts (pool_Spec held)) \<noteq> po_hosts s"
proof -
  have "last_Some answered_pool (XLog s) = Some held" using assms by (simp add: declared_def)
  then show ?thesis using assms(1) by (auto simp: declared_def behind_def)
qed

text \<open>Battery refused the Pool, its copy is not behind, or it has just been sent an update, which it accepted.\<close>

definition brought :: "'w pool_env \<Rightarrow> v1_Pool \<Rightarrow> string list \<Rightarrow> ('w \<times> pool_exchange list) poolScope \<Rightarrow> bool" where
  "brought E c hosts s \<longleftrightarrow> refusal s \<noteq> None \<or> \<not> behind c hosts (XLog s) \<or>
     (\<exists>xs p w w'. XLog s = xs @ [UpdateX (poolSpecToBattery c hosts) (Inr p)] \<and>
        UpdatePool (pe_Battery E) (poolSpecToBattery c hosts) w = (Inr p, w'))"

fun create_failed :: "pool_exchange \<Rightarrow> bool" where
  "create_failed (CreateX sp (Inl e)) \<longleftrightarrow> True"
| "create_failed x \<longleftrightarrow> False"

definition found :: "('w \<times> pool_exchange list) poolScope \<Rightarrow> bool" where
  "found s \<longleftrightarrow> po_held s \<noteq> None \<or> list_ex create_failed (XLog s)"

lemma found_declaration:
  assumes "poolDeclaration (pool_logged E) s = (s', res, [])" "\<not> Stop res"
  shows "found s'"
  using assms by (auto simp: found_def poolDeclaration_def recording_eq Let_def split: prod.splits sum.splits if_splits)

lemma found_sendUpdate: "found s \<Longrightarrow> found (fst (sendUpdate held (pool_logged E) s))"
  by (auto simp: found_def sendUpdate_def recording_eq Let_def split: prod.splits sum.splits)

lemma found_update: "found s \<Longrightarrow> found (fst (poolUpdate (pool_logged E) s))"
  by (auto simp: poolUpdate_def recording_eq intro!: found_sendUpdate split: prod.splits sum.splits option.splits)
    (auto simp: found_def)

lemma declared_sendUpdate:
  assumes d: "declared (pe_kube E) c hosts s" and no: "\<not> list_ex is_update (XLog s)" "refusal s = None"
    and held: "po_held s = Some held" and u: "sendUpdate held (pool_logged E) s = (s', res, err)"
  shows "declared (pe_kube E) c hosts s'" and "Stalls s' = Stalls s" "notFilling s' = notFilling s"
    and "err = [] \<Longrightarrow> brought E c hosts s'"
    and "err = [] \<Longrightarrow> \<not> Stop res"
proof -
  let ?thesis' = "declared (pe_kube E) c hosts s' \<and> Stalls s' = Stalls s \<and> notFilling s' = notFilling s \<and>
    (err = [] \<longrightarrow> (brought E c hosts s') \<and> \<not> Stop res)"
  have ?thesis'
  proof (cases "behind c hosts (XLog s)")
    case False
    then have "s' = s" "res = no_result" "err = []"
      using u behind_held [OF d held] by (auto simp: sendUpdate_def Let_def)
    then show ?thesis using d False by (simp add: brought_def)
  next
    case True
    let ?sp = "poolSpecToBattery (po_Object s) (po_hosts s)"
    have sp: "?sp = poolSpecToBattery c hosts"
      using poolSpecToBattery_cong [of "po_Object s" c hosts] d by (simp add: declared_def)
    obtain ans w l where g: "UpdatePool (pe_Battery (pool_logged E)) ?sp (po_World s) = (ans, w, l)"
      by (cases "UpdatePool (pe_Battery (pool_logged E)) ?sp (po_World s)")
    then have l: "l = XLog s @ [UpdateX ?sp ans]" and up: "UpdatePool (pe_Battery E) ?sp (fst (po_World s)) = (ans, w)"
      by (simp_all add: recording_eq)
    have ok: "all_prefixes (allowed_exchange (pe_kube E) c hosts) [] l"
      using d l sp True no by (simp add: declared_def)
    show ?thesis
    proof (cases ans)
      case (Inr h)
      then have "s' = accepted h (s\<lparr>po_World := (w, l)\<rparr>)" "res = no_result" "err = []"
        using u g True behind_held [OF d held] by (auto simp: sendUpdate_def Let_def)
      moreover have "brought E c hosts s'" using calculation l up Inr unfolding brought_def sp by auto
      ultimately show ?thesis using d Inr ok l by (simp add: declared_def)
    next
      case (Inl e)
      show ?thesis
      proof (cases "errors_Is e ErrInvalid")
        case True
        then have "s' = s\<lparr>po_World := (w, l), refusal := Some e\<rparr>" "res = no_result" "err = []"
          using u g Inl \<open>behind c hosts (XLog s)\<close> behind_held [OF d held] by (auto simp: sendUpdate_def Let_def)
        then show ?thesis using d Inl ok l True by (simp add: declared_def brought_def)
      next
        case False
        then have "s' = s\<lparr>po_World := (w, l)\<rparr>" "err \<noteq> []"
          using u g Inl \<open>behind c hosts (XLog s)\<close> behind_held [OF d held] by (auto simp: sendUpdate_def Let_def)
        then show ?thesis using d Inl ok l False by (simp add: declared_def)
      qed
    qed
  qed
  then show "declared (pe_kube E) c hosts s'" "Stalls s' = Stalls s" "notFilling s' = notFilling s"
    "err = [] \<Longrightarrow> brought E c hosts s'" "err = [] \<Longrightarrow> \<not> Stop res"
    by blast+
qed

lemma declared_update:
  assumes d: "declared (pe_kube E) c hosts s" and a: "pool_asked (XLog s)" and u: "poolUpdate (pool_logged E) s = (s', res, err)"
  shows "declared (pe_kube E) c hosts s'" "Stalls s' = Stalls s" "notFilling s' = notFilling s"
    and "err = [] \<Longrightarrow> brought E c hosts s'" and "err = [] \<Longrightarrow> \<not> Stop res"
proof -
  let ?thesis' = "declared (pe_kube E) c hosts s' \<and> Stalls s' = Stalls s \<and> notFilling s' = notFilling s \<and>
    (err = [] \<longrightarrow> (brought E c hosts s') \<and> \<not> Stop res)"
  have no: "\<not> list_ex is_update (XLog s)" using a by (simp add: pool_asked_def)
  have held: "last_Some answered_pool (XLog s) = po_held s" "last_Some refused (XLog s) = refusal s"
    using d by (simp_all add: declared_def)
  have ?thesis'
  proof (cases "refusal s")
    case (Some e)
    then have "s' = s" "res = no_result" "err = []" using u by (simp_all add: poolUpdate_def)
    moreover have "\<not> behind c hosts (XLog s)" using a Some held by (simp add: pool_asked_def behind_def)
    ultimately show ?thesis using d by (simp add: brought_def)
  next
    case None
    show ?thesis
    proof (cases "po_held s")
      case (Some h)
      then have v: "sendUpdate h (pool_logged E) s = (s', res, err)" using u None by (simp add: poolUpdate_def)
      show ?thesis using declared_sendUpdate [OF d no None Some v] by blast
    next
      case held_None: None
      obtain ans w l where g: "GetPool (pe_Battery (pool_logged E)) (poolRef (po_Object s)) (po_World s) = (ans, w, l)"
        by (cases "GetPool (pe_Battery (pool_logged E)) (poolRef (po_Object s)) (po_World s)")
      then have l: "l = XLog s @ [GetX (poolRef (po_Object s)) ans]" by (simp add: recording_eq)
      have r: "poolRef (po_Object s) = poolRef c" using d by (intro poolRef_cong) (simp add: declared_def)
      show ?thesis
      proof (cases ans)
        case (Inr h)
        let ?s = "s\<lparr>po_World := (w, l), po_held := Some h\<rparr>"
        have v: "sendUpdate h (pool_logged E) ?s = (s', res, err)"
          using u None held_None g Inr by (simp add: poolUpdate_def)
        have 1: "declared (pe_kube E) c hosts ?s" using d Inr l r by (simp add: declared_def)
        have 2: "\<not> list_ex is_update (XLog ?s)" "refusal ?s = None" "po_held ?s = Some h" using no l None by simp_all
        have 3: "Stalls ?s = Stalls s" "notFilling ?s = notFilling s" by simp_all
        show ?thesis using declared_sendUpdate [OF 1 2 v] unfolding 3 by blast
      next
        case (Inl e)
        then have "s' = s\<lparr>po_World := (w, l)\<rparr>" "err = [] \<longrightarrow> \<not> Stop res"
          using u None held_None g by (auto simp: poolUpdate_def split: if_splits)
        moreover have "declared (pe_kube E) c hosts (s\<lparr>po_World := (w, l)\<rparr>)" using d Inl l r by (simp add: declared_def)
        moreover have "\<not> behind c hosts l" using l Inl held held_None by (simp add: behind_def)
        ultimately show ?thesis by (simp add: brought_def)
      qed
    qed
  qed
  then show "declared (pe_kube E) c hosts s'" "Stalls s' = Stalls s" "notFilling s' = notFilling s"
    "err = [] \<Longrightarrow> brought E c hosts s'" "err = [] \<Longrightarrow> \<not> Stop res"
    by blast+
qed

text \<open>The steps that follow set conditions, counts and the memory of stalls.\<close>

lemma declared_frame:
  "declared K c hosts s \<Longrightarrow> pmeta s' = pmeta s \<Longrightarrow> pspec s' = pspec s \<Longrightarrow> po_Original s' = po_Original s \<Longrightarrow>
   po_hosts s' = po_hosts s \<Longrightarrow> po_held s' = po_held s \<Longrightarrow> refusal s' = refusal s \<Longrightarrow> XLog s' = XLog s \<Longrightarrow>
   vst_ObservedGeneration (pstatus s') = vst_ObservedGeneration (pstatus s) \<Longrightarrow> declared K c hosts s'"
  by (simp add: declared_def)

lemma declared_setCondition: "declared K c hosts s \<Longrightarrow> declared K c hosts (setCondition (pool_logged E) t k r m s)"
  by (rule declared_frame) simp_all

lemma declared_rejection: "declared K c hosts s \<Longrightarrow> declared K c hosts (fst (poolRejection (pool_logged E) s))"
  by (auto simp: poolRejection_def intro: declared_setCondition elim: declared_frame split: option.splits)

lemma declared_stall: "declared K c hosts s \<Longrightarrow> declared K c hosts (fst (poolStall (pool_logged E) s))"
  by (auto simp: poolStall_def Let_def unlogged_eq elim!: declared_frame split: option.splits prod.splits)

lemma declared_counts:
  assumes d: "declared K c hosts s"
  shows "declared K c hosts (fst (poolCounts (pool_logged E) s))"
proof (cases "po_held s = None \<and> refusal s = None")
  case False
  then have "fst (poolCounts (pool_logged E) s) =
      upd_pstatus (set_counts (case po_held s of None \<Rightarrow> zero_counts | Some held \<Rightarrow> pool_Status held)) s"
    by (auto simp: poolCounts_def Let_def)
  then show ?thesis using d by (auto elim!: declared_frame)
next
  case True
  obtain ans w l where g: "GetPool (pe_Battery (pool_logged E)) (poolRef (po_Object s)) (po_World s) = (ans, w, l)"
    by (cases "GetPool (pe_Battery (pool_logged E)) (poolRef (po_Object s)) (po_World s)")
  then have l: "l = XLog s @ [GetX (poolRef (po_Object s)) ans]" by (simp add: recording_eq)
  have r: "poolRef (po_Object s) = poolRef c" using d by (intro poolRef_cong) (simp add: declared_def)
  show ?thesis
  proof (cases ans)
    case (Inl e)
    have "declared K c hosts (s\<lparr>po_World := (w, l)\<rparr>)" using d Inl l r by (simp add: declared_def)
    then show ?thesis using True g Inl by (auto simp: poolCounts_def Let_def elim!: declared_frame)
  next
    case (Inr h)
    have "declared K c hosts (s\<lparr>po_World := (w, l), po_held := Some h\<rparr>)" using d Inr l r by (simp add: declared_def)
    then show ?thesis using True g Inr by (auto simp: poolCounts_def Let_def elim!: declared_frame)
  qed
qed

lemma declared_exhaustion: "declared K c hosts s \<Longrightarrow> declared K c hosts (fst (poolExhaustion (pool_logged E) s))"
  by (simp add: poolExhaustion_def declared_setCondition)

lemma declared_readiness: "declared K c hosts s \<Longrightarrow> declared K c hosts (fst (poolReadiness (pool_logged E) s))"
  by (simp add: poolReadiness_def Let_def declared_setCondition split: option.split)

end
