(* ===== verification/PoolChain.thy ===== *)
theory PoolChain
  imports PoolFacts
begin

section \<open>The chain of the Pool Controller\<close>

text \<open>
  What a whole reconcile of a Pool exchanges and leaves: one lemma for a Pool that is being
  deleted, one for a live Pool up to its report, and one for the report; and the memory of
  stalls as what its sightings mean.
\<close>

subsection \<open>The chain\<close>

lemma finalizer_step:
  assumes "kube_lib (pe_kube E)" "poolFinalizer E s = (s', res, err)"
  shows "err = []" "ContainsFinalizer (pe_kube E) (om_Finalizers (pmeta s')) PoolFinalizer"
    and "\<not> Stop res \<Longrightarrow> s' = s \<and> res = no_result"
    and "Stop res \<Longrightarrow> \<not> ContainsFinalizer (pe_kube E) (om_Finalizers (pmeta s)) PoolFinalizer" "po_World s' = po_World s" "pstatus s' = pstatus s"
proof -
  obtain fs added where a: "AddFinalizer (pe_kube E) (om_Finalizers (pmeta s)) PoolFinalizer = (fs, added)"
    by (cases "AddFinalizer (pe_kube E) (om_Finalizers (pmeta s)) PoolFinalizer")
  have s': "s' = upd_pmeta (\<lambda>_. (pmeta s)\<lparr>om_Finalizers := fs\<rparr>) s" "err = []" "Stop res \<longleftrightarrow> added" "added \<or> res = no_result"
    using assms(2) a by (auto simp: poolFinalizer_def EnsureFinalizer_def Let_def split: if_splits)
  note K = kube_lib.add_finalizer [OF assms(1) a] kube_lib.add_finalizer_same [OF assms(1), of "om_Finalizers (pmeta s)" PoolFinalizer]
  show "err = []" "po_World s' = po_World s" "pstatus s' = pstatus s" using s' by simp_all
  show "ContainsFinalizer (pe_kube E) (om_Finalizers (pmeta s')) PoolFinalizer" using s' K by simp
  show "\<not> ContainsFinalizer (pe_kube E) (om_Finalizers (pmeta s)) PoolFinalizer" if "Stop res"
    using K a s' that by auto
  show "s' = s \<and> res = no_result" if "\<not> Stop res"
  proof -
    have "fs = om_Finalizers (pmeta s)" using K a s' that by simp
    then show ?thesis using s' that by (simp add: upd_pmeta_def)
  qed
qed

abbreviation has_fin :: "'w pool_env \<Rightarrow> v1_Pool \<Rightarrow> bool" where
  "has_fin E c \<equiv> ContainsFinalizer (pe_kube E) (om_Finalizers (vp_meta c)) PoolFinalizer"

text \<open>A reconcile of a live Pool: what stops before the declaration calls nothing.\<close>

abbreviation report_steps :: "'w pool_env \<Rightarrow> ('w poolScope, reconcile_error) SubReconciler list" where
  "report_steps E \<equiv> [poolRejection E, poolStall E, poolCounts E, poolExhaustion E, poolReadiness E]"

lemma Run_poolChain:
  "Run (poolChain E) s = run_steps ([poolDeletion E, poolFinalizer E, poolPlacement E, poolDeclaration E, poolUpdate E] @ report_steps E) s no_result"
  by (simp add: Run_def poolChain_def split: prod.split)

lemma declared_report: "declared K c hosts s \<Longrightarrow> declared K c hosts (fst (run_steps (report_steps (pool_logged E)) s out))"
  by (rule run_steps_inv)
    (auto intro: declared_rejection declared_stall declared_counts declared_exhaustion declared_readiness)

lemma poolDeclaration_frame:
  assumes "poolDeclaration E s = (s', res, err)"
  shows "vst_Conditions (pstatus s') = vst_Conditions (pstatus s)" "res \<in> {no_result, stop_result}"
  using assms by (auto simp: poolDeclaration_def Let_def split: prod.splits sum.splits if_splits)

lemma sendUpdate_frame:
  assumes "sendUpdate held E s = (s', res, err)"
  shows "vst_Conditions (pstatus s') = vst_Conditions (pstatus s)" "res \<in> {no_result, stop_result}"
  using assms by (auto simp: sendUpdate_def Let_def split: prod.splits sum.splits if_splits)

lemma poolUpdate_frame:
  assumes "poolUpdate E s = (s', res, err)"
  shows "vst_Conditions (pstatus s') = vst_Conditions (pstatus s)" "res \<in> {no_result, stop_result}"
  using assms
  by (auto simp: poolUpdate_def dest: sendUpdate_frame split: prod.splits sum.splits if_splits option.splits)

text \<open>The declaration asks battery about the Pool.\<close>

lemma poolDeclaration_asks: "XLog (fst (poolDeclaration (pool_logged E) s)) \<noteq> []"
  by (auto simp: poolDeclaration_def accepted_def Let_def recording_eq split: prod.split sum.split)

lemma poolUpdate_log: "XLog s \<noteq> [] \<Longrightarrow> XLog (fst (poolUpdate (pool_logged E) s)) \<noteq> []"
  by (auto simp: poolUpdate_def sendUpdate_def accepted_def Let_def recording_eq split: prod.split sum.split option.split)

text \<open>The chain up to the report: where it ends, or the scope it leaves to the report.\<close>

definition placed_on :: "'w pool_env \<Rightarrow> v1_Pool \<Rightarrow> string list \<Rightarrow> bool" where
  "placed_on E c hosts \<longleftrightarrow> (\<exists>w w'. Matching E (vps_NodeSelector (vp_spec c)) w = (Inr hosts, w'))"

definition not_placed :: "'w pool_env \<Rightarrow> v1_Pool \<Rightarrow> bool" where
  "not_placed E c \<longleftrightarrow> (\<exists>w w' e. Matching E (vps_NodeSelector (vp_spec c)) w = (Inl e, w'))"

lemma live_chain:
  assumes K: "kube_lib (pe_kube E)" and live: "\<not> deleting (vp_meta c)"
    and run: "Run (poolChain (pool_logged E)) (newPoolScope c st (w, [])) = (s', res, err)"
  obtains (Early) "XLog s' = []" "\<not> has_fin E c \<or> not_placed E c" "err = [] \<longrightarrow> Stop res" "pstatus s' = vp_status c"
      "ContainsFinalizer (pe_kube E) (om_Finalizers (pmeta s')) PoolFinalizer"
  | (Declared) hosts where "declared (pe_kube E) c hosts s'" "placed_on E c hosts" "err = [] \<longrightarrow> Stop res"
      "ContainsFinalizer (pe_kube E) (om_Finalizers (vp_meta c)) PoolFinalizer"
      "vst_Conditions (pstatus s') = vst_Conditions (vp_status c)" "XLog s' \<noteq> []"
  | (Reported) hosts s1 where "declared (pe_kube E) c hosts s1" "placed_on E c hosts"
      "ContainsFinalizer (pe_kube E) (om_Finalizers (vp_meta c)) PoolFinalizer"
      "run_steps (report_steps (pool_logged E)) s1 no_result = (s', res, err)"
      "brought E c hosts s1" "found s1" "Stalls s1 = st" "notFilling s1 = None"
      "vst_Conditions (pstatus s1) = vst_Conditions (vp_status c)" "XLog s1 \<noteq> []"
proof -
  let ?L = "pool_logged E" and ?s = "newPoolScope c st (w, [] :: pool_exchange list)"
  have K': "kube_lib (pe_kube ?L)" using K by simp
  have 0: "poolDeletion ?L ?s = (?s, no_result, [])" using live by (simp add: poolDeletion_def newPoolScope_def)
  obtain s1 r1 e1 where 1: "poolFinalizer ?L ?s = (s1, r1, e1)" by (cases "poolFinalizer ?L ?s")
  note f = finalizer_step [OF K' 1]
  show ?thesis
  proof (cases "Stop r1")
    case True
    then have "s' = s1" "err = []" "Stop res" using run 0 1 f(1) by (auto simp: Run_poolChain run_steps.simps(2) Let_def)
    moreover have "\<not> has_fin E c" using f(4) [OF True] by (simp add: newPoolScope_def)
    ultimately show ?thesis using Early f by (simp add: newPoolScope_def)
  next
    case False
    then have s1: "s1 = ?s" "r1 = no_result" using f(3) by simp_all
    have fin: "ContainsFinalizer (pe_kube E) (om_Finalizers (vp_meta c)) PoolFinalizer"
      using f(2) s1 by (simp add: newPoolScope_def)
    obtain ans w2 l2 where m: "Matching ?L (vps_NodeSelector (pspec ?s)) (po_World ?s) = (ans, w2, l2)"
      by (cases "Matching ?L (vps_NodeSelector (pspec ?s)) (po_World ?s)")
    then have l2: "l2 = []" by (simp add: unlogged_eq newPoolScope_def)
    show ?thesis
    proof (cases ans)
      case (Inl e)
      have "poolPlacement ?L ?s = (?s\<lparr>po_World := (w2, l2)\<rparr>, stop_result, case e of ErrNotSynced \<Rightarrow> [] | ListFailed e \<Rightarrow>
          [ApiFailed (''resolving the selector of Pool '' @ PoolRef_String (poolRef (po_Object ?s)) @ '': listing Nodes: '') e])"
        using m Inl by (simp add: poolPlacement_def split: matching_error.split)
      then have "s' = ?s\<lparr>po_World := (w2, l2)\<rparr>" "Stop res" using run 0 1 f(1) s1
        by (auto simp: Run_poolChain run_steps.simps(2) Let_def split: if_splits)
      moreover have "not_placed E c" using m Inl by (auto simp: not_placed_def unlogged_eq newPoolScope_def)
      ultimately show ?thesis using Early l2 fin by (simp add: newPoolScope_def)
    next
      case (Inr hosts)
      let ?s2 = "?s\<lparr>po_World := (w2, l2), po_hosts := hosts\<rparr>"
      have 2: "poolPlacement ?L ?s = (?s2, no_result, [])" using m Inr by (simp add: poolPlacement_def)
      have d2: "declared (pe_kube E) c hosts ?s2" "XLog ?s2 = []" using l2 by (simp_all add: declared_def newPoolScope_def)
      have h: "placed_on E c hosts" using m Inr by (auto simp: placed_on_def unlogged_eq newPoolScope_def)
      obtain s3 r3 e3 where 3: "poolDeclaration ?L ?s2 = (s3, r3, e3)" by (cases "poolDeclaration ?L ?s2")
      note d3 = declared_declaration [OF d2 3]
      have x3: "XLog s3 \<noteq> []" using poolDeclaration_asks [of E ?s2] 3 by simp
      have c3: "vst_Conditions (pstatus s3) = vst_Conditions (vp_status c)" "r3 \<in> {no_result, stop_result}"
        using poolDeclaration_frame [OF 3] by (simp_all add: newPoolScope_def)
      show ?thesis
      proof (cases "e3 \<noteq> [] \<or> Stop r3")
        case True
        then have "s' = s3" "err = e3" "e3 = [] \<longrightarrow> Stop res" using run 0 1 2 3 f(1) s1
          by (auto simp: Run_poolChain run_steps.simps(2) Let_def split: if_splits)
        then show ?thesis using Declared d3(1) h c3 fin x3 by blast
      next
        case False
        then have r3: "r3 = no_result" "e3 = []" using c3 by auto
        obtain s4 r4 e4 where 4: "poolUpdate ?L s3 = (s4, r4, e4)" by (cases "poolUpdate ?L s3")
        note d4 = declared_update [OF d3(1,2) 4]
        have x4: "XLog s4 \<noteq> []" using poolUpdate_log [OF x3, of E] 4 by simp
        have c4: "vst_Conditions (pstatus s4) = vst_Conditions (vp_status c)" "r4 \<in> {no_result, stop_result}"
          using poolUpdate_frame [OF 4] c3 by simp_all
        have r: "Run (poolChain ?L) ?s = run_steps (poolUpdate ?L # report_steps ?L) s3 no_result"
          using 0 1 2 3 f(1) s1 r3 by (simp add: Run_poolChain run_steps.simps(2) Let_def)
        show ?thesis
        proof (cases "e4 = []")
          case False
          then have "s' = s4" "err = e4" using run r 4 by (auto simp: run_steps.simps(2) Let_def)
          then show ?thesis using Declared d4(1) h c4 fin x4 False by blast
        next
          case True
          then have "r4 = no_result" using d4(5) c4 by auto
          then have "run_steps (report_steps ?L) s4 no_result = (s', res, err)"
            using run r 4 True by (simp add: run_steps.simps(2) Let_def)
          moreover have "Stalls s4 = st" "notFilling s4 = None"
            using d4(2,3) d3(3,4) by (simp_all add: newPoolScope_def)
          moreover have "found s4" using found_update [OF found_declaration [of E ?s2 s3 r3], of E] 3 4 r3 by simp
          ultimately show ?thesis using Reported [OF d4(1) h fin] d4(4) True c4(1) x4 by blast
        qed
      qed
    qed
  qed
qed

subsection \<open>Deletion\<close>

text \<open>
  The exchanges of a reconcile of a Pool that is being deleted: none when the finalizer is gone
  already; otherwise the request to delete it, then, exactly when battery refuses, the question
  for its copy, and then, exactly when that copy is not drained, the drained specification.
\<close>

fun deletion_exchanges :: "bool \<Rightarrow> PoolRef \<Rightarrow> pool_exchange list \<Rightarrow> bool" where
  "deletion_exchanges fin ref [] \<longleftrightarrow> \<not> fin"
| "deletion_exchanges fin ref [DeleteX r a] \<longleftrightarrow>
     fin \<and> r = ref \<and> (case a of None \<Rightarrow> True | Some e \<Rightarrow> errors_Is e ErrNotFound \<or> \<not> errors_Is e ErrFailedPrecondition)"
| "deletion_exchanges fin ref [DeleteX r (Some e), GetX q a] \<longleftrightarrow>
     fin \<and> r = ref \<and> q = ref \<and> errors_Is e ErrFailedPrecondition \<and>
     (case a of Inl e' \<Rightarrow> True | Inr held \<Rightarrow> isDrainedSpec (pool_Spec held))"
| "deletion_exchanges fin ref [DeleteX r (Some e), GetX q (Inr held), UpdateX sp a] \<longleftrightarrow>
     fin \<and> r = ref \<and> q = ref \<and> errors_Is e ErrFailedPrecondition \<and>
     \<not> isDrainedSpec (pool_Spec held) \<and> sp = drainedSpec (pool_Spec held)"
| "deletion_exchanges fin ref l \<longleftrightarrow> False"

text \<open>The exchanges that say the Pool is gone.\<close>

fun says_pool_gone :: "pool_exchange list \<Rightarrow> bool" where
  "says_pool_gone [DeleteX r None] \<longleftrightarrow> True"
| "says_pool_gone [DeleteX r (Some e)] \<longleftrightarrow> errors_Is e ErrNotFound"
| "says_pool_gone [DeleteX r a, GetX q (Inl e)] \<longleftrightarrow> errors_Is e ErrNotFound"
| "says_pool_gone l \<longleftrightarrow> False"

lemma reportRefusal_frame:
  assumes "reportRefusal E ref st s = (s', res, err)"
  shows "pmeta s' = pmeta s" "Stop res" "err \<noteq> []" "po_World s' = snd (pe_Now E (po_World s))"
  using assms by (auto simp: reportRefusal_def setDeletionCounts_def)

lemma deletion_step:
  assumes K: "kube_lib (pe_kube E)" and del: "deleting (vp_meta c)"
    and s: "po_Object s = c" "XLog s = []"
    and run: "poolDeletion (pool_logged E) s = (s', res, err)"
  shows "Stop res" and "deletion_exchanges (has_fin E c) (poolRef c) (XLog s')"
    and "ContainsFinalizer (pe_kube E) (om_Finalizers (pmeta s')) PoolFinalizer \<longleftrightarrow>
         ContainsFinalizer (pe_kube E) (om_Finalizers (vp_meta c)) PoolFinalizer \<and> \<not> says_pool_gone (XLog s')"
    and "says_pool_gone (XLog s') \<longrightarrow> err = []"
proof -
  let ?B = "pe_Battery (pool_logged E)" and ?r = "poolRef c" and ?K = "pe_kube E"
  let ?has = "\<lambda>s. ContainsFinalizer ?K (om_Finalizers (pmeta s)) PoolFinalizer"
  have rel: "\<not> ?has (releasePool (pool_logged E) t)" "po_World (releasePool (pool_logged E) t) = po_World t"
    for t :: "('a \<times> pool_exchange list) poolScope"
    by (simp_all add: releasePool_def kube_lib.remove_finalizer [OF K])
  let ?goal = "Stop res \<and> deletion_exchanges (has_fin E c) (poolRef c) (XLog s') \<and>
    (?has s' \<longleftrightarrow> ContainsFinalizer ?K (om_Finalizers (vp_meta c)) PoolFinalizer \<and> \<not> says_pool_gone (XLog s')) \<and>
    (says_pool_gone (XLog s') \<longrightarrow> err = [])"
  have ?goal
  proof (cases "?has s")
    case False
    then have "s' = s" "Stop res" "err = []" using run del s by (auto simp: poolDeletion_def)
    then show ?thesis using s False by simp
  next
    case has: True
    then have fin: "has_fin E c" using s by simp
    obtain a w l where g: "DeletePool ?B ?r (po_World s) = (a, w, l)" by (cases "DeletePool ?B ?r (po_World s)")
    then have l: "l = [DeleteX ?r a]" using s by (simp add: recording_eq)
    show ?thesis
    proof (cases a)
      case None
      then have "s' = releasePool (pool_logged E) (s\<lparr>po_World := (w, l)\<rparr>)" "Stop res" "err = []"
        using run del s has g by (auto simp: poolDeletion_def Let_def)
      then show ?thesis using rel l None fin by simp
    next
      case e: (Some e)
      consider (gone) "errors_Is e ErrNotFound" | (failed) "\<not> errors_Is e ErrNotFound" "\<not> errors_Is e ErrFailedPrecondition"
        | (refused) "\<not> errors_Is e ErrNotFound" "errors_Is e ErrFailedPrecondition" by blast
      then show ?thesis
      proof cases
        case gone
        then have "s' = releasePool (pool_logged E) (s\<lparr>po_World := (w, l)\<rparr>)" "Stop res" "err = []"
          using run del s has g e by (auto simp: poolDeletion_def Let_def)
        then show ?thesis using rel l e gone fin by simp
      next
        case failed
        then have "s' = s\<lparr>po_World := (w, l)\<rparr>" "Stop res"
          using run del s has g e by (auto simp: poolDeletion_def Let_def)
        then show ?thesis using l e failed has s fin by simp
      next
        case refused
        obtain b w1 l1 where g1: "GetPool ?B ?r (w, l) = (b, w1, l1)" by (cases "GetPool ?B ?r (w, l)")
        then have l1: "l1 = [DeleteX ?r (Some e), GetX ?r b]" using l e by (simp add: recording_eq)
        show ?thesis
        proof (cases b)
          case (Inl e1)
          show ?thesis
          proof (cases "errors_Is e1 ErrNotFound")
            case True
            then have "s' = releasePool (pool_logged E) (s\<lparr>po_World := (w1, l1)\<rparr>)" "Stop res" "err = []"
              using run del s has g g1 e refused Inl by (auto simp: poolDeletion_def Let_def)
            then show ?thesis using rel l1 Inl refused True fin by simp
          next
            case False
            then have "s' = s\<lparr>po_World := (w1, l1)\<rparr>" "Stop res"
              using run del s has g g1 e refused Inl by (auto simp: poolDeletion_def Let_def)
            then show ?thesis using l1 Inl refused False has s fin by simp
          qed
        next
          case (Inr held)
          show ?thesis
          proof (cases "isDrainedSpec (pool_Spec held)")
            case True
            then have "reportRefusal (pool_logged E) ?r (pool_Status held) (s\<lparr>po_World := (w1, l1)\<rparr>) = (s', res, err)"
              using run del s has g g1 e refused Inr by (simp add: poolDeletion_def Let_def)
            from reportRefusal_frame [OF this] show ?thesis using l1 Inr refused has s fin True by simp
          next
            case False
            let ?d = "drainedSpec (pool_Spec held)"
            obtain u w2 l2 where g2: "UpdatePool ?B ?d (w1, l1) = (u, w2, l2)" by (cases "UpdatePool ?B ?d (w1, l1)")
            then have l2: "l2 = [DeleteX ?r (Some e), GetX ?r b, UpdateX ?d u]" using l1 by (simp add: recording_eq)
            obtain st errs where "reportRefusal (pool_logged E) ?r st (s\<lparr>po_World := (w2, l2)\<rparr>) = (s', res, errs)"
            proof (cases u)
              case (Inl e2)
              then show ?thesis using that [of "pool_Status held"] run del s has g g1 g2 e refused Inr False
                by (cases "reportRefusal (pool_logged E) ?r (pool_Status held) (s\<lparr>po_World := (w2, l2)\<rparr>)")
                  (auto simp: poolDeletion_def Let_def)
            next
              case (Inr p)
              then show ?thesis using that [of "pool_Status p"] run del s has g g1 g2 e refused \<open>b = Inr held\<close> False
                by (simp add: poolDeletion_def Let_def)
            qed
            from reportRefusal_frame [OF this] show ?thesis using l2 Inr refused False has s fin by simp
          qed
        qed
      qed
    qed
  qed
  then show "Stop res" "deletion_exchanges (has_fin E c) (poolRef c) (XLog s')"
    "?has s' \<longleftrightarrow> ContainsFinalizer ?K (om_Finalizers (vp_meta c)) PoolFinalizer \<and> \<not> says_pool_gone (XLog s')"
    "says_pool_gone (XLog s') \<longrightarrow> err = []"
    by blast+
qed

lemma deletion_generation:
  "vst_ObservedGeneration (pstatus (fst (poolDeletion E s))) = vst_ObservedGeneration (pstatus s)"
  by (auto simp: poolDeletion_def reportRefusal_def releasePool_def setDeletionCounts_def Let_def
      split: prod.splits option.splits sum.splits)

lemma deletion_chain:
  assumes "kube_lib (pe_kube E)" "deleting (vp_meta c)"
    and run: "Run (poolChain (pool_logged E)) (newPoolScope c st (w, [])) = (s', res, err)"
  shows "deletion_exchanges (has_fin E c) (poolRef c) (XLog s')" and "Stop res"
    and "ContainsFinalizer (pe_kube E) (om_Finalizers (pmeta s')) PoolFinalizer \<longleftrightarrow>
         ContainsFinalizer (pe_kube E) (om_Finalizers (vp_meta c)) PoolFinalizer \<and> \<not> says_pool_gone (XLog s')"
    and "says_pool_gone (XLog s') \<longrightarrow> err = []"
    and "vst_ObservedGeneration (pstatus s') = vst_ObservedGeneration (vp_status c)"
proof -
  let ?L = "pool_logged E" and ?s = "newPoolScope c st (w, [] :: pool_exchange list)"
  obtain s1 r1 e1 where 1: "poolDeletion ?L ?s = (s1, r1, e1)" by (cases "poolDeletion ?L ?s")
  have s: "po_Object ?s = c" "XLog ?s = []" by (simp_all add: newPoolScope_def)
  note d = deletion_step [OF assms(1,2) s 1]
  have "s' = s1" "err = e1" "Stop res" using run 1 d(1) by (auto simp: Run_poolChain run_steps.simps(2) Let_def split: if_splits)
  then show "deletion_exchanges (has_fin E c) (poolRef c) (XLog s')" "Stop res"
    "ContainsFinalizer (pe_kube E) (om_Finalizers (pmeta s')) PoolFinalizer \<longleftrightarrow>
         ContainsFinalizer (pe_kube E) (om_Finalizers (vp_meta c)) PoolFinalizer \<and> \<not> says_pool_gone (XLog s')"
    "says_pool_gone (XLog s') \<longrightarrow> err = []" "vst_ObservedGeneration (pstatus s') = vst_ObservedGeneration (vp_status c)"
    using d deletion_generation [of ?L ?s] 1 by (simp_all add: newPoolScope_def)
qed

subsection \<open>The report\<close>

text \<open>The clock of a cluster never reads Go's zero time.\<close>

definition clock_runs :: "('w \<Rightarrow> time \<times> 'w) \<Rightarrow> bool" where
  "clock_runs now \<longleftrightarrow> (\<forall>w. fst (now w) \<noteq> 0)"

abbreviation find_cond :: "'w pool_env \<Rightarrow> string \<Rightarrow> 'w poolScope \<Rightarrow> Condition option" where
  "find_cond E t s \<equiv> FindStatusCondition (pe_kube E) (vst_Conditions (pstatus s)) t"

lemma find_setCondition:
  assumes "kube_lib (pe_kube E)" "clock_runs (pe_Now E)"
  shows "t \<noteq> u \<Longrightarrow> find_cond E u (setCondition E t k r m s) = find_cond E u s"
    and "\<exists>c. find_cond E t (setCondition E t k r m s) = Some c \<and> cond_Status c = k \<and> cond_Reason c = r \<and>
      cond_Message c = m \<and> cond_ObservedGeneration c = om_Generation (pmeta s)"
proof -
  obtain now w where n: "pe_Now E (po_World s) = (now, w)" by (cases "pe_Now E (po_World s)")
  then have "now \<noteq> 0" using assms(2) by (metis clock_runs_def fst_conv)
  then show "t \<noteq> u \<Longrightarrow> find_cond E u (setCondition E t k r m s) = find_cond E u s"
    "\<exists>c. find_cond E t (setCondition E t k r m s) = Some c \<and> cond_Status c = k \<and> cond_Reason c = r \<and>
      cond_Message c = m \<and> cond_ObservedGeneration c = om_Generation (pmeta s)"
    using n by (simp_all add: setCondition_def SetCondition_def kube_lib.find_set [OF assms(1)])
qed

definition counts_shown :: "'w poolScope \<Rightarrow> bool" where
  "counts_shown s \<longleftrightarrow>
     (let counts = (case po_held s of None \<Rightarrow> zero_counts | Some held \<Rightarrow> pool_Status held)
      in vst_Available (pstatus s) = st_Available counts \<and> vst_Leased (pstatus s) = st_Leased counts \<and>
         vst_Provisioning (pstatus s) = st_Provisioning counts \<and> vst_Quarantined (pstatus s) = st_Quarantined counts)"

lemma counts_shown_setCondition [simp]: "counts_shown (setCondition E t k r m s) \<longleftrightarrow> counts_shown s"
  by (simp add: counts_shown_def)

lemma counts_shown_total:
  "counts_shown s \<Longrightarrow> pool_total (pstatus s) =
     (case po_held s of None \<Rightarrow> 0
      | Some p \<Rightarrow> int32 (int32 (st_Available (pool_Status p) + st_Leased (pool_Status p)) + st_Provisioning (pool_Status p)))"
  by (auto simp: counts_shown_def pool_total_def zero_counts_def int32_def Let_def split: option.splits)

definition same_pool :: "'w poolScope \<Rightarrow> 'w poolScope \<Rightarrow> bool" where
  "same_pool s t \<longleftrightarrow> refusal t = refusal s \<and> po_hosts t = po_hosts s \<and> pmeta t = pmeta s \<and> pspec t = pspec s"

lemma poolRejection_step:
  assumes "kube_lib (pe_kube E)" "clock_runs (pe_Now E)" "poolRejection E s = (t, res, err)"
  shows "res = no_result" "err = []" "same_pool s t" "notFilling t = notFilling s"
    and "refusal s = Some e \<Longrightarrow> \<exists>c. find_cond E PoolConditionReady t = Some c \<and> cond_Status c = ConditionFalse \<and>
       cond_Reason c = PoolReasonRejected \<and> cond_Message c = batteryMessage e ErrInvalid \<and>
       cond_ObservedGeneration c = om_Generation (pmeta s)"
  using assms(3) find_setCondition(2) [OF assms(1,2), of PoolConditionReady ConditionFalse PoolReasonRejected]
  by (auto simp: poolRejection_def same_pool_def split: option.splits if_splits)

lemma poolStall_step:
  assumes "poolStall E s = (t, res, err)"
  shows "\<not> Stop res" "err = []" "same_pool s t" "pstatus t = pstatus s"
  using assms by (auto simp: poolStall_def same_pool_def Let_def split: option.splits if_splits prod.splits)

lemma poolCounts_step:
  assumes run: "poolCounts E s = (t, res, [])"
  shows "res = no_result" "same_pool s t" "counts_shown t" "vst_Conditions (pstatus t) = vst_Conditions (pstatus s)"
    "vst_ObservedGeneration (pstatus t) = vst_ObservedGeneration (pstatus s)"
proof -
  have u: "\<exists>u. t = upd_pstatus (set_counts (case po_held u of None \<Rightarrow> zero_counts | Some held \<Rightarrow> pool_Status held)) u \<and>
    same_pool s u \<and> pstatus u = pstatus s \<and> res = no_result"
  proof (cases "po_held s = None \<and> refusal s = None")
    case False
    then show ?thesis using run by (intro exI [of _ s]) (auto simp: poolCounts_def Let_def same_pool_def)
  next
    case True
    obtain ans w where g: "GetPool (pe_Battery E) (poolRef (po_Object s)) (po_World s) = (ans, w)"
      by (cases "GetPool (pe_Battery E) (poolRef (po_Object s)) (po_World s)")
    show ?thesis
    proof (cases ans)
      case (Inl e)
      then show ?thesis using run True g by (intro exI [of _ "s\<lparr>po_World := w\<rparr>"])
        (auto simp: poolCounts_def Let_def same_pool_def split: if_splits)
    next
      case (Inr h)
      then show ?thesis using run True g by (intro exI [of _ "s\<lparr>po_World := w, po_held := Some h\<rparr>"])
        (auto simp: poolCounts_def Let_def same_pool_def)
    qed
  qed
  show "res = no_result" "same_pool s t" "counts_shown t" "vst_Conditions (pstatus t) = vst_Conditions (pstatus s)"
    "vst_ObservedGeneration (pstatus t) = vst_ObservedGeneration (pstatus s)"
    using u by (auto simp: same_pool_def counts_shown_def Let_def)
qed

text \<open>The first three steps of the report, when none fails.\<close>

lemma report_begins:
  assumes K: "kube_lib (pe_kube E)" "clock_runs (pe_Now E)"
    and run: "run_steps (report_steps E) s no_result = (s', res, [])"
  obtains t where "s' = fst (poolReadiness E (fst (poolExhaustion E t)))" "counts_shown t" "\<not> Stop res" "same_pool s t"
    "\<And>e. refusal s = Some e \<Longrightarrow> \<exists>c. find_cond E PoolConditionReady t = Some c \<and> cond_Status c = ConditionFalse \<and>
       cond_Reason c = PoolReasonRejected \<and> cond_Message c = batteryMessage e ErrInvalid \<and>
       cond_ObservedGeneration c = om_Generation (pmeta s)"
proof -
  obtain a r1 e1 where 1: "poolRejection E s = (a, r1, e1)" by (cases "poolRejection E s")
  note p1 = poolRejection_step [OF K 1]
  obtain b r2 e2 where 2: "poolStall E a = (b, r2, e2)" by (cases "poolStall E a")
  note p2 = poolStall_step [OF 2]
  obtain t r3 e3 where 3: "poolCounts E b = (t, r3, e3)" by (cases "poolCounts E b")
  have e3: "e3 = []" using run 1 2 3 p1 p2 by (auto simp: run_steps.simps(2) Let_def split: if_splits)
  note p3 = poolCounts_step [OF 3 [unfolded e3]]
  obtain x where x: "poolExhaustion E t = (x, no_result, [])" by (simp add: poolExhaustion_def)
  have "snd (poolReadiness E x) = (no_result, [])" by (simp add: poolReadiness_def Let_def)
  then obtain y where y: "poolReadiness E x = (y, no_result, [])" by (metis prod.collapse)
  have "s' = y \<and> \<not> Stop res"
    using run 1 2 3 x y e3 p1(1,2) p2(1,2) p3(1) by (auto simp: run_steps.simps(2) Let_def)
  then have "s' = fst (poolReadiness E (fst (poolExhaustion E t)))" "\<not> Stop res" using x y by simp_all
  moreover have "same_pool s t" using p1(3) p2(3) p3(2) by (simp add: same_pool_def)
  moreover have "find_cond E PoolConditionReady t = find_cond E PoolConditionReady a" using p2(4) p3(4) by simp
  ultimately show ?thesis using that [of t] p1(5) p3(3) by simp
qed

text \<open>What the last two steps leave, on a Pool whose counts are battery's.\<close>

definition ready_now :: "'w poolScope \<Rightarrow> bool" where
  "ready_now s \<longleftrightarrow> refusal s = None \<and> po_hosts s \<noteq> [] \<and> po_held s \<noteq> None \<and> vps_Size (pspec s) \<le> pool_total (pstatus s)"

lemma readiness_sets:
  assumes K: "kube_lib (pe_kube E)" "clock_runs (pe_Now E)" and ref: "refusal s = None"
  shows "\<exists>c. find_cond E PoolConditionReady (fst (poolReadiness E s)) = Some c \<and>
      cond_Status c = (if ready_now s then ConditionTrue else ConditionFalse) \<and> cond_Reason c \<noteq> PoolReasonRejected"
proof -
  have set: "\<exists>c. find_cond E PoolConditionReady (setCondition E PoolConditionReady k r m s) = Some c \<and> cond_Status c = k \<and>
      cond_Reason c \<noteq> PoolReasonRejected" if "r \<noteq> PoolReasonRejected" for k r m
    using find_setCondition(2) [OF K, of PoolConditionReady k r m s] that by auto
  note reasons = PoolReasonNoEligibleHost_def PoolReasonNotInBattery_def PoolReasonNotFilling_def
    PoolReasonBelowSize_def PoolReasonAtSize_def PoolReasonRejected_def
  have r: "PoolReasonNoEligibleHost \<noteq> PoolReasonRejected" "PoolReasonNotInBattery \<noteq> PoolReasonRejected"
    "PoolReasonNotFilling \<noteq> PoolReasonRejected" "PoolReasonBelowSize \<noteq> PoolReasonRejected"
    "PoolReasonAtSize \<noteq> PoolReasonRejected" by (simp_all add: reasons)
  show ?thesis
  proof (cases "po_hosts s = [] \<or> po_held s = None")
    case True
    then show ?thesis using ref by (auto simp: poolReadiness_def ready_now_def Let_def set r)
  next
    case False
    then obtain h where "po_hosts s \<noteq> []" "po_held s = Some h" by auto
    then show ?thesis using ref
      by (cases "pool_total (pstatus s) < vps_Size (pspec s)"; cases "notFilling s")
        (simp_all add: poolReadiness_def ready_now_def Let_def set r)
  qed
qed

lemma report_ends:
  assumes K: "kube_lib (pe_kube E)" "clock_runs (pe_Now E)"
    and s': "s' = fst (poolReadiness E (fst (poolExhaustion E t)))"
  shows "same_pool t s'" "po_held s' = po_held t" "vst_ObservedGeneration (pstatus s') = vst_ObservedGeneration (pstatus t)"
    and "counts_shown s' \<longleftrightarrow> counts_shown t" "pool_total (pstatus s') = pool_total (pstatus t)"
    and "\<exists>c. find_cond E PoolConditionExhausted s' = Some c \<and>
      (cond_Status c = (if 0 < vps_Size (pspec t) \<and> vst_Available (pstatus t) = 0 then ConditionTrue else ConditionFalse))"
    and "refusal t \<noteq> None \<Longrightarrow> find_cond E PoolConditionReady s' = find_cond E PoolConditionReady t"
    and "refusal t = None \<Longrightarrow> \<exists>c. find_cond E PoolConditionReady s' = Some c \<and>
      cond_Status c = (if ready_now t then ConditionTrue else ConditionFalse) \<and> cond_Reason c \<noteq> PoolReasonRejected"
proof -
  let ?x = "fst (poolExhaustion E t)"
  note find = find_setCondition [OF K]
  have x: "same_pool t ?x" "po_held ?x = po_held t" "counts_shown ?x \<longleftrightarrow> counts_shown t"
    "pool_total (pstatus ?x) = pool_total (pstatus t)" "notFilling ?x = notFilling t"
    "vst_ObservedGeneration (pstatus ?x) = vst_ObservedGeneration (pstatus t)"
    by (auto simp: poolExhaustion_def same_pool_def pool_total_def)
  have xr: "find_cond E PoolConditionReady ?x = find_cond E PoolConditionReady t"
    by (auto simp: poolExhaustion_def find(1))
  have xe: "\<exists>c. find_cond E PoolConditionExhausted ?x = Some c \<and>
      (cond_Status c = (if 0 < vps_Size (pspec t) \<and> vst_Available (pstatus t) = 0 then ConditionTrue else ConditionFalse))"
  proof -
    have set: "\<exists>c. find_cond E PoolConditionExhausted (setCondition E PoolConditionExhausted k r m t) = Some c \<and> cond_Status c = k"
      for k r m using find(2) [of PoolConditionExhausted k r m t] by blast
    consider "vps_Size (pspec t) \<le> 0" | "0 < vps_Size (pspec t)" "vst_Available (pstatus t) = 0"
      | "0 < vps_Size (pspec t)" "vst_Available (pstatus t) \<noteq> 0" by linarith
    then show ?thesis by cases (simp_all add: poolExhaustion_def set)
  qed
  show "same_pool t s'" "po_held s' = po_held t" "vst_ObservedGeneration (pstatus s') = vst_ObservedGeneration (pstatus t)"
     "counts_shown s' \<longleftrightarrow> counts_shown t" "pool_total (pstatus s') = pool_total (pstatus t)"
    using x unfolding s' by (auto simp: poolReadiness_def same_pool_def pool_total_def Let_def split: option.split)
  have "find_cond E PoolConditionExhausted s' = find_cond E PoolConditionExhausted ?x"
    unfolding s' by (auto simp: poolReadiness_def find(1) Let_def split: option.split)
  with xe show "\<exists>c. find_cond E PoolConditionExhausted s' = Some c \<and>
      (cond_Status c = (if 0 < vps_Size (pspec t) \<and> vst_Available (pstatus t) = 0 then ConditionTrue else ConditionFalse))"
    by simp
  show "find_cond E PoolConditionReady s' = find_cond E PoolConditionReady t" if "refusal t \<noteq> None"
    using that x(1) xr unfolding s' by (simp add: poolReadiness_def same_pool_def)
  have "ready_now ?x \<longleftrightarrow> ready_now t" using x by (simp add: ready_now_def same_pool_def)
  then show "\<exists>c. find_cond E PoolConditionReady s' = Some c \<and>
      cond_Status c = (if ready_now t then ConditionTrue else ConditionFalse) \<and> cond_Reason c \<noteq> PoolReasonRejected"
    if "refusal t = None"
    using that x(1) readiness_sets [OF K, of ?x] unfolding s' by (simp add: same_pool_def)
qed

subsection \<open>The memory of stalls\<close>

text \<open>
  What the reconciles of all Pools do to the memory, newest first: a Pool's entry is forgotten,
  or a reconcile sees the Pool with a shortfall, stalled or not, at a time.
\<close>

datatype sighting = Forgot | Saw int bool time

fun stall_step :: "key \<times> sighting \<Rightarrow> poolStalls \<Rightarrow> poolStalls" where
  "stall_step (k, Forgot) r = forget k r"
| "stall_step (k, Saw shortfall stalled now) r = snd (observe k shortfall stalled now r)"

fun stall_run :: "(key \<times> sighting) list \<Rightarrow> poolStalls" where
  "stall_run [] = newPoolStalls"
| "stall_run (x # h) = stall_step x (stall_run h)"

definition of_pool :: "key \<Rightarrow> (key \<times> sighting) list \<Rightarrow> sighting list" where
  "of_pool k h = map snd (filter (\<lambda>x. fst x = k) h)"

text \<open>
  What they mean: the times, newest first, at which the Pool was seen stalled, in the
  unbroken run of sightings with this shortfall.
\<close>

fun stalled_times :: "int \<Rightarrow> sighting list \<Rightarrow> time list" where
  "stalled_times f (Saw g stalled t # h) =
     (if g = f then (if stalled then [t] else []) @ stalled_times f h else [])"
| "stalled_times f h = []"

definition long_stalled :: "time list \<Rightarrow> bool" where
  "long_stalled ts \<longleftrightarrow> ts \<noteq> [] \<and> list_ex (\<lambda>t. last ts + poolStallWait \<le> t) ts"

fun stall_entry :: "sighting list \<Rightarrow> poolStallState option" where
  "stall_entry (Saw f stalled t # h) =
     (let ts = stalled_times f (Saw f stalled t # h)
      in if ts = [] then None
         else Some \<lparr>stall_shortfall = f, stall_since = last ts, stall_notFilling = long_stalled ts\<rparr>)"
| "stall_entry h = None"

lemma stalled_times_other: "stall_entry h = None \<or> (\<exists>st. stall_entry h = Some st \<and> stall_shortfall st \<noteq> f) \<Longrightarrow> stalled_times f h = []"
  by (cases h rule: stall_entry.cases) (auto simp: Let_def split: if_splits)

lemma stall_entry_same:
  "stall_entry h = Some st \<Longrightarrow> stalled_times (stall_shortfall st) h \<noteq> [] \<and>
     stall_since st = last (stalled_times (stall_shortfall st) h) \<and> stall_notFilling st = long_stalled (stalled_times (stall_shortfall st) h)"
  by (cases h rule: stall_entry.cases) (auto simp: Let_def split: if_splits)

lemma observe_other: "k' \<noteq> k \<Longrightarrow> snd (observe k f s t r) k' = r k'"
  by (auto simp: observe_def Let_def split: option.splits)

text \<open>What \<open>observe\<close> answers, from the run of stalled sightings that ends with this one.\<close>

definition stall_answer :: "int \<Rightarrow> bool \<Rightarrow> time \<Rightarrow> time list \<Rightarrow> poolNotFilling option \<times> duration" where
  "stall_answer f stalled now ts =
     (if long_stalled ts then (Some \<lparr>nf_shortfall = f, nf_since = last ts\<rparr>, 0)
      else if stalled then (None, last ts + poolStallWait - now) else (None, 0))"

lemma observe_entry:
  assumes "r k = stall_entry h"
  shows "snd (observe k f s t r) k = stall_entry (Saw f s t # h)"
    and "fst (observe k f s t r) = stall_answer f s t (stalled_times f (Saw f s t # h))"
proof -
  have w: "\<not> now + poolStallWait \<le> now" for now by (simp add: poolStallWait_def not_le)
  have "snd (observe k f s t r) k = stall_entry (Saw f s t # h) \<and>
        fst (observe k f s t r) = stall_answer f s t (stalled_times f (Saw f s t # h))"
  proof (cases "\<exists>st. r k = Some st \<and> stall_shortfall st = f")
    case True
    then obtain st where st: "r k = Some st" "stall_shortfall st = f" by blast
    note e = stall_entry_same [of h st] 
    have "stalled_times f h \<noteq> []" "stall_since st = last (stalled_times f h)"
      "stall_notFilling st = long_stalled (stalled_times f h)"
      using e assms st by auto
    then show ?thesis using st
      by (auto simp: observe_def stall_answer_def long_stalled_def Let_def list_ex_iff intro!: poolStallState.equality)
  next
    case False
    have "stall_entry h = None \<or> (\<exists>st. stall_entry h = Some st \<and> stall_shortfall st \<noteq> f)"
      using False assms by (cases "stall_entry h") auto
    then have no: "stalled_times f h = []" by (rule stalled_times_other)
    show ?thesis using False no w
      by (cases "r k") (auto simp: observe_def stall_answer_def long_stalled_def Let_def)
  qed
  then show "snd (observe k f s t r) k = stall_entry (Saw f s t # h)"
    "fst (observe k f s t r) = stall_answer f s t (stalled_times f (Saw f s t # h))" by blast+
qed

lemma stall_run_entry: "stall_run h k = stall_entry (of_pool k h)"
proof (induction h)
  case Nil
  then show ?case by (simp add: of_pool_def newPoolStalls_def)
next
  case (Cons x h)
  obtain k' y where x: "x = (k', y)" by (cases x)
  show ?case
  proof (cases "k' = k")
    case True
    then show ?thesis using Cons x observe_entry(1) [of "stall_run h" k "of_pool k h"] by (cases y) (auto simp: of_pool_def forget_def)
  next
    case False
    then show ?thesis using Cons x by (cases y) (auto simp: of_pool_def forget_def observe_other)
  qed
qed

subsection \<open>Auxiliary facts for the statements\<close>

lemma report_log:
  "\<exists>xs. XLog (fst (run_steps (report_steps (pool_logged E)) s out)) = XLog s @ xs"
proof (rule run_steps_inv)
  show "\<forall>f\<in>set (report_steps (pool_logged E)). \<forall>t. (\<exists>xs. XLog t = XLog s @ xs) \<longrightarrow> (\<exists>xs. XLog (fst (f t)) = XLog s @ xs)"
    by (auto simp: poolRejection_def poolStall_def poolCounts_def poolExhaustion_def poolReadiness_def unlogged_eq recording_eq Let_def
        split: option.splits prod.splits if_splits sum.splits)
qed simp

lemma reported_keeps:
  assumes "po_held s \<noteq> None \<or> refusal s \<noteq> None"
  shows "po_held (fst (run_steps (report_steps (pool_logged E)) s out)) = po_held s \<and>
    XLog (fst (run_steps (report_steps (pool_logged E)) s out)) = XLog s"
proof -
  let ?P = "\<lambda>t :: ('a \<times> pool_exchange list) poolScope. po_held t = po_held s \<and> refusal t = refusal s \<and> XLog t = XLog s"
  have "?P (fst (run_steps (report_steps (pool_logged E)) s out))"
  proof (rule run_steps_inv)
    show "\<forall>f\<in>set (report_steps (pool_logged E)). \<forall>t. ?P t \<longrightarrow> ?P (fst (f t))"
      using assms
      by (auto simp: poolRejection_def poolStall_def poolCounts_def poolExhaustion_def poolReadiness_def unlogged_eq Let_def
          split: option.splits prod.splits if_splits)
  qed simp
  then show ?thesis by blast
qed

end
