(* ===== verification/PoolProps.thy ===== *)
theory PoolProps
  imports PoolChain
begin

section \<open>Properties of the Pool Controller\<close>

text \<open>
  The properties of one reconcile of one Pool, whatever battery, the API server, the Hosts and
  the clock answer, and of the memory of stalled Pools across reconciles. \<open>XLog\<close> is the record of
  what the reconcile exchanged with battery.
\<close>

subsection \<open>A Pool and an environment for the witnesses\<close>

definition demo_template :: MicroVMTemplate where
  "demo_template =
     \<lparr>tpl_Provider = None, tpl_VCPU = 1, tpl_MemoryInMb = 2048,
      tpl_Kernel = \<lparr>kernel_Image = ''k'', kernel_Cmdline = Map.empty, kernel_Filename = None, kernel_AddNetworkConfig = True\<rparr>,
      tpl_Initrd = None,
      tpl_RootVolume = \<lparr>vol_ID = ''root'', vol_ReadOnly = False, vol_MountPoint = None, vol_PartitionID = None,
         vol_SizeInMb = None, vol_ContainerSource = Some ''img'', vol_VirtiofsSource = None\<rparr>,
      tpl_AdditionalVolumes = [],
      tpl_Interfaces = [\<lparr>ni_DeviceID = ''eth1'', ni_Type = NetworkInterfaceTap, ni_GuestMAC = None, ni_Address = None, ni_Overrides = None\<rparr>],
      tpl_Metadata = Map.empty, tpl_Labels = Map.empty,
      tpl_CPUConfig = None\<rparr>"

definition demo_pool :: "time option \<Rightarrow> v1_Pool" where
  "demo_pool deleted =
     \<lparr>vp_meta = \<lparr>om_Namespace = ''ns'', om_Name = ''p'', om_UID = ''u'', om_Generation = 2, om_DeletionTimestamp = deleted,
                om_Finalizers = [PoolFinalizer], om_Labels = Map.empty, om_Annotations = Map.empty\<rparr>,
      vp_spec = \<lparr>vps_Template = demo_template, vps_Size = 3, vps_NodeSelector = Map.empty,
                vps_Replenishment = \<lparr>vrs_Type = ReplenishImmediateOnLease, vrs_MinSize = None\<rparr>,
                vps_Hooks = \<lparr>hooks_Create = [], hooks_PreLease = [], hooks_FailurePolicy = HookFailureDeleteAndReplace\<rparr>,
                vps_Lease = \<lparr>lease_HeartbeatInterval = Some (10 * second), lease_ExpiryThreshold = Some (60 * second)\<rparr>\<rparr>,
      vp_status = \<lparr>vst_ObservedGeneration = 1, vst_Available = 0, vst_Leased = 0, vst_Provisioning = 0,
                  vst_Quarantined = 0, vst_Conditions = []\<rparr>\<rparr>"

text \<open>A battery that holds the Pool on the given Hosts, accepts what it is sent, and answers DeletePool with \<open>gone\<close>.\<close>

definition demo_held :: "PoolSpec \<Rightarrow> Pool" where
  "demo_held sp = \<lparr>pool_Spec = sp, pool_Status = \<lparr>st_Available = 2, st_Leased = 1, st_Provisioning = 0, st_Quarantined = 0\<rparr>\<rparr>"

definition demo_battery :: "battery_error option \<Rightarrow> unit battery_client" where
  "demo_battery gone =
     \<lparr>CreatePool = (\<lambda>sp w. (Inr (demo_held sp), w)), UpdatePool = (\<lambda>sp w. (Inr (demo_held sp), w)),
      DeletePool = (\<lambda>r w. (gone, w)),
      GetPool = (\<lambda>r w. (Inr (demo_held (poolSpecToBattery (demo_pool None) [''h1''])), w)),
      ListPools = (\<lambda>ns w. (Inr [], w)), ClaimVM = (\<lambda>r i w. (Inl (Plain []), w)), Heartbeat = (\<lambda>l w. (Inl (Plain []), w)),
      ReleaseVM = (\<lambda>l w. (None, w)), ListLeases = (\<lambda>p w. (Inr [], w))\<rparr>"

definition demo_pool_env :: "battery_error option \<Rightarrow> unit pool_env" where
  "demo_pool_env gone =
     \<lparr>pe_kube = list_kube, pe_Battery = demo_battery gone, Matching = (\<lambda>sel w. (Inr [''h1'', ''h2''], w)),
      pe_Now = (\<lambda>w. (5, w))\<rparr>"

lemma demo_kube [simp]: "kube_lib (pe_kube (demo_pool_env gone))"
  using lists.kube_lib_axioms by (simp add: demo_pool_env_def)

abbreviation demo_run :: "battery_error option \<Rightarrow> time option \<Rightarrow> (unit \<times> pool_exchange list) poolScope \<times> Result \<times> reconcile_error list" where
  "demo_run gone deleted \<equiv>
     Run (poolChain (pool_logged (demo_pool_env gone))) (newPoolScope (demo_pool deleted) None ((), []))"

subsection \<open>Deletion and declaration\<close>

text \<open>
  C34. The finalizer leaves a Pool exactly when the Pool is being deleted and battery has said, in
  this reconcile, that the Pool is gone: it answered DeletePool with success or NotFound, or it
  refused DeletePool and then answered GetPool with NotFound.
\<close>

theorem pool_finalizer_until_gone:
  assumes "kube_lib (pe_kube E)" "ContainsFinalizer (pe_kube E) (om_Finalizers (vp_meta c)) PoolFinalizer"
    and "Run (poolChain (pool_logged E)) (newPoolScope c st (w, [])) = (s', res, err)"
  shows "\<not> ContainsFinalizer (pe_kube E) (om_Finalizers (pmeta s')) PoolFinalizer \<longleftrightarrow>
    deleting (vp_meta c) \<and> says_pool_gone (XLog s')"
proof (cases "deleting (vp_meta c)")
  case True
  then show ?thesis using deletion_chain(3) [OF assms(1) True assms(3)] assms(2) by blast
next
  case False
  from assms(1) False assms(3) have "ContainsFinalizer (pe_kube E) (om_Finalizers (pmeta s')) PoolFinalizer"
  proof (cases rule: live_chain)
    case (Reported hosts s1)
    then show ?thesis using declared_report [OF Reported(1), of E no_result] by (simp add: declared_def)
  qed (auto simp: declared_def)
  then show ?thesis using False by blast
qed

theorem pool_finalizer_until_gone_witness:
  "\<not> ContainsFinalizer list_kube (om_Finalizers (pmeta (fst (demo_run None (Some 1))))) PoolFinalizer"
proof -
  let ?E = "demo_pool_env None" and ?c = "demo_pool (Some 1)"
  obtain s' res err where r: "demo_run None (Some 1) = (s', res, err)" by (cases "demo_run None (Some 1)")
  have f: "ContainsFinalizer (pe_kube ?E) (om_Finalizers (vp_meta ?c)) PoolFinalizer" by code_simp
  have g: "deleting (vp_meta ?c)" "says_pool_gone (XLog (fst (demo_run None (Some 1))))" by code_simp+
  have k: "pe_kube ?E = list_kube" by (simp add: demo_pool_env_def)
  show ?thesis using pool_finalizer_until_gone [OF demo_kube f r] g r k by simp
qed

text \<open>
  C35. What a reconcile tells battery. On a live Pool it says nothing only while the finalizer is
  not stored or the selector cannot be resolved. Otherwise it asks about that Pool; it creates
  the Pool only after battery has said that it does not hold it, and updates it, at most once,
  only when the Pool's generation is not the accepted one or battery's copy names other Hosts; it
  always sends the Pool's own specification with the Hosts its selector matches. On a deleted
  Pool that has the finalizer it asks for the deletion; when battery refuses, and only then, it
  asks for battery's copy, and when that copy is not drained, and only then, it sends the drained
  specification of it. It never claims or releases a MicroVM. The observed generation moves only
  when battery accepts the specification.
\<close>

theorem pool_exchanges:
  assumes "kube_lib (pe_kube E)" "Run (poolChain (pool_logged E)) (newPoolScope c st (w, [])) = (s', res, err)"
  shows "(if deleting (vp_meta c) then deletion_exchanges (has_fin E c) (poolRef c) (XLog s')
     else if XLog s' = [] then \<not> has_fin E c \<or> not_placed E c
     else has_fin E c \<and>
       (\<exists>hosts. placed_on E c hosts \<and> all_prefixes (allowed_exchange (pe_kube E) c hosts) [] (XLog s'))) \<and>
    vst_ObservedGeneration (pstatus s') =
      (if \<not> deleting (vp_meta c) \<and> list_ex accepts (XLog s') then om_Generation (vp_meta c)
       else vst_ObservedGeneration (vp_status c))"
proof (cases "deleting (vp_meta c)")
  case True
  then show ?thesis using deletion_chain(1,5) [OF assms(1) True assms(2)] by simp
next
  case False
  from assms(1) False assms(2) show ?thesis
  proof (cases rule: live_chain)
    case (Reported hosts s1)
    have "XLog s' \<noteq> []" using report_log [of E s1 no_result] Reported(4,10) by auto
    then show ?thesis using declared_report [OF Reported(1), of E no_result] False Reported by (auto simp: declared_def)
  qed (use False in \<open>auto simp: declared_def\<close>)
qed

theorem pool_exchanges_witness:
  "vst_ObservedGeneration (pstatus (fst (demo_run None None))) = 2 \<and>
   map is_update (XLog (fst (demo_run None None))) = [False, True]"
proof -
  let ?E = "demo_pool_env None" and ?c = "demo_pool None"
  obtain s' res err where r: "demo_run None None = (s', res, err)" by (cases "demo_run None None")
  have g: "\<not> deleting (vp_meta ?c)" "list_ex accepts (XLog (fst (demo_run None None)))"
    "map is_update (XLog (fst (demo_run None None))) = [False, True]" "om_Generation (vp_meta ?c) = 2" by code_simp+
  show ?thesis using pool_exchanges [OF demo_kube r] g r by simp
qed

text \<open>
  C36. A reconcile that runs to its end leaves battery in step with the Pool, if battery answers
  an update with the Hosts it was sent and refuses nothing: the accepted generation is the
  Pool's generation, and the Hosts that battery's copy names are those the selector matches.
\<close>

theorem pool_brought_in_step:
  assumes "kube_lib (pe_kube E)" "\<not> deleting (vp_meta c)"
    and "Run (poolChain (pool_logged E)) (newPoolScope c st (w, [])) = (s', res, [])" "\<not> Stop res"
    and "last_Some refused (XLog s') = None" "\<not> list_ex create_failed (XLog s')"
    and "\<forall>sp w p w'. UpdatePool (pe_Battery E) sp w = (Inr p, w') \<longrightarrow>
           ps_FlintlockHosts (pool_Spec p) = ps_FlintlockHosts sp"
    and "\<forall>sel w hosts w'. Matching E sel w = (Inr hosts, w') \<longrightarrow> sorted hosts"
  shows "\<exists>held. last_Some answered_pool (XLog s') = Some held \<and> placed_on E c (sort (ps_FlintlockHosts (pool_Spec held))) \<and>
    vst_ObservedGeneration (pstatus s') = om_Generation (vp_meta c)"
  using assms(1-3)
proof (cases rule: live_chain)
  case (Reported hosts s1)
  have d: "declared (pe_kube E) c hosts s'" using declared_report [OF Reported(1), of E no_result] Reported(4) by simp
  have sorted: "sorted hosts" using assms(8) Reported(2) by (auto simp: placed_on_def)
  have mono: "list_ex create_failed (XLog s1) \<longrightarrow> list_ex create_failed (XLog s')"
    using report_log [of E s1 no_result] Reported(4) by auto
  then have "po_held s1 \<noteq> None" using Reported(6) assms(6) by (auto simp: found_def)
  then have x: "XLog s' = XLog s1" "po_held s' = po_held s1" using reported_keeps [of s1 E no_result] Reported(4) by auto
  obtain held where h: "po_held s' = Some held" using x \<open>po_held s1 \<noteq> None\<close> by auto
  then have a: "last_Some answered_pool (XLog s') = Some held" using d by (simp add: declared_def)
  have ref: "refusal s1 = None" using Reported(1) x(1) assms(5) by (simp add: declared_def)
  have "sort (ps_FlintlockHosts (pool_Spec held)) = hosts \<and> vst_ObservedGeneration (pstatus s') = om_Generation (vp_meta c)"
  proof (cases "behind c hosts (XLog s')")
    case False
    then show ?thesis using d a by (auto simp: behind_def declared_def)
  next
    case True
    then obtain xs p v v' where l: "XLog s' = xs @ [UpdateX (poolSpecToBattery c hosts) (Inr p)]"
      and u: "UpdatePool (pe_Battery E) (poolSpecToBattery c hosts) v = (Inr p, v')"
      using Reported(5) x(1) ref by (auto simp: brought_def)
    have "held = p" using a l by simp
    moreover have "ps_FlintlockHosts (pool_Spec p) = ps_FlintlockHosts (poolSpecToBattery c hosts)" using assms(7) u by blast
    then have "ps_FlintlockHosts (pool_Spec p) = hosts" by (simp add: poolSpecToBattery_def Let_def)
    ultimately show ?thesis using sorted d l by (simp add: declared_def sorted_sort_id)
  qed
  then show ?thesis using a Reported(2) by auto
qed (use assms in auto)

theorem pool_brought_in_step_witness:
  "\<exists>held. last_Some answered_pool (XLog (fst (demo_run None None))) = Some held \<and>
     placed_on (demo_pool_env None) (demo_pool None) (sort (ps_FlintlockHosts (pool_Spec held))) \<and>
     vst_ObservedGeneration (pstatus (fst (demo_run None None))) = om_Generation (vp_meta (demo_pool None))"
proof -
  let ?E = "demo_pool_env None" and ?c = "demo_pool None"
  have e: "snd (snd (demo_run None None)) = []" "\<not> Stop (fst (snd (demo_run None None)))" by code_simp+
  obtain s' res where r: "demo_run None None = (s', res, [])" using e(1) by (cases "demo_run None None") auto
  have live: "\<not> deleting (vp_meta ?c)" by code_simp
  have "\<not> list_ex (\<lambda>x. refused x \<noteq> None) (XLog (fst (demo_run None None)))"
    "\<not> list_ex create_failed (XLog (fst (demo_run None None)))" by code_simp+
  then have l: "last_Some refused (XLog s') = None" "\<not> list_ex create_failed (XLog s')"
    using r by (simp_all add: last_Some_None)
  have s: "sorted [''h1'', ''h2'']" by code_simp
  have b: "\<forall>sp w p w'. UpdatePool (pe_Battery ?E) sp w = (Inr p, w') \<longrightarrow>
      ps_FlintlockHosts (pool_Spec p) = ps_FlintlockHosts sp"
    "\<forall>sel w hosts w'. Matching ?E sel w = (Inr hosts, w') \<longrightarrow> sorted hosts"
    using s by (simp_all add: demo_pool_env_def demo_battery_def demo_held_def)
  show ?thesis using pool_brought_in_step [OF demo_kube live r _ l b] e(2) r by simp
qed

subsection \<open>Status\<close>

text \<open>
  C37. What a reconcile that runs to its end reports is what battery said. The counts are those of
  battery's last answer, zero when battery does not hold the Pool. Ready is True exactly when
  battery did not refuse the specification, the selector matches a Host, battery holds the Pool
  and its available, leased and provisioning MicroVMs are at least its size; it has the reason
  Rejected, and battery's own message, exactly when battery refused the specification. Exhausted
  is True exactly when the size is positive and battery reports no available MicroVM.
\<close>

theorem pool_status_reports:
  assumes "kube_lib (pe_kube E)" "clock_runs (pe_Now E)" "\<not> deleting (vp_meta c)"
    and "Run (poolChain (pool_logged E)) (newPoolScope c st (w, [])) = (s', res, [])" "\<not> Stop res"
    and "held = last_Some answered_pool (XLog s')" "counts = (case held of None \<Rightarrow> zero_counts | Some p \<Rightarrow> pool_Status p)"
    and "0 \<le> st_Available counts" "0 \<le> st_Leased counts" "0 \<le> st_Provisioning counts"
      "st_Available counts + st_Leased counts + st_Provisioning counts < 2147483648"
  shows "\<exists>hosts ready exhausted. placed_on E c hosts \<and>
    vst_Available (pstatus s') = st_Available counts \<and> vst_Leased (pstatus s') = st_Leased counts \<and>
    vst_Provisioning (pstatus s') = st_Provisioning counts \<and> vst_Quarantined (pstatus s') = st_Quarantined counts \<and>
    FindStatusCondition (pe_kube E) (vst_Conditions (pstatus s')) PoolConditionReady = Some ready \<and>
    (cond_Status ready = ConditionTrue \<longleftrightarrow> last_Some refused (XLog s') = None \<and> hosts \<noteq> [] \<and> held \<noteq> None \<and>
       vps_Size (vp_spec c) \<le> st_Available counts + st_Leased counts + st_Provisioning counts) \<and>
    (case last_Some refused (XLog s') of
       None \<Rightarrow> cond_Reason ready \<noteq> PoolReasonRejected
     | Some e \<Rightarrow> cond_Reason ready = PoolReasonRejected \<and> cond_Message ready = batteryMessage e ErrInvalid) \<and>
    FindStatusCondition (pe_kube E) (vst_Conditions (pstatus s')) PoolConditionExhausted = Some exhausted \<and>
    (cond_Status exhausted = ConditionTrue \<longleftrightarrow> 0 < vps_Size (vp_spec c) \<and> st_Available counts = 0)"
  using assms(1,3,4)
proof (cases rule: live_chain)
  case (Reported hosts s1)
  have clk: "clock_runs (pe_Now (pool_logged E))" using assms(2) by (simp add: clock_runs_def unlogged_def)
  have K: "kube_lib (pe_kube (pool_logged E))" using assms(1) by simp
  obtain t where t: "s' = fst (poolReadiness (pool_logged E) (fst (poolExhaustion (pool_logged E) t)))" "counts_shown t"
    "same_pool s1 t"
    "\<And>e. refusal s1 = Some e \<Longrightarrow> \<exists>c. find_cond (pool_logged E) PoolConditionReady t = Some c \<and> cond_Status c = ConditionFalse \<and>
       cond_Reason c = PoolReasonRejected \<and> cond_Message c = batteryMessage e ErrInvalid \<and>
       cond_ObservedGeneration c = om_Generation (pmeta s1)"
    using report_begins [OF K clk Reported(4)] by metis
  note e = report_ends [OF K clk t(1)]
  have d: "declared (pe_kube E) c hosts s'" using declared_report [OF Reported(1), of E no_result] Reported(4) by simp
  have held: "po_held t = held" "refusal t = last_Some refused (XLog s')" "po_hosts t = hosts" "pspec t = vp_spec c"
    using d e(1,2) assms(6) by (simp_all add: declared_def same_pool_def)
  have counts: "counts_shown s'" "pool_total (pstatus s') = st_Available counts + st_Leased counts + st_Provisioning counts"
  proof -
    show "counts_shown s'" using e(4) t(2) by simp
    show "pool_total (pstatus s') = st_Available counts + st_Leased counts + st_Provisioning counts"
      using counts_shown_total [OF \<open>counts_shown s'\<close>] e(2) held(1) assms(7-11)
      by (auto simp: zero_counts_def int32_id split: option.splits)
  qed
  have shown: "vst_Available (pstatus s') = st_Available counts" "vst_Leased (pstatus s') = st_Leased counts"
      "vst_Provisioning (pstatus s') = st_Provisioning counts" "vst_Quarantined (pstatus s') = st_Quarantined counts"
    "vst_Available (pstatus t) = st_Available counts"
    using counts(1) t(2) e(2) held(1) assms(7) by (simp_all add: counts_shown_def Let_def)
  obtain ready where ready: "find_cond (pool_logged E) PoolConditionReady s' = Some ready"
    "cond_Status ready = (if ready_now t then ConditionTrue else ConditionFalse)"
    "case refusal t of None \<Rightarrow> cond_Reason ready \<noteq> PoolReasonRejected
     | Some e \<Rightarrow> cond_Reason ready = PoolReasonRejected \<and> cond_Message ready = batteryMessage e ErrInvalid"
  proof (cases "refusal t")
    case None
    then show ?thesis using e(8) that by auto
  next
    case (Some x)
    then have "refusal s1 = Some x" using t(3) by (simp add: same_pool_def)
    from t(4) [OF this] obtain y where "find_cond (pool_logged E) PoolConditionReady t = Some y"
      "cond_Status y = ConditionFalse" "cond_Reason y = PoolReasonRejected" "cond_Message y = batteryMessage x ErrInvalid" by auto
    then show ?thesis using that [of y] e(7) Some by (simp add: ready_now_def)
  qed
  obtain exhausted where exhausted: "find_cond (pool_logged E) PoolConditionExhausted s' = Some exhausted"
    "cond_Status exhausted = (if 0 < vps_Size (pspec t) \<and> vst_Available (pstatus t) = 0 then ConditionTrue else ConditionFalse)"
    using e(6) by blast
  have "ready_now t \<longleftrightarrow> last_Some refused (XLog s') = None \<and> hosts \<noteq> [] \<and> held \<noteq> None \<and>
       vps_Size (vp_spec c) \<le> st_Available counts + st_Leased counts + st_Provisioning counts"
    using held counts(2) e(5) by (simp add: ready_now_def)
  then show ?thesis using Reported(2) shown ready exhausted held
    by (intro exI [of _ hosts] exI [of _ ready] exI [of _ exhausted]) (simp split: option.splits if_splits)
qed (use assms in auto)

theorem pool_status_reports_witness:
  "\<exists>hosts ready. placed_on (demo_pool_env None) (demo_pool None) hosts \<and>
    FindStatusCondition list_kube (vst_Conditions (pstatus (fst (demo_run None None)))) PoolConditionReady = Some ready \<and>
    cond_Status ready = (if hosts = [] then ConditionFalse else ConditionTrue)"
proof -
  let ?E = "demo_pool_env None" and ?c = "demo_pool None"
  have e: "snd (snd (demo_run None None)) = []" "\<not> Stop (fst (snd (demo_run None None)))" by code_simp+
  obtain s' res where r: "demo_run None None = (s', res, [])" using e(1) by (cases "demo_run None None") auto
  have live: "\<not> deleting (vp_meta ?c)" by code_simp
  have clk: "clock_runs (pe_Now ?E)" by (simp add: clock_runs_def demo_pool_env_def)
  have "map_option pool_Status (last_Some answered_pool (XLog (fst (demo_run None None)))) =
      Some \<lparr>st_Available = 2, st_Leased = 1, st_Provisioning = 0, st_Quarantined = 0\<rparr>"
    "\<not> list_ex (\<lambda>x. refused x \<noteq> None) (XLog (fst (demo_run None None)))" "vps_Size (vp_spec ?c) = 3" by code_simp+
  then obtain p where p: "last_Some answered_pool (XLog s') = Some p" "st_Available (pool_Status p) = 2"
    "st_Leased (pool_Status p) = 1" "st_Provisioning (pool_Status p) = 0" "last_Some refused (XLog s') = None"
    "vps_Size (vp_spec ?c) = 3"
    using r by (auto simp: last_Some_None)
  have k: "pe_kube ?E = list_kube" by (simp add: demo_pool_env_def)
  have stop: "\<not> Stop res" using e(2) r by simp
  define counts where "counts = pool_Status p"
  have fit: "0 \<le> st_Available counts" "0 \<le> st_Leased counts" "0 \<le> st_Provisioning counts"
    "st_Available counts + st_Leased counts + st_Provisioning counts < 2147483648" using p by (simp_all add: counts_def)
  have c: "counts = (case Some p of None \<Rightarrow> zero_counts | Some p \<Rightarrow> pool_Status p)" by (simp add: counts_def)
  obtain hosts ready where "placed_on ?E ?c hosts"
    "FindStatusCondition (pe_kube ?E) (vst_Conditions (pstatus s')) PoolConditionReady = Some ready"
    "cond_Status ready = ConditionTrue \<longleftrightarrow> hosts \<noteq> []"
    using pool_status_reports [OF demo_kube clk live r stop p(1) [symmetric] c fit] p counts_def by auto
  moreover have "hosts = [''h1'', ''h2'']" using calculation(1) by (auto simp: placed_on_def demo_pool_env_def)
  ultimately show ?thesis using r k by auto
qed

subsection \<open>Stalled Pools\<close>

text \<open>
  C38. The memory of stalled Pools answers what its sightings mean. In any interleaving of
  reconciles of any Pools, a sighting of a Pool with a shortfall is answered with NotFilling
  exactly when, in the unbroken run of sightings with this shortfall that it ends, the Pool was
  seen stalled a minute or more after it was first seen stalled, and NotFilling gives that first
  time; otherwise a stalled sighting asks to come back one minute after that first time.
\<close>

theorem pool_stall_matches_sightings:
  "fst (observe k shortfall stalled now (stall_run h)) =
     stall_answer shortfall stalled now (stalled_times shortfall (Saw shortfall stalled now # of_pool k h))"
  using observe_entry(2) [of "stall_run h" k "of_pool k h"] by (simp add: stall_run_entry)

end
