(* ===== verification/Spec2Isabelle.thy ===== *)
theory Spec2Isabelle
  imports ClaimProps FakeProps FakeContract PoolFake
begin

text \<open>
  The battery operator: Kubernetes controllers that lease MicroVMs from battery, a warm-pool
  manager over flintlock Hosts, for \<open>MicroVMClaim\<close> objects; and the fake battery that stands
  for battery in the repository's tests.

  \<^bold>\<open>Parts and theories.\<close> Every definition that models code keeps the name it has under \<open>src/\<close>
  where Isabelle allows it.

  \<^item> \<open>Prelude\<close>: time, durations and generic facts on lists and maps. Time is an integer, 0 the
    zero time; durations are nanoseconds.
  \<^item> \<open>Reconcile\<close>, \<open>Kube\<close>: \<open>internal/reconcile\<close>, the chains of subreconcilers, their results and
    how these merge, the generic subreconcilers; and what the code uses of Kubernetes' API
    machinery, which is a record of functions with its documented laws as the locale
    \<open>kube_lib\<close>, interpreted on lists.
  \<^item> \<open>BatteryClient\<close>: \<open>internal/battery\<close>, the interface \<open>Client\<close> as a record of functions over a
    world, the errors and how gRPC's are mapped to them, the conversions from and to the wire,
    and \<open>Connection\<close> over generated stubs.
  \<^item> \<open>ClaimTypes\<close>, \<open>ClaimSteps\<close>, \<open>ClaimController\<close>: \<open>api/v1alpha1/microvmclaim_types.go\<close> and
    \<open>internal/controller/claim\<close>, one definition per subreconciler, with every call to battery,
    the API server and the clock made through the environment \<open>claim_env\<close> and threaded
    through its world; the reconciler around the chain, recovery after a start, the feed of
    battery's events and the bind slots.
  \<^item> \<open>ClaimSpec\<close>, \<open>ClaimFacts\<close>: the relation \<open>claim_eff\<close>, an abstract specification of what one step
    may change about a claim and on which evidence; the chain refines it, and the safety
    properties of the controller are consequences of the specification.
    \<open>ClaimCalls\<close>, \<open>ClaimWaits\<close>, \<open>ClaimConditions\<close>, \<open>ClaimMemory\<close>: which calls a reconcile makes, when
    it comes back, what it reports, and the state shared between reconciles. \<open>ClaimProps\<close> has
    the properties.
  \<^item> \<open>FakeEvents\<close>, \<open>FakeState\<close>, \<open>FakeReconcile\<close>, \<open>FakeOps\<close>: \<open>internal/fakebattery\<close>, its state as one
    record and one definition per critical section of its mutex. A Go pointer to a Pool is an
    index into \<open>fk_heap\<close>, a goroutine or a call that waits for a Host is a \<open>task\<close>, and what the
    Host answers is an argument.
  \<^item> \<open>FakeSteps\<close>: the transition system of all calls and tasks, in which every interleaving is a
    path. \<open>FakeInv\<close> and \<open>FakeKeep\<close> have its invariant and that each critical section keeps it;
    \<open>FakeLife\<close> what a step can do to Leases and phases; \<open>FakePools\<close> and \<open>FakeTick\<close> Pools, Hosts and
    replenishment; \<open>FakePlay\<close> executes schedules; \<open>FakeProps\<close> has the properties.
  \<^item> \<open>FakeServer\<close>: \<open>server.go\<close>, the gRPC handlers, in which a call in flight runs concurrently with
    everything else the fake does, by an arbitrary plan. \<open>LeaseService\<close>: the contract between
    the Claim Controller and battery as two locales, with the controller's lemmas proved
    once. \<open>FakeTrack\<close> and \<open>FakeContract\<close>: the fake keeps the contract; both locales are
    interpreted on the client over its server.
  \<^item> This theory: the properties of the Claim Controller and the fake battery together.

  \<^bold>\<open>What is shown.\<close> A claim gets a Lease only from battery's answer for its own uid, keeps it
  through every failure in transit, is marked Expired only on battery's or its events' word,
  and loses its finalizer only once battery has answered that the Lease is gone; a reconcile
  asks for a later one whenever something is left to do. In the fake, Leases and MicroVMs
  stay consistent under every interleaving, a Lease ends only for the reasons the
  requirements give, a leased MicroVM is never handed out again, request ids are idempotent,
  a tick fills every Pool, and event streams have no gap. Together: no Lease outlives the
  finalizer of its claim, and two claims never share a MicroVM.

  \<^bold>\<open>Bounds and fuel.\<close> No definition has fuel: every loop of the modelled code is over a list or
  a map and is structural recursion or a fold over it. A loop over a Go map takes the order
  of its keys as an argument. Counts and sizes, which are int32 in the code, are integers:
  they count MicroVMs in memory.

  \<^bold>\<open>Not modelled.\<close> The Pool and Inventory Controllers, the signer of Host certificates, the exec
  agent, the claim client library and the fake flintlockd have no theory yet. Command lines,
  logging, metrics, certificates' encodings, generated code and the build tooling are input
  and output or code of others. In the modelled parts: log messages, the text of wrapped
  errors where nothing reads it, and network interfaces in claim answers.
\<close>

section \<open>The Claim Controller over the fake battery\<close>

text \<open>
  An example: a Pool with two available MicroVMs, two claims for it, an API server that holds
  both, and a plan in which every Host does what it is asked and a claim that ends draws the
  name of its turn as the Lease id.
\<close>

definition sys_turns :: "string \<Rightarrow> turn list" where
  "sys_turns = map (\<lambda>c. \<lparr>tn_now = 10, tn_moves = [], tn_outcome = Some (fine [c])\<rparr>)"

definition sys_moves :: "move list" where
  "sys_moves = [Do 1 CallRun, Do 1 (CallCreatePool (demo_spec\<lparr>ps_Size := 2\<rparr>)), Do 1 (CallTick [] [demo_ref])] @
     map (\<lambda>c. Go 2 0 (fine [c])) ''xxuvxxxx''"

definition sys_start :: sys where
  "sys_start = \<lparr>sy_fake = play sys_moves (New_fake PlacementLeastVMs demo_hosts 100), sy_history = [],
     sy_plan = sys_turns ''ABCDEFGHIJKLMNOPQRSTUVWXYZ''\<rparr>"

definition sys_claim :: "string \<Rightarrow> MicroVMClaim" where
  "sys_claim name = new_claim\<lparr>claim_meta := demo_meta\<lparr>om_Namespace := ''n'', om_Name := name, om_UID := name\<rparr>\<rparr>"

definition sys_env :: "sys claim_env" where
  "sys_env = fake_env list_kube (\<lambda>k w. Inr (sys_claim (snd k))) (\<lambda>k w. Inr demo_meta) (\<lambda>n w. Inr demo_meta) (\<lambda>w. 10)
     IMMEDIATE_ON_LEASE (\<lambda>w. \<lparr>ctx_Err = None, ctx_deadlinePassed = False\<rparr>)"

abbreviation sys_run :: "sys \<Rightarrow> MicroVMClaim \<Rightarrow> sys claim_scope" where
  "sys_run w c \<equiv> after_chain DefaultBackoff sys_env w None None None c"

lemma sys_start_sound: "sys_sound sys_start"
proof -
  have "fk_leases (sy_fake sys_start) = []" by code_simp
  moreover have "fake_reachable (sy_fake sys_start)"
    unfolding sys_start_def by (simp add: play_reachable new_reachable)
  ultimately show ?thesis by (simp add: sys_sound_def)
qed

lemma sys_run_sound: "sys_sound w \<Longrightarrow> sys_sound (World (sys_run w c))"
proof -
  assume s: "sys_sound w"
  have "passes sys_env w (World (sys_run w c))"
    using frame_passes [OF effs_frame [OF after_chain_eff [of sys_env w None None None c]]] by simp
  then show ?thesis using fake_claims.passes_later s unfolding sys_env_def by blast
qed

text \<open>
  C31. The Claim Controller over the fake battery: when a reconcile has taken the release
  finalizer off a claim, battery no longer holds the claim's Lease, and never holds it again,
  whatever the fake, its Hosts and the other clients do during the reconcile and later.
\<close>

theorem unfinalized_claim_has_no_lease:
  assumes "E = fake_env K claims pools nodes clk z ctx" "kube_lib K" "sys_sound w"
    and "ContainsFinalizer K (om_Finalizers (claim_meta c)) ReleaseFinalizer"
    and "\<not> ContainsFinalizer K (om_Finalizers (objmeta (after_chain b E w sl d r c))) ReleaseFinalizer"
    and "LeaseID (claim_status c) \<in> dom (sy_issued w)" "LeaseID (claim_status c) \<noteq> []"
    and "passes E (World (after_chain b E w sl d r c)) w'"
  shows "LeaseID (claim_status c) \<notin> sys_holds w'"
proof -
  let ?s = "after_chain b E w sl d r c"
  have K: "kube E = K" by (simp add: assms(1) fake_env_def)
  have "released E w (World ?s) (LeaseID (claim_status c))"
    using effs_finalizer [OF after_chain_eff [of E w sl d r c b]] assms(2,4,5,7) by (simp add: K may_unfinalize_def)
  then have "released E w w' (LeaseID (claim_status c))" by (rule released_mono) (simp_all add: assms(8))
  then show ?thesis using fake_claims.released_gone assms(1,3,6) by blast
qed

theorem unfinalized_claim_has_no_lease_witness:
  "\<exists>w c. LeaseID (claim_status c) \<in> sys_holds w \<and> LeaseID (claim_status c) \<notin> sys_holds (World (sys_run w c))"
proof -
  let ?s = "sys_run sys_start (sys_claim ''a'')"
  let ?c = "(Object ?s)\<lparr>claim_meta := (claim_meta (Object ?s))\<lparr>om_DeletionTimestamp := Some 10\<rparr>\<rparr>"
  have "let s = ?s; w = World s; c = (Object s)\<lparr>claim_meta := (claim_meta (Object s))\<lparr>om_DeletionTimestamp := Some 10\<rparr>\<rparr>;
      l = LeaseID (claim_status c)
    in l \<noteq> [] \<and> lease_of (sy_fake w) l \<noteq> None \<and> sy_issued w l \<noteq> None \<and>
      ContainsFinalizer list_kube (om_Finalizers (claim_meta c)) ReleaseFinalizer \<and>
      \<not> ContainsFinalizer list_kube (om_Finalizers (objmeta (sys_run w c))) ReleaseFinalizer"
    by code_simp
  then have h: "LeaseID (claim_status ?c) \<noteq> []" "LeaseID (claim_status ?c) \<in> sys_holds (World ?s)"
    "LeaseID (claim_status ?c) \<in> dom (sy_issued (World ?s))"
    "ContainsFinalizer list_kube (om_Finalizers (claim_meta ?c)) ReleaseFinalizer"
    "\<not> ContainsFinalizer list_kube (om_Finalizers (objmeta (sys_run (World ?s) ?c))) ReleaseFinalizer"
    unfolding Let_def sys_holds_def by blast+
  have "LeaseID (claim_status ?c) \<notin> sys_holds (World (sys_run (World ?s) ?c))"
    by (rule unfinalized_claim_has_no_lease [OF sys_env_def lists.kube_lib_axioms sys_run_sound [OF sys_start_sound] h(4,5,3,1)
          rtranclp.rtrancl_refl])
  with h(2) show ?thesis by blast
qed

text \<open>
  C32. A claim that a reconcile binds has a Lease that the fake issued for it: for the uid of
  the claim as read, in the claim's Pool, and of the MicroVM that the claim records.
\<close>

theorem bound_claim_has_its_lease:
  assumes "E = fake_env K claims pools nodes clk z ctx" "sys_sound w"
    and "LeaseID (claim_status c) = []" "LeaseID (status (after_chain b E w sl d r c)) \<noteq> []"
  shows "\<exists>fresh q. asked E w (World (after_chain b E w sl d r c)) (APIReader_claim E (ObjectKeyFromObject (claim_meta c))) (Inr fresh) \<and>
    sy_issued (World (after_chain b E w sl d r c)) (LeaseID (status (after_chain b E w sl d r c))) = Some q \<and>
    MicroVM (status (after_chain b E w sl d r c)) = Some (lr_VMUID q) \<and>
    lr_Pool q = \<lparr>ref_Name = PoolRefName (claim_spec c), ref_Namespace = om_Namespace (claim_meta c)\<rparr> \<and>
    (om_UID (claim_meta fresh) \<noteq> [] \<longrightarrow> lr_RequestID q = om_UID (claim_meta fresh))"
proof -
  have "claimed_from E w (World (after_chain b E w sl d r c)) c (status (after_chain b E w sl d r c))"
    using effs_bind [OF after_chain_eff [of E w sl d r c b]] assms(3,4) by simp
  then show ?thesis unfolding assms(1) using fake_claims.bound_issued assms(2) by blast
qed

theorem bound_claim_has_its_lease_witness:
  "\<exists>q. sy_issued (World (sys_run sys_start (sys_claim ''a''))) (LeaseID (status (sys_run sys_start (sys_claim ''a'')))) = Some q \<and>
     MicroVM (status (sys_run sys_start (sys_claim ''a''))) = Some (lr_VMUID q)"
proof -
  have h: "LeaseID (claim_status (sys_claim ''a'')) = []" "LeaseID (status (sys_run sys_start (sys_claim ''a''))) \<noteq> []"
    by code_simp+
  show ?thesis using bound_claim_has_its_lease [OF sys_env_def sys_start_sound h] by blast
qed

text \<open>If the claim read is still the claim reconciled, its uid is the request id of its Lease.\<close>

lemma bound_for_uid:
  assumes "E = fake_env K claims pools nodes clk z ctx" "sys_sound w"
    and "LeaseID (claim_status c) = []" "LeaseID (status (after_chain b E w sl d r c)) \<noteq> []"
    and uid: "\<forall>w fresh. claims (ObjectKeyFromObject (claim_meta c)) w = Inr fresh \<longrightarrow> om_UID (claim_meta fresh) = om_UID (claim_meta c)"
    and "om_UID (claim_meta c) \<noteq> []"
  shows "\<exists>q. sy_issued (World (after_chain b E w sl d r c)) (LeaseID (status (after_chain b E w sl d r c))) = Some q \<and>
    MicroVM (status (after_chain b E w sl d r c)) = Some (lr_VMUID q) \<and> lr_RequestID q = om_UID (claim_meta c)"
proof -
  let ?s = "after_chain b E w sl d r c"
  have "claimed_from E w (World ?s) c (status ?s)"
    using effs_bind [OF after_chain_eff [of E w sl d r c b]] assms(3,4) by simp
  from fake_claims.bound_issued [OF this [unfolded assms(1)] assms(2), folded assms(1)] obtain fresh q where
    q: "asked E w (World ?s) (APIReader_claim E (ObjectKeyFromObject (claim_meta c))) (Inr fresh)"
      "sy_issued (World ?s) (LeaseID (status ?s)) = Some q" "MicroVM (status ?s) = Some (lr_VMUID q)"
      "om_UID (claim_meta fresh) \<noteq> [] \<longrightarrow> lr_RequestID q = om_UID (claim_meta fresh)"
    by blast
  from q(1) obtain u where "fst (APIReader_claim E (ObjectKeyFromObject (claim_meta c)) u) = Inr fresh" unfolding asked_def by blast
  then have "claims (ObjectKeyFromObject (claim_meta c)) (snd (arrive u)) = Inr fresh"
    by (simp add: assms(1) fake_env_def reads_def split_beta)
  then show ?thesis using q(2-4) uid assms(6) by metis
qed

text \<open>
  C33. Two claims never share a MicroVM: if one reconcile binds one claim, and a later one
  binds another claim with another uid, then their Leases differ, and while battery holds
  both, so do their MicroVMs.
\<close>

theorem claims_never_share:
  assumes "E = fake_env K claims pools nodes clk z ctx" "sys_sound w1"
    and "LeaseID (claim_status c1) = []" "LeaseID (claim_status c2) = []"
    and "s1 = after_chain b E w1 sl1 d1 r1 c1" "LeaseID (status s1) \<noteq> []"
    and "passes E (World s1) w2" "s2 = after_chain b E w2 sl2 d2 r2 c2" "LeaseID (status s2) \<noteq> []"
    and "\<And>c w fresh. c \<in> {c1, c2} \<Longrightarrow> claims (ObjectKeyFromObject (claim_meta c)) w = Inr fresh \<Longrightarrow>
           om_UID (claim_meta fresh) = om_UID (claim_meta c)"
    and "om_UID (claim_meta c1) \<noteq> om_UID (claim_meta c2)" "om_UID (claim_meta c1) \<noteq> []" "om_UID (claim_meta c2) \<noteq> []"
  shows "LeaseID (status s1) \<noteq> LeaseID (status s2) \<and>
    ({LeaseID (status s1), LeaseID (status s2)} \<subseteq> sys_holds (World s2) \<longrightarrow> MicroVM (status s1) \<noteq> MicroVM (status s2))"
proof -
  have p1: "passes E w1 (World s1)" and p2: "passes E w2 (World s2)"
    using frame_passes [OF effs_frame [OF after_chain_eff [of E w1 sl1 d1 r1 c1 b]]]
      frame_passes [OF effs_frame [OF after_chain_eff [of E w2 sl2 d2 r2 c2 b]]] unfolding assms(5,8) by simp_all
  have sd: "sys_sound w2" "sys_sound (World s2)" "later sy_issued sys_holds (World s1) (World s2)"
  proof -
    note pl = fake_claims.passes_later [of K claims pools nodes clk z ctx, folded assms(1)]
    note 1 = pl [OF p1 assms(2)]
    note 2 = pl [OF assms(7) conjunct1 [OF 1]]
    note 3 = pl [OF p2 conjunct1 [OF 2]]
    show "sys_sound w2" "sys_sound (World s2)" "later sy_issued sys_holds (World s1) (World s2)"
      using 2 3 later_trans [OF conjunct2 [OF 2] conjunct2 [OF 3]] by simp_all
  qed
  have u1: "\<forall>w fresh. claims (ObjectKeyFromObject (claim_meta c1)) w = Inr fresh \<longrightarrow> om_UID (claim_meta fresh) = om_UID (claim_meta c1)"
    using assms(10) [of c1] by blast
  have u2: "\<forall>w fresh. claims (ObjectKeyFromObject (claim_meta c2)) w = Inr fresh \<longrightarrow> om_UID (claim_meta fresh) = om_UID (claim_meta c2)"
    using assms(10) [of c2] by blast
  from bound_for_uid [OF assms(1,2,3) assms(6) [unfolded assms(5)] u1 assms(12), folded assms(5)]
  obtain q1 where q1: "sy_issued (World s1) (LeaseID (status s1)) = Some q1" "MicroVM (status s1) = Some (lr_VMUID q1)"
    "lr_RequestID q1 = om_UID (claim_meta c1)" by blast
  from bound_for_uid [OF assms(1) sd(1) assms(4) assms(9) [unfolded assms(8)] u2 assms(13), folded assms(8)]
  obtain q2 where q2: "sy_issued (World s2) (LeaseID (status s2)) = Some q2" "MicroVM (status s2) = Some (lr_VMUID q2)"
    "lr_RequestID q2 = om_UID (claim_meta c2)" by blast
  have i1: "sy_issued (World s2) (LeaseID (status s1)) = Some q1" by (rule later_issued [OF sd(3) q1(1)])
  have ne: "LeaseID (status s1) \<noteq> LeaseID (status s2)" using i1 q1(3) q2(1,3) assms(11) by auto
  moreover have "lr_VMUID q1 \<noteq> lr_VMUID q2" if "{LeaseID (status s1), LeaseID (status s2)} \<subseteq> sys_holds (World s2)"
    using served.one_vm [OF sd(2) _ _ i1 q2(1)] that ne by auto
  ultimately show ?thesis using q1(2) q2(2) by simp
qed

theorem claims_never_share_witness:
  "MicroVM (status (sys_run sys_start (sys_claim ''a''))) \<noteq>
   MicroVM (status (sys_run (World (sys_run sys_start (sys_claim ''a''))) (sys_claim ''b'')))"
proof -
  let ?s1 = "sys_run sys_start (sys_claim ''a'')"
  let ?s2 = "sys_run (World ?s1) (sys_claim ''b'')"
  have "let s1 = ?s1; s2 = sys_run (World s1) (sys_claim ''b'')
    in LeaseID (status s1) \<noteq> [] \<and> LeaseID (status s2) \<noteq> [] \<and>
      lease_of (sy_fake (World s2)) (LeaseID (status s1)) \<noteq> None \<and> lease_of (sy_fake (World s2)) (LeaseID (status s2)) \<noteq> None"
    by code_simp
  then have h: "LeaseID (status ?s1) \<noteq> []" "LeaseID (status ?s2) \<noteq> []"
    "{LeaseID (status ?s1), LeaseID (status ?s2)} \<subseteq> sys_holds (World ?s2)"
    unfolding Let_def sys_holds_def by blast+
  have n: "LeaseID (claim_status (sys_claim ''a'')) = []" "LeaseID (claim_status (sys_claim ''b'')) = []"
    "om_UID (claim_meta (sys_claim ''a'')) \<noteq> om_UID (claim_meta (sys_claim ''b''))"
    "om_UID (claim_meta (sys_claim ''a'')) \<noteq> []" "om_UID (claim_meta (sys_claim ''b'')) \<noteq> []"
    by code_simp+
  have "om_UID (claim_meta fresh) = om_UID (claim_meta c)"
    if "c \<in> {sys_claim ''a'', sys_claim ''b''}" "Inr (sys_claim (snd (ObjectKeyFromObject (claim_meta c)))) = Inr fresh"
    for c fresh using that by (auto simp: sys_claim_def ObjectKeyFromObject_def)
  from claims_never_share [OF sys_env_def sys_start_sound n(1,2) refl h(1) rtranclp.rtrancl_refl refl h(2) this n(3-5)]
  show ?thesis using h(3) by blast
qed

end
